(* ===== verification/Gbp_Prelude.thy ===== *)
theory Gbp_Prelude
  imports Main "HOL-Library.Word"
begin

unbundle bit_operations_syntax

section \<open>Shared vocabulary of the development\<close>

text \<open>
  Types and lemmas that every component uses: the fixed-width integers of the Rust code as
  words, byte strings, the little- and big-endian conversions of the standard library
  (\<^verbatim>\<open>to_le_bytes\<close>, \<^verbatim>\<open>from_le_bytes\<close>, \<^verbatim>\<open>to_be_bytes\<close>), decimal formatting of
  integers in messages, the iteration order of a hash map, third-party codecs as parameters,
  and the interface of an enumeration with a numeric wire value.

  Integers wrap around: the model is the release profile of \<^verbatim>\<open>Cargo.toml\<close>, which does not
  turn overflow checks on.
\<close>

type_synonym u8 = "8 word"
type_synonym u16 = "16 word"
type_synonym u32 = "32 word"
type_synonym u64 = "64 word"
type_synonym bytes = "u8 list"

text \<open>A clock reading (\<^verbatim>\<open>Instant\<close>), in milliseconds since some fixed start.\<close>

type_synonym instant = nat

named_theorems wire_simps \<open>evaluation of wire conversions\<close>
named_theorems step_simps \<open>frame rules: what an operation leaves unchanged\<close>

subsection \<open>Results\<close>

text \<open>A Rust \<^verbatim>\<open>Result<T, E>\<close> is \<open>E + T\<close>, with \<open>Inl\<close> the error.\<close>

definition ok_of :: "'e + 'a \<Rightarrow> 'a option" where
  "ok_of r = (case r of Inl _ \<Rightarrow> None | Inr x \<Rightarrow> Some x)"

lemma ok_of_simps [simp]:
  "ok_of (Inl e) = None" "ok_of (Inr x) = Some x"
  by (simp_all add: ok_of_def)

lemma ok_of_eq_Some [simp]: "ok_of r = Some x \<longleftrightarrow> r = Inr x"
  by (cases r) auto

lemma ok_of_eq_None: "ok_of r = None \<longleftrightarrow> (\<exists>e. r = Inl e)"
  by (cases r) auto

subsection \<open>Bits of a byte\<close>

lemma octet_bit_high [simp]: "8 \<le> i \<Longrightarrow> \<not> bit (b :: u8) i"
  using bit_imp_le_length by force

lemma octet_eqI:
  fixes a b :: u8
  assumes "bit a 0 = bit b 0" "bit a 1 = bit b 1" "bit a 2 = bit b 2" "bit a 3 = bit b 3"
    "bit a 4 = bit b 4" "bit a 5 = bit b 5" "bit a 6 = bit b 6" "bit a 7 = bit b 7"
  shows "a = b"
proof (rule bit_word_eqI)
  fix n assume "n < LENGTH(8)"
  then have "n = 0 \<or> n = 1 \<or> n = 2 \<or> n = 3 \<or> n = 4 \<or> n = 5 \<or> n = 6 \<or> n = 7" by auto
  then show "bit a n = bit b n" using assms by metis
qed

subsection \<open>Byte order conversions\<close>

definition le_bytes32 :: "u32 \<Rightarrow> bytes" where
  "le_bytes32 w = [ucast w, ucast (drop_bit 8 w), ucast (drop_bit 16 w), ucast (drop_bit 24 w)]"

definition from_le_bytes32 :: "u8 \<Rightarrow> u8 \<Rightarrow> u8 \<Rightarrow> u8 \<Rightarrow> u32" where
  "from_le_bytes32 b0 b1 b2 b3 =
     ucast b0 OR push_bit 8 (ucast b1) OR push_bit 16 (ucast b2) OR push_bit 24 (ucast b3)"

definition be_bytes32 :: "u32 \<Rightarrow> bytes" where
  "be_bytes32 w = [ucast (drop_bit 24 w), ucast (drop_bit 16 w), ucast (drop_bit 8 w), ucast w]"

definition be_bytes64 :: "u64 \<Rightarrow> bytes" where
  "be_bytes64 w = map (\<lambda>i. ucast (drop_bit (8 * i) w)) [7, 6, 5, 4, 3, 2, 1, 0]"

lemma length_le_bytes32 [simp]: "length (le_bytes32 w) = 4"
  by (simp add: le_bytes32_def)

lemma length_be_bytes32 [simp]: "length (be_bytes32 w) = 4"
  by (simp add: be_bytes32_def)

lemma length_be_bytes64 [simp]: "length (be_bytes64 w) = 8"
  by (simp add: be_bytes64_def)

lemma from_le_bytes32_le [simp]:
  "from_le_bytes32 (ucast w) (ucast (drop_bit 8 w)) (ucast (drop_bit 16 w)) (ucast (drop_bit 24 w)) = w"
proof (rule bit_word_eqI)
  fix n assume "n < LENGTH(32)"
  then have n: "n < 32" by simp
  show "bit (from_le_bytes32 (ucast w) (ucast (drop_bit 8 w)) (ucast (drop_bit 16 w))
      (ucast (drop_bit 24 w))) n = bit w n"
    unfolding from_le_bytes32_def
    using n by (cases "n < 16"; cases "n < 24") (auto simp: bit_simps)
qed

text \<open>
  Reading a length prefix off the front of a byte string, as \<^verbatim>\<open>restore_out_seq\<close>,
  \<^verbatim>\<open>deserialize_storage\<close>, \<^verbatim>\<open>restore_state\<close> and \<^verbatim>\<open>read_blob\<close> do: at least four bytes are
  needed, the first four are the value.
\<close>

definition rd_le32 :: "bytes \<Rightarrow> (u32 \<times> bytes) option" where
  "rd_le32 bs = (case bs of b0 # b1 # b2 # b3 # rest \<Rightarrow> Some (from_le_bytes32 b0 b1 b2 b3, rest)
     | _ \<Rightarrow> None)"

lemma rd_le32_le_bytes [simp]: "rd_le32 (le_bytes32 w @ r) = Some (w, r)"
  by (simp add: rd_le32_def le_bytes32_def)

lemma rd_le32_None: "rd_le32 bs = None \<longleftrightarrow> length bs < 4"
  by (auto simp: rd_le32_def split: list.splits)

lemma rd_le32_length: "rd_le32 bs = Some (w, r) \<Longrightarrow> length bs = length r + 4"
  by (auto simp: rd_le32_def split: list.splits)

lemma le_bytes32_inj: "le_bytes32 v = le_bytes32 w \<Longrightarrow> v = w"
  using rd_le32_le_bytes [of v "[]"] rd_le32_le_bytes [of w "[]"] by simp

lemma be_bytes32_rev: "be_bytes32 w = rev (le_bytes32 w)"
  by (simp add: be_bytes32_def le_bytes32_def)

lemma be_bytes32_inj: "be_bytes32 v = be_bytes32 w \<longleftrightarrow> v = w"
  by (auto simp: be_bytes32_rev dest: le_bytes32_inj)

text \<open>Sizes that fit in 32 bits survive the cast \<^verbatim>\<open>as u32\<close> and back.\<close>

lemma unat_word_of_nat32 [simp]: "n < 2 ^ 32 \<Longrightarrow> unat (word_of_nat n :: u32) = n"
  by (simp add: unat_of_nat)

lemma unat_bound32: "unat (w :: u32) < 2 ^ 32"
  by (rule order_less_le_trans [OF unsigned_less]) simp

lemma word_of_nat_unat: "word_of_nat (unat w) = (w :: 'a::len word)"
  by transfer simp

subsection \<open>Formatting\<close>

fun dec_nat :: "nat \<Rightarrow> string" where
  "dec_nat n = (if n < 10 then [char_of (48 + n)] else dec_nat (n div 10) @ [char_of (48 + n mod 10)])"

declare dec_nat.simps [simp del]

definition dec_word :: "'a::len word \<Rightarrow> string" where
  "dec_word w = dec_nat (unat w)"

text \<open>Hexadecimal, with upper-case (\<^verbatim>\<open>{:X}\<close>) or lower-case (\<^verbatim>\<open>{:x}\<close>) digits.\<close>

definition hex_digit :: "bool \<Rightarrow> nat \<Rightarrow> char" where
  "hex_digit upper n = (if n < 10 then char_of (48 + n) else char_of ((if upper then 55 else 87) + n))"

fun hex_nat :: "bool \<Rightarrow> nat \<Rightarrow> string" where
  "hex_nat upper n =
     (if n < 16 then [hex_digit upper n] else hex_nat upper (n div 16) @ [hex_digit upper (n mod 16)])"

declare hex_nat.simps [simp del]

text \<open>Zero-padded to eight digits (\<^verbatim>\<open>{:08X}\<close>).\<close>

definition hex8 :: "u32 \<Rightarrow> string" where
  "hex8 w = (let s = hex_nat True (unat w) in replicate (8 - length s) (CHR ''0'') @ s)"

subsection \<open>Hash maps\<close>

text \<open>
  A \<^verbatim>\<open>HashMap\<close> is a partial function; where the code iterates over one, the order is not
  specified. \<open>hash_iter m es\<close> says that the list \<open>es\<close> is one possible iteration over the map
  \<open>m\<close>: every entry once.
\<close>

definition hash_iter :: "('k \<rightharpoonup> 'v) \<Rightarrow> ('k \<times> 'v) list \<Rightarrow> bool" where
  "hash_iter m es \<longleftrightarrow> distinct (map fst es) \<and> map_of es = m"

lemma hash_iter_map_of: "hash_iter m es \<Longrightarrow> map_of es = m"
  by (simp add: hash_iter_def)

lemma hash_iter_mem: "hash_iter m es \<Longrightarrow> (k, v) \<in> set es \<longleftrightarrow> m k = Some v"
  by (auto simp: hash_iter_def intro: map_of_is_SomeI dest: map_of_SomeD)

lemma hash_iter_values: "hash_iter m es \<Longrightarrow> snd ` set es = ran m"
  by (auto simp: ran_def image_iff hash_iter_mem [symmetric]) force+

lemma hash_iter_Nil: "hash_iter m [] \<longleftrightarrow> m = Map.empty"
  by (auto simp: hash_iter_def)

lemma hash_iter_empty: "hash_iter m es \<Longrightarrow> es = [] \<longleftrightarrow> m = Map.empty"
  by (cases es) (auto simp: hash_iter_def)

lemma hash_iter_length: "hash_iter m es \<Longrightarrow> length es = card (dom m)"
  by (metis distinct_card dom_map_of_conv_image_fst hash_iter_def length_map list.set_map)

lemma map_of_rev_distinct: "distinct (map fst es) \<Longrightarrow> map_of (rev es) = map_of es"
  by (simp add: map_of_inject_set rev_map [symmetric])

definition opt_or :: "'a option \<Rightarrow> 'a \<Rightarrow> 'a" where
  "opt_or x d = (case x of None \<Rightarrow> d | Some v \<Rightarrow> v)"

lemma opt_or_simps [simp]: "opt_or None d = d" "opt_or (Some v) d = v"
  by (simp_all add: opt_or_def)

subsection \<open>Third-party serialisers\<close>

text \<open>
  \<^verbatim>\<open>ciborium\<close> (with the derived serde implementations), \<^verbatim>\<open>prost\<close> and \<^verbatim>\<open>planus\<close> are not part of
  the repository. A serialiser for messages of one type is a parameter of the model: a writer,
  which the code treats as infallible, and a reader, whose error is the text of the decoding
  error. What the code relies on is that reading what was written gives the message back.
\<close>

record 'm serialiser =
  into_writer :: "'m \<Rightarrow> bytes"
  from_reader :: "bytes \<Rightarrow> string + 'm"

definition reads_back :: "('m, 'z) serialiser_scheme \<Rightarrow> bool" where
  "reads_back c \<longleftrightarrow> (\<forall>m. from_reader c (into_writer c m) = Inr m)"

lemma reads_backD [simp]: "reads_back c \<Longrightarrow> from_reader c (into_writer c m) = Inr m"
  by (simp add: reads_back_def)

lemma reads_back_inj: "reads_back c \<Longrightarrow> into_writer c a = into_writer c b \<Longrightarrow> a = b"
  by (metis reads_backD sum.inject(2))

subsection \<open>Enumerations with a wire value\<close>

text \<open>
  Every registry of the protocol (stream types, payload codecs, control opcodes, signals, error
  classes, cipher suites) is a Rust enum with explicit discriminants and a fallible conversion
  back. The contract: the conversion inverts the discriminant, and accepts nothing else.
\<close>

locale wire_enum =
  fixes enc :: "'e \<Rightarrow> 'w"
    and dec :: "'w \<Rightarrow> 'e option"
  assumes dec_enc: "dec (enc e) = Some e"
    and enc_dec: "dec w = Some e \<Longrightarrow> enc e = w"
begin

lemma enc_inj: "enc a = enc b \<longleftrightarrow> a = b"
  by (metis dec_enc option.inject)

lemma dec_Some: "dec w = Some e \<longleftrightarrow> w = enc e"
  using dec_enc enc_dec by metis

lemma dec_None: "dec w = None \<longleftrightarrow> w \<notin> range enc"
  using dec_enc enc_dec by (metis image_iff not_None_eq rangeI)

end

subsection \<open>Length-prefixed blobs\<close>

text \<open>
  Byte strings are framed with their length in four places: the sections of an exported MLS state,
  the entries of its key-value store, and the two transports. The contract of such a framing: what
  was put is got back with the rest of the stream untouched, and a truncated blob is refused. From
  it follows what a receiver needs: a sequence of blobs is read back exactly, and no proper prefix
  of the stream passes for it.
\<close>

definition put_section :: "bytes \<Rightarrow> bytes" where
  "put_section part = le_bytes32 (word_of_nat (length part)) @ part"

lemma length_put_section [simp]: "length (put_section p) = length p + 4"
  by (simp add: put_section_def)

lemma rd_le32_put_section [simp]: "rd_le32 (put_section p @ r) = Some (word_of_nat (length p), p @ r)"
  by (simp add: put_section_def)

lemma rd_le32_take_put_section:
  "n < length (put_section p) \<Longrightarrow> 4 \<le> n \<Longrightarrow>
     rd_le32 (take n (put_section p)) = Some (word_of_nat (length p), take (n - 4) p)"
  by (simp add: put_section_def)

locale blob_framing =
  fixes put :: "bytes \<Rightarrow> bytes"
    and get :: "bytes \<Rightarrow> 'e + bytes \<times> bytes"
    and fits :: "bytes \<Rightarrow> bool"
  assumes get_put: "fits p \<Longrightarrow> get (put p @ r) = Inr (p, r)"
    and get_truncated: "fits p \<Longrightarrow> n < length (put p) \<Longrightarrow> \<exists>e. get (take n (put p)) = Inl e"
begin

fun get_n :: "nat \<Rightarrow> bytes \<Rightarrow> 'e + bytes list \<times> bytes" where
  "get_n 0 bs = Inr ([], bs)"
| "get_n (Suc n) bs =
     (case get bs of Inl e \<Rightarrow> Inl e
      | Inr (p, r) \<Rightarrow> (case get_n n r of Inl e \<Rightarrow> Inl e | Inr (ps, r') \<Rightarrow> Inr (p # ps, r')))"

lemma get_n_concat:
  "\<forall>p\<in>set ps. fits p \<Longrightarrow> get_n (length ps) (concat (map put ps) @ r) = Inr (ps, r)"
  by (induction ps) (simp_all add: get_put)

lemma get_n_truncated:
  "\<forall>p\<in>set ps. fits p \<Longrightarrow> k < length (concat (map put ps)) \<Longrightarrow>
     \<exists>e. get_n (length ps) (take k (concat (map put ps))) = Inl e"
proof (induction ps arbitrary: k)
  case (Cons p ps)
  show ?case
  proof (cases "k < length (put p)")
    case True
    then show ?thesis using get_truncated [of p k] Cons.prems by auto
  next
    case False
    then have "take k (put p @ concat (map put ps))
        = put p @ take (k - length (put p)) (concat (map put ps))" by simp
    moreover obtain e where
        "get_n (length ps) (take (k - length (put p)) (concat (map put ps))) = Inl e"
    proof -
      have "k - length (put p) < length (concat (map put ps))" using Cons.prems(2) False by auto
      then show ?thesis using Cons.IH [of "k - length (put p)"] Cons.prems(1) that by auto
    qed
    ultimately show ?thesis using Cons.prems(1) by (auto simp: get_put)
  qed
qed simp

end

end
