(* ===== verification/Gbp_Core.thy ===== *)
theory Gbp_Core
  imports Gbp_Prelude
begin

section \<open>Type vocabulary (\<^verbatim>\<open>gbp-core\<close>)\<close>

text \<open>
  The enumerations and registries of \<^verbatim>\<open>crates/gbp/core/src\<close>: payload codecs, frame flags, stream
  types, signals, control opcodes, the three state machines, the timeouts, the error registry and
  the conformance classes. Each enumeration with a wire value is an instance of the interface
  \<open>wire_enum\<close>; the error registry is the authority that the node consults for every error.
\<close>

subsection \<open>Payload codecs (\<^verbatim>\<open>codec.rs\<close>)\<close>

datatype payload_codec = Cbor | Protobuf | FlatBuffers

fun codec_as_u8 :: "payload_codec \<Rightarrow> u8" where
  "codec_as_u8 Cbor = 0"
| "codec_as_u8 Protobuf = 1"
| "codec_as_u8 FlatBuffers = 2"

definition codec_from_u8 :: "u8 \<Rightarrow> payload_codec option" where
  "codec_from_u8 v =
     (if v = 0 then Some Cbor else if v = 1 then Some Protobuf
      else if v = 2 then Some FlatBuffers else None)"

fun codec_display :: "payload_codec \<Rightarrow> string" where
  "codec_display Cbor = ''cbor''"
| "codec_display Protobuf = ''protobuf''"
| "codec_display FlatBuffers = ''flatbuffers''"

interpretation codec_wire: wire_enum codec_as_u8 codec_from_u8
proof
  fix e show "codec_from_u8 (codec_as_u8 e) = Some e"
    by (cases e) (simp_all add: codec_from_u8_def)
next
  fix w e assume "codec_from_u8 w = Some e"
  then show "codec_as_u8 e = w" by (auto simp: codec_from_u8_def split: if_splits)
qed

subsection \<open>Frame flags (\<^verbatim>\<open>flags.rs\<close>)\<close>

definition ORDERED :: u16 where [simp]: "ORDERED = 0x0001"
definition RELIABLE :: u16 where [simp]: "RELIABLE = 0x0002"
definition ACK_REQ :: u16 where [simp]: "ACK_REQ = 0x0004"
definition SYSTEM :: u16 where [simp]: "SYSTEM = 0x0008"
definition CRITICAL :: u16 where [simp]: "CRITICAL = 0x0010"

definition flags_has :: "u16 \<Rightarrow> u16 \<Rightarrow> bool" where
  "flags_has self b \<longleftrightarrow> self AND b \<noteq> 0"

definition ordered_reliable_ack :: u16 where
  "ordered_reliable_ack = ORDERED OR RELIABLE OR ACK_REQ"

definition ordered_reliable_system :: u16 where
  "ordered_reliable_system = ORDERED OR RELIABLE OR SYSTEM"

definition ordered_only :: u16 where
  "ordered_only = ORDERED"

lemma flag_profiles [simp]:
  "ordered_reliable_ack = 7" "ordered_reliable_system = 11" "ordered_only = 1"
  by (simp_all add: ordered_reliable_ack_def ordered_reliable_system_def ordered_only_def)

lemma flags_has_or: "flags_has (a OR b) c \<longleftrightarrow> flags_has a c \<or> flags_has b c"
  by (auto simp: flags_has_def bit.conj_disj_distrib2 or_eq_0_iff)

subsection \<open>Stream types (\<^verbatim>\<open>stream.rs\<close>)\<close>

datatype stream_type = Control | Audio | Text | Signal

fun stream_as_u8 :: "stream_type \<Rightarrow> u8" where
  "stream_as_u8 Control = 0"
| "stream_as_u8 Audio = 1"
| "stream_as_u8 Text = 2"
| "stream_as_u8 Signal = 3"

definition stream_try_from_u32 :: "u32 \<Rightarrow> u32 + stream_type" where
  "stream_try_from_u32 v =
     (if v = 0 then Inr Control else if v = 1 then Inr Audio
      else if v = 2 then Inr Text else if v = 3 then Inr Signal else Inl v)"

definition stream_try_from_u8 :: "u8 \<Rightarrow> u8 + stream_type" where
  "stream_try_from_u8 v =
     (case stream_try_from_u32 (ucast v) of Inl _ \<Rightarrow> Inl v | Inr s \<Rightarrow> Inr s)"

fun stream_display :: "stream_type \<Rightarrow> string" where
  "stream_display Control = ''control''"
| "stream_display Audio = ''audio''"
| "stream_display Text = ''text''"
| "stream_display Signal = ''signal''"

lemma ucast8_32_eq: "(ucast (v :: u8) :: u32) = ucast w \<longleftrightarrow> v = w"
proof -
  have "(ucast (ucast x :: u32) :: u8) = x" for x by (rule bit_word_eqI) (auto simp: bit_simps)
  then show ?thesis by metis
qed

lemma stream_try_from_u8_cases:
  "stream_try_from_u8 v =
     (if v = 0 then Inr Control else if v = 1 then Inr Audio
      else if v = 2 then Inr Text else if v = 3 then Inr Signal else Inl v)"
  using ucast8_32_eq [of v 0] ucast8_32_eq [of v 1] ucast8_32_eq [of v 2] ucast8_32_eq [of v 3]
  by (simp add: stream_try_from_u8_def stream_try_from_u32_def)

interpretation stream_wire: wire_enum stream_as_u8 "\<lambda>v. ok_of (stream_try_from_u8 v)"
proof
  fix e show "ok_of (stream_try_from_u8 (stream_as_u8 e)) = Some e"
    by (cases e) (simp_all add: stream_try_from_u8_cases)
next
  fix w e assume "ok_of (stream_try_from_u8 w) = Some e"
  then show "stream_as_u8 e = w" by (auto simp: stream_try_from_u8_cases split: if_splits)
qed

subsection \<open>Signals (\<^verbatim>\<open>signal.rs\<close>)\<close>

datatype signal_type = Join | Leave | RoleChange | Mute | Unmute | StreamStart | StreamStop
  | CodecUpdate

fun signal_as_u32 :: "signal_type \<Rightarrow> u32" where
  "signal_as_u32 Join = 100"
| "signal_as_u32 Leave = 101"
| "signal_as_u32 RoleChange = 102"
| "signal_as_u32 Mute = 200"
| "signal_as_u32 Unmute = 201"
| "signal_as_u32 StreamStart = 300"
| "signal_as_u32 StreamStop = 301"
| "signal_as_u32 CodecUpdate = 400"

definition signal_try_from :: "u32 \<Rightarrow> u32 + signal_type" where
  "signal_try_from v =
     (if v = 100 then Inr Join else if v = 101 then Inr Leave
      else if v = 102 then Inr RoleChange else if v = 200 then Inr Mute
      else if v = 201 then Inr Unmute else if v = 300 then Inr StreamStart
      else if v = 301 then Inr StreamStop else if v = 400 then Inr CodecUpdate else Inl v)"

fun signal_name :: "signal_type \<Rightarrow> string" where
  "signal_name Join = ''JOIN''"
| "signal_name Leave = ''LEAVE''"
| "signal_name RoleChange = ''ROLE_CHANGE''"
| "signal_name Mute = ''MUTE''"
| "signal_name Unmute = ''UNMUTE''"
| "signal_name StreamStart = ''STREAM_START''"
| "signal_name StreamStop = ''STREAM_STOP''"
| "signal_name CodecUpdate = ''CODEC_UPDATE''"

interpretation signal_wire: wire_enum signal_as_u32 "\<lambda>v. ok_of (signal_try_from v)"
proof
  fix e show "ok_of (signal_try_from (signal_as_u32 e)) = Some e"
    by (cases e) (simp_all add: signal_try_from_def)
next
  fix w e assume "ok_of (signal_try_from w) = Some e"
  then show "signal_as_u32 e = w" by (auto simp: signal_try_from_def split: if_splits)
qed

subsection \<open>Control opcodes (\<^verbatim>\<open>control.rs\<close>)\<close>

datatype control_opcode = PrepareTransition | ReadyForTransition | ExecuteTransition
  | AbortTransition | GroupStateDigestRequest | GroupStateDigestResponse | ReportInvalidCommit
  | CapabilitiesAdvertise | Ack | Nack

fun opcode_as_u16 :: "control_opcode \<Rightarrow> u16" where
  "opcode_as_u16 PrepareTransition = 0x0001"
| "opcode_as_u16 ReadyForTransition = 0x0002"
| "opcode_as_u16 ExecuteTransition = 0x0003"
| "opcode_as_u16 AbortTransition = 0x0004"
| "opcode_as_u16 GroupStateDigestRequest = 0x0005"
| "opcode_as_u16 GroupStateDigestResponse = 0x0006"
| "opcode_as_u16 ReportInvalidCommit = 0x0007"
| "opcode_as_u16 CapabilitiesAdvertise = 0x0008"
| "opcode_as_u16 Ack = 0x0009"
| "opcode_as_u16 Nack = 0x000A"

fun opcode_name :: "control_opcode \<Rightarrow> string" where
  "opcode_name PrepareTransition = ''PREPARE_TRANSITION''"
| "opcode_name ReadyForTransition = ''READY_FOR_TRANSITION''"
| "opcode_name ExecuteTransition = ''EXECUTE_TRANSITION''"
| "opcode_name AbortTransition = ''ABORT_TRANSITION''"
| "opcode_name GroupStateDigestRequest = ''GROUP_STATE_DIGEST_REQUEST''"
| "opcode_name GroupStateDigestResponse = ''GROUP_STATE_DIGEST_RESPONSE''"
| "opcode_name ReportInvalidCommit = ''REPORT_INVALID_COMMIT''"
| "opcode_name CapabilitiesAdvertise = ''CAPABILITIES_ADVERTISE''"
| "opcode_name Ack = ''ACK''"
| "opcode_name Nack = ''NACK''"

text \<open>The derived \<^verbatim>\<open>Debug\<close> output, used in one error message, is the name of the variant.\<close>

fun opcode_debug :: "control_opcode \<Rightarrow> string" where
  "opcode_debug PrepareTransition = ''PrepareTransition''"
| "opcode_debug ReadyForTransition = ''ReadyForTransition''"
| "opcode_debug ExecuteTransition = ''ExecuteTransition''"
| "opcode_debug AbortTransition = ''AbortTransition''"
| "opcode_debug GroupStateDigestRequest = ''GroupStateDigestRequest''"
| "opcode_debug GroupStateDigestResponse = ''GroupStateDigestResponse''"
| "opcode_debug ReportInvalidCommit = ''ReportInvalidCommit''"
| "opcode_debug CapabilitiesAdvertise = ''CapabilitiesAdvertise''"
| "opcode_debug Ack = ''Ack''"
| "opcode_debug Nack = ''Nack''"

definition opcode_try_from :: "u16 \<Rightarrow> u16 + control_opcode" where
  "opcode_try_from v =
     (if v = 0x0001 then Inr PrepareTransition else if v = 0x0002 then Inr ReadyForTransition
      else if v = 0x0003 then Inr ExecuteTransition else if v = 0x0004 then Inr AbortTransition
      else if v = 0x0005 then Inr GroupStateDigestRequest
      else if v = 0x0006 then Inr GroupStateDigestResponse
      else if v = 0x0007 then Inr ReportInvalidCommit
      else if v = 0x0008 then Inr CapabilitiesAdvertise
      else if v = 0x0009 then Inr Ack else if v = 0x000A then Inr Nack else Inl v)"

lemma opcode_try_from_as_u16 [simp]: "opcode_try_from (opcode_as_u16 op) = Inr op"
  by (cases op) (simp_all add: opcode_try_from_def)

interpretation opcode_wire: wire_enum opcode_as_u16 "\<lambda>v. ok_of (opcode_try_from v)"
proof
  fix e show "ok_of (opcode_try_from (opcode_as_u16 e)) = Some e" by simp
next
  fix w e assume "ok_of (opcode_try_from w) = Some e"
  then show "opcode_as_u16 e = w" by (auto simp: opcode_try_from_def split: if_splits)
qed

subsection \<open>State machines (\<^verbatim>\<open>state.rs\<close>)\<close>

datatype node_state = Idle | Connecting | EstablishingGroup | Active | Resyncing | Failed | Closed

fun can_transition_to :: "node_state \<Rightarrow> node_state \<Rightarrow> bool" where
  "can_transition_to Idle Connecting = True"
| "can_transition_to Idle Failed = True"
| "can_transition_to Connecting EstablishingGroup = True"
| "can_transition_to Connecting Failed = True"
| "can_transition_to EstablishingGroup Active = True"
| "can_transition_to EstablishingGroup Failed = True"
| "can_transition_to Active Resyncing = True"
| "can_transition_to Active Closed = True"
| "can_transition_to Active Failed = True"
| "can_transition_to Resyncing Active = True"
| "can_transition_to Resyncing Failed = True"
| "can_transition_to _ Closed = True"
| "can_transition_to _ _ = False"

fun node_state_display :: "node_state \<Rightarrow> string" where
  "node_state_display Idle = ''IDLE''"
| "node_state_display Connecting = ''CONNECTING''"
| "node_state_display EstablishingGroup = ''ESTABLISHING_GROUP''"
| "node_state_display Active = ''ACTIVE''"
| "node_state_display Resyncing = ''RESYNCING''"
| "node_state_display Failed = ''FAILED''"
| "node_state_display Closed = ''CLOSED''"

datatype transition_state = TIdle | TPrepared | TCommitProcessed | TReady | TExecuted | TAborted

fun t_can_transition_to :: "transition_state \<Rightarrow> transition_state \<Rightarrow> bool" where
  "t_can_transition_to TIdle TPrepared = True"
| "t_can_transition_to TPrepared TCommitProcessed = True"
| "t_can_transition_to TPrepared TAborted = True"
| "t_can_transition_to TCommitProcessed TReady = True"
| "t_can_transition_to TCommitProcessed TAborted = True"
| "t_can_transition_to TReady TExecuted = True"
| "t_can_transition_to TReady TAborted = True"
| "t_can_transition_to TExecuted TIdle = True"
| "t_can_transition_to TAborted TIdle = True"
| "t_can_transition_to _ _ = False"

datatype subprotocol_state = Disabled | Negotiating | Enabled | Degraded | Suspended

definition T_PREPARE_MAX_MS :: nat where [simp]: "T_PREPARE_MAX_MS = 5000"
definition T_READY_MAX_MS :: nat where [simp]: "T_READY_MAX_MS = 5000"
definition T_EXECUTE_MAX_MS :: nat where [simp]: "T_EXECUTE_MAX_MS = 10000"
definition T_QUORUM_GRACE_MS :: nat where [simp]: "T_QUORUM_GRACE_MS = 2000"
definition T_COORDINATOR_GRACE_MS :: nat where [simp]: "T_COORDINATOR_GRACE_MS = 10000"
definition T_GAP_KEY_OVERLAP_MS :: nat where [simp]: "T_GAP_KEY_OVERLAP_MS = 10000"

subsection \<open>Error registry (\<^verbatim>\<open>errors.rs\<close>)\<close>

datatype error_class = Transport | Crypto | State | Policy | Schema | Authz

fun class_as_u8 :: "error_class \<Rightarrow> u8" where
  "class_as_u8 Transport = 0x01"
| "class_as_u8 Crypto = 0x02"
| "class_as_u8 State = 0x03"
| "class_as_u8 Policy = 0x04"
| "class_as_u8 Schema = 0x05"
| "class_as_u8 Authz = 0x06"

definition class_try_from :: "u8 \<Rightarrow> u8 + error_class" where
  "class_try_from v =
     (if v = 0x01 then Inr Transport else if v = 0x02 then Inr Crypto
      else if v = 0x03 then Inr State else if v = 0x04 then Inr Policy
      else if v = 0x05 then Inr Schema else if v = 0x06 then Inr Authz else Inl v)"

interpretation class_wire: wire_enum class_as_u8 "\<lambda>v. ok_of (class_try_from v)"
proof
  fix e show "ok_of (class_try_from (class_as_u8 e)) = Some e"
    by (cases e) (simp_all add: class_try_from_def)
next
  fix w e assume "ok_of (class_try_from w) = Some e"
  then show "class_as_u8 e = w" by (auto simp: class_try_from_def split: if_splits)
qed

definition UNSUPPORTED_VERSION :: u16 where [simp]: "UNSUPPORTED_VERSION = 0x0001"
definition UNKNOWN_GROUP :: u16 where [simp]: "UNKNOWN_GROUP = 0x0002"
definition EPOCH_MISMATCH :: u16 where [simp]: "EPOCH_MISMATCH = 0x0003"
definition TRANSITION_MISMATCH :: u16 where [simp]: "TRANSITION_MISMATCH = 0x0004"
definition REPLAY_DETECTED :: u16 where [simp]: "REPLAY_DETECTED = 0x0005"
definition DECRYPT_FAILED :: u16 where [simp]: "DECRYPT_FAILED = 0x0006"
definition COMMIT_INVALID :: u16 where [simp]: "COMMIT_INVALID = 0x0007"
definition STREAM_POLICY_VIOLATION :: u16 where [simp]: "STREAM_POLICY_VIOLATION = 0x0008"
definition TRANSITION_IN_PROGRESS :: u16 where [simp]: "TRANSITION_IN_PROGRESS = 0x0009"
definition PREPARE_TIMEOUT :: u16 where [simp]: "PREPARE_TIMEOUT = 0x0010"
definition READY_TIMEOUT :: u16 where [simp]: "READY_TIMEOUT = 0x0011"
definition EXECUTE_TIMEOUT :: u16 where [simp]: "EXECUTE_TIMEOUT = 0x0012"
definition COORDINATOR_GONE :: u16 where [simp]: "COORDINATOR_GONE = 0x0013"
definition DIGEST_MISMATCH :: u16 where [simp]: "DIGEST_MISMATCH = 0x0014"
definition GAP_BAD_SOURCE_ID :: u16 where [simp]: "GAP_BAD_SOURCE_ID = 0x1001"
definition GAP_DECODE_FAILED :: u16 where [simp]: "GAP_DECODE_FAILED = 0x1002"
definition GAP_AUTH_FAILED :: u16 where [simp]: "GAP_AUTH_FAILED = 0x1003"
definition GAP_REPLAY_DETECTED :: u16 where [simp]: "GAP_REPLAY_DETECTED = 0x1004"
definition GAP_EPOCH_STALE :: u16 where [simp]: "GAP_EPOCH_STALE = 0x1005"
definition GAP_KEY_PHASE_UNKNOWN :: u16 where [simp]: "GAP_KEY_PHASE_UNKNOWN = 0x1006"
definition GTP_BAD_LENGTH :: u16 where [simp]: "GTP_BAD_LENGTH = 0x2001"
definition GTP_UNSUPPORTED_CONTENT_TYPE :: u16 where [simp]: "GTP_UNSUPPORTED_CONTENT_TYPE = 0x2002"
definition GTP_DUPLICATE_MESSAGE :: u16 where [simp]: "GTP_DUPLICATE_MESSAGE = 0x2003"
definition GTP_POLICY_REJECTED :: u16 where [simp]: "GTP_POLICY_REJECTED = 0x2004"
definition GTP_ATTACHMENT_INTEGRITY :: u16 where [simp]: "GTP_ATTACHMENT_INTEGRITY = 0x2005"
definition GTP_REQUEST_TIMEOUT :: u16 where [simp]: "GTP_REQUEST_TIMEOUT = 0x2006"
definition GSP_BAD_SCHEMA :: u16 where [simp]: "GSP_BAD_SCHEMA = 0x3001"
definition GSP_UNAUTHORIZED :: u16 where [simp]: "GSP_UNAUTHORIZED = 0x3002"
definition GSP_UNKNOWN_SIGNAL :: u16 where [simp]: "GSP_UNKNOWN_SIGNAL = 0x3003"
definition GSP_DUPLICATE_REQUEST :: u16 where [simp]: "GSP_DUPLICATE_REQUEST = 0x3004"
definition GSP_STATE_CONFLICT :: u16 where [simp]: "GSP_STATE_CONFLICT = 0x3005"
definition GSP_PRECONDITION_FAILED :: u16 where [simp]: "GSP_PRECONDITION_FAILED = 0x3006"

record error_spec =
  es_code :: u16
  es_class :: error_class
  es_retryable :: bool
  es_fatal :: bool
  es_name :: string

definition spec :: "u16 \<Rightarrow> error_class \<Rightarrow> bool \<Rightarrow> bool \<Rightarrow> string \<Rightarrow> error_spec" where
  "spec code cls retryable fatal name =
     \<lparr>es_code = code, es_class = cls, es_retryable = retryable, es_fatal = fatal, es_name = name\<rparr>"

definition lookup :: "u16 \<Rightarrow> error_spec option" where
  "lookup code =
    (if code = UNSUPPORTED_VERSION then Some (spec code Schema False True ''ERR_UNSUPPORTED_VERSION'')
     else if code = UNKNOWN_GROUP then Some (spec code State False True ''ERR_UNKNOWN_GROUP'')
     else if code = EPOCH_MISMATCH then Some (spec code State True False ''ERR_EPOCH_MISMATCH'')
     else if code = TRANSITION_MISMATCH then Some (spec code State True False ''ERR_TRANSITION_MISMATCH'')
     else if code = REPLAY_DETECTED then Some (spec code Crypto False False ''ERR_REPLAY_DETECTED'')
     else if code = DECRYPT_FAILED then Some (spec code Crypto True False ''ERR_DECRYPT_FAILED'')
     else if code = COMMIT_INVALID then Some (spec code Crypto False True ''ERR_COMMIT_INVALID'')
     else if code = STREAM_POLICY_VIOLATION then Some (spec code Policy False False ''ERR_STREAM_POLICY_VIOLATION'')
     else if code = TRANSITION_IN_PROGRESS then Some (spec code State False False ''ERR_TRANSITION_IN_PROGRESS'')
     else if code = PREPARE_TIMEOUT then Some (spec code State True False ''ERR_PREPARE_TIMEOUT'')
     else if code = READY_TIMEOUT then Some (spec code State True False ''ERR_READY_TIMEOUT'')
     else if code = EXECUTE_TIMEOUT then Some (spec code State True False ''ERR_EXECUTE_TIMEOUT'')
     else if code = COORDINATOR_GONE then Some (spec code State True False ''ERR_COORDINATOR_GONE'')
     else if code = DIGEST_MISMATCH then Some (spec code State False True ''ERR_DIGEST_MISMATCH'')
     else if code = GAP_BAD_SOURCE_ID then Some (spec code Schema False False ''ERR_GAP_BAD_SOURCE_ID'')
     else if code = GAP_DECODE_FAILED then Some (spec code Schema False False ''ERR_GAP_DECODE_FAILED'')
     else if code = GAP_AUTH_FAILED then Some (spec code Crypto False False ''ERR_GAP_AUTH_FAILED'')
     else if code = GAP_REPLAY_DETECTED then Some (spec code Crypto False False ''ERR_GAP_REPLAY_DETECTED'')
     else if code = GAP_EPOCH_STALE then Some (spec code Crypto False False ''ERR_GAP_EPOCH_STALE'')
     else if code = GAP_KEY_PHASE_UNKNOWN then Some (spec code Crypto False False ''ERR_GAP_KEY_PHASE_UNKNOWN'')
     else if code = GTP_BAD_LENGTH then Some (spec code Schema False False ''ERR_GTP_BAD_LENGTH'')
     else if code = GTP_UNSUPPORTED_CONTENT_TYPE then Some (spec code Schema False False ''ERR_GTP_UNSUPPORTED_CONTENT_TYPE'')
     else if code = GTP_DUPLICATE_MESSAGE then Some (spec code Policy False False ''ERR_GTP_DUPLICATE_MESSAGE'')
     else if code = GTP_POLICY_REJECTED then Some (spec code Policy False False ''ERR_GTP_POLICY_REJECTED'')
     else if code = GTP_ATTACHMENT_INTEGRITY then Some (spec code Schema False False ''ERR_GTP_ATTACHMENT_INTEGRITY'')
     else if code = GTP_REQUEST_TIMEOUT then Some (spec code State True False ''ERR_GTP_REQUEST_TIMEOUT'')
     else if code = GSP_BAD_SCHEMA then Some (spec code Schema False False ''ERR_GSP_BAD_SCHEMA'')
     else if code = GSP_UNAUTHORIZED then Some (spec code Authz False False ''ERR_GSP_UNAUTHORIZED'')
     else if code = GSP_UNKNOWN_SIGNAL then Some (spec code Schema False False ''ERR_GSP_UNKNOWN_SIGNAL'')
     else if code = GSP_DUPLICATE_REQUEST then Some (spec code Policy False False ''ERR_GSP_DUPLICATE_REQUEST'')
     else if code = GSP_STATE_CONFLICT then Some (spec code State True False ''ERR_GSP_STATE_CONFLICT'')
     else if code = GSP_PRECONDITION_FAILED then Some (spec code State False False ''ERR_GSP_PRECONDITION_FAILED'')
     else None)"

lemma spec_sel [simp]:
  "es_code (spec c k r f nm) = c" "es_class (spec c k r f nm) = k"
  "es_retryable (spec c k r f nm) = r" "es_fatal (spec c k r f nm) = f"
  "es_name (spec c k r f nm) = nm"
  by (simp_all add: spec_def)

lemma lookup_code: "lookup c = Some s \<Longrightarrow> es_code s = c"
  by (auto simp: lookup_def split: if_splits)

lemma lookup_fatal:
  "lookup c = Some s \<Longrightarrow>
     es_fatal s \<longleftrightarrow> c \<in> {UNSUPPORTED_VERSION, UNKNOWN_GROUP, COMMIT_INVALID, DIGEST_MISMATCH}"
  by (auto simp: lookup_def split: if_splits)

lemma lookup_fatal_not_retryable: "lookup c = Some s \<Longrightarrow> es_fatal s \<Longrightarrow> \<not> es_retryable s"
  by (auto simp: lookup_def split: if_splits)

subsection \<open>Conformance classes (\<^verbatim>\<open>conformance.rs\<close>)\<close>

datatype conformance_class = ClassA | ClassB | ClassC

definition TOKEN_A :: string where "TOKEN_A = ''gbp/class-a''"
definition TOKEN_B :: string where "TOKEN_B = ''gbp/class-b''"
definition TOKEN_C :: string where "TOKEN_C = ''gbp/class-c''"

fun tokens :: "conformance_class \<Rightarrow> string list" where
  "tokens ClassA = [TOKEN_A]"
| "tokens ClassB = [TOKEN_A, TOKEN_B]"
| "tokens ClassC = [TOKEN_A, TOKEN_B, TOKEN_C]"

text \<open>The loop of \<^verbatim>\<open>from_tokens\<close> over the tokens, with its three flags.\<close>

fun scan_tokens :: "bool \<times> bool \<times> bool \<Rightarrow> string list \<Rightarrow> bool \<times> bool \<times> bool" where
  "scan_tokens (a, b, c) [] = (a, b, c)"
| "scan_tokens (a, b, c) (t # ts) =
     scan_tokens
       (if t = TOKEN_A then (True, b, c) else if t = TOKEN_B then (a, True, c)
        else if t = TOKEN_C then (a, b, True) else (a, b, c)) ts"

definition from_tokens :: "string list \<Rightarrow> conformance_class option" where
  "from_tokens ts =
     (case scan_tokens (False, False, False) ts of (has_a, has_b, has_c) \<Rightarrow>
        if has_a \<and> has_b \<and> has_c then Some ClassC
        else if has_a \<and> has_b then Some ClassB
        else if has_a then Some ClassA else None)"

fun conformance_display :: "conformance_class \<Rightarrow> string" where
  "conformance_display ClassA = ''Class A (GBP+GSP)''"
| "conformance_display ClassB = ''Class B (GBP+GSP+GTP)''"
| "conformance_display ClassC = ''Class C (GBP+GSP+GTP+GAP)''"

fun class_rank :: "conformance_class \<Rightarrow> nat" where
  "class_rank ClassA = 0"
| "class_rank ClassB = 1"
| "class_rank ClassC = 2"

instantiation conformance_class :: linorder
begin

definition less_eq_conformance_class :: "conformance_class \<Rightarrow> conformance_class \<Rightarrow> bool" where
  "less_eq_conformance_class a b \<longleftrightarrow> class_rank a \<le> class_rank b"

definition less_conformance_class :: "conformance_class \<Rightarrow> conformance_class \<Rightarrow> bool" where
  "less_conformance_class a b \<longleftrightarrow> class_rank a < class_rank b"

instance
proof
  fix x y z :: conformance_class
  show "x < y \<longleftrightarrow> x \<le> y \<and> \<not> y \<le> x"
    by (auto simp: less_eq_conformance_class_def less_conformance_class_def)
  show "x \<le> x" by (simp add: less_eq_conformance_class_def)
  show "x \<le> y \<Longrightarrow> y \<le> z \<Longrightarrow> x \<le> z" by (simp add: less_eq_conformance_class_def)
  show "x \<le> y \<Longrightarrow> y \<le> x \<Longrightarrow> x = y"
    by (cases x; cases y) (simp_all add: less_eq_conformance_class_def)
  show "x \<le> y \<or> y \<le> x" by (auto simp: less_eq_conformance_class_def)
qed

end

lemma scan_tokens_sets:
  "scan_tokens (a, b, c) ts =
     (a \<or> TOKEN_A \<in> set ts, b \<or> TOKEN_B \<in> set ts, c \<or> TOKEN_C \<in> set ts)"
  by (induction ts arbitrary: a b c) (auto simp: TOKEN_A_def TOKEN_B_def TOKEN_C_def)

lemma from_tokens_sets:
  "from_tokens ts =
     (if TOKEN_A \<in> set ts
      then (if TOKEN_B \<in> set ts then (if TOKEN_C \<in> set ts then Some ClassC else Some ClassB)
            else Some ClassA)
      else None)"
  by (auto simp: from_tokens_def scan_tokens_sets)

text \<open>
  A set of tokens supports a class exactly when it holds every token of the class, and the class
  read off it is the highest one supported.
\<close>

lemma from_tokens_ge:
  "(\<exists>d. from_tokens ts = Some d \<and> c \<le> d) \<longleftrightarrow> set (tokens c) \<subseteq> set ts"
  by (cases c) (auto simp: from_tokens_sets less_eq_conformance_class_def)

end
