(* ===== verification/Gbp_Frame.thy ===== *)
theory Gbp_Frame
  imports Gbp_Core
begin

section \<open>Base layer messages (\<^verbatim>\<open>gbp-protocol\<close>)\<close>

text \<open>
  The frame, the control message and the error object of \<^verbatim>\<open>crates/gbp/base/src\<close>, with the codec
  error that all layers share. CBOR itself (\<^verbatim>\<open>ciborium\<close> with the derived serde code) is a
  parameter. Messages that carry a declared length next to a byte string are instances of the
  interface \<open>length_checked\<close>: decoding accepts exactly the messages whose declared length is the
  length of the byte string.
\<close>

datatype codec_error = Decode string | Encode string | PayloadSizeMismatch | UnknownEnumValue u32

fun codec_error_display :: "codec_error \<Rightarrow> string" where
  "codec_error_display (Decode e) = ''CBOR decode: '' @ e"
| "codec_error_display (Encode e) = ''CBOR encode: '' @ e"
| "codec_error_display PayloadSizeMismatch = ''payload_size/content_length/args_length mismatch''"
| "codec_error_display (UnknownEnumValue v) = ''unknown enum value: '' @ dec_word v"

definition decode_err :: "string + 'a \<Rightarrow> codec_error + 'a" where
  "decode_err r = (case r of Inl e \<Rightarrow> Inl (Decode e) | Inr x \<Rightarrow> Inr x)"

lemma decode_err_simps [simp]:
  "decode_err (Inl e) = Inl (Decode e)" "decode_err (Inr x) = Inr x"
  "decode_err r = Inr x \<longleftrightarrow> r = Inr x"
  by (cases r; simp add: decode_err_def)+

subsection \<open>Messages with a declared length\<close>

locale length_checked =
  fixes to_cbor :: "'m serialiser \<Rightarrow> 'm \<Rightarrow> bytes"
    and from_cbor :: "'m serialiser \<Rightarrow> bytes \<Rightarrow> codec_error + 'm"
    and declared :: "'m \<Rightarrow> u32"
    and body :: "'m \<Rightarrow> bytes"
  assumes to_cbor_writes: "to_cbor c m = into_writer c m"
    and from_cbor_reads: "from_reader c bs = Inr m \<Longrightarrow>
      from_cbor c bs = (if unat (declared m) = length (body m) then Inr m else Inl PayloadSizeMismatch)"
    and from_cbor_malformed: "from_reader c bs = Inl e \<Longrightarrow> from_cbor c bs = Inl (Decode e)"
begin

lemma decode_iff:
  "from_cbor c bs = Inr m \<longleftrightarrow> from_reader c bs = Inr m \<and> unat (declared m) = length (body m)"
  by (cases "from_reader c bs") (auto simp: from_cbor_reads from_cbor_malformed)

lemma round_trip:
  "reads_back c \<Longrightarrow> unat (declared m) = length (body m) \<Longrightarrow> from_cbor c (to_cbor c m) = Inr m"
  by (simp add: decode_iff to_cbor_writes)

lemma lying_length_rejected:
  "reads_back c \<Longrightarrow> unat (declared m) \<noteq> length (body m) \<Longrightarrow>
     from_cbor c (to_cbor c m) = Inl PayloadSizeMismatch"
  by (simp add: from_cbor_reads [where m = m] to_cbor_writes)

end

subsection \<open>Frames (\<^verbatim>\<open>frame.rs\<close>)\<close>

definition is_zero_u8 :: "u8 \<Rightarrow> bool" where
  "is_zero_u8 v \<longleftrightarrow> v = 0"

record gbp_frame =
  f_version :: u8
  f_group_id :: bytes
  f_epoch :: u64
  f_transition_id :: u32
  f_stream_type :: u8
  f_stream_id :: u32
  f_flags :: u16
  f_sequence_no :: u32
  f_payload_size :: u32
  f_encrypted_payload :: bytes
  f_payload_format :: u8

text \<open>
  The keys the serde attributes write to the CBOR map, in field order; \<^verbatim>\<open>pf\<close> is skipped when it
  is zero.
\<close>

definition frame_keys :: "gbp_frame \<Rightarrow> string list" where
  "frame_keys f =
     [''v'', ''gid'', ''ep'', ''tid'', ''st'', ''sid'', ''fl'', ''seq'', ''psz'', ''pl'']
       @ (if is_zero_u8 (f_payload_format f) then [] else [''pf''])"

definition frame_new ::
    "bytes \<Rightarrow> u64 \<Rightarrow> u32 \<Rightarrow> stream_type \<Rightarrow> u32 \<Rightarrow> u16 \<Rightarrow> u32 \<Rightarrow> bytes \<Rightarrow> u8 \<Rightarrow> gbp_frame" where
  "frame_new group_id epoch transition_id stream_type stream_id flags sequence_no
       encrypted_payload payload_format =
     \<lparr>f_version = 1, f_group_id = group_id, f_epoch = epoch, f_transition_id = transition_id,
      f_stream_type = stream_as_u8 stream_type, f_stream_id = stream_id, f_flags = flags,
      f_sequence_no = sequence_no, f_payload_size = word_of_nat (length encrypted_payload),
      f_encrypted_payload = encrypted_payload, f_payload_format = payload_format\<rparr>"

definition frame_payload_codec :: "gbp_frame \<Rightarrow> payload_codec" where
  "frame_payload_codec f = opt_or (codec_from_u8 (f_payload_format f)) Cbor"

definition frame_to_cbor :: "gbp_frame serialiser \<Rightarrow> gbp_frame \<Rightarrow> bytes" where
  "frame_to_cbor c f = into_writer c f"

definition frame_decode :: "gbp_frame serialiser \<Rightarrow> bytes \<Rightarrow> codec_error + gbp_frame" where
  "frame_decode c data = decode_err (from_reader c data)"

definition validate_payload_size :: "gbp_frame \<Rightarrow> codec_error + unit" where
  "validate_payload_size f =
     (if unat (f_payload_size f) \<noteq> length (f_encrypted_payload f) then Inl PayloadSizeMismatch
      else Inr ())"

definition frame_from_cbor :: "gbp_frame serialiser \<Rightarrow> bytes \<Rightarrow> codec_error + gbp_frame" where
  "frame_from_cbor c data =
     (case frame_decode c data of Inl e \<Rightarrow> Inl e
      | Inr f \<Rightarrow> (case validate_payload_size f of Inl e \<Rightarrow> Inl e | Inr _ \<Rightarrow> Inr f))"

definition stream_type_typed :: "gbp_frame \<Rightarrow> codec_error + stream_type" where
  "stream_type_typed f =
     (case stream_try_from_u32 (ucast (f_stream_type f)) of
        Inl v \<Rightarrow> Inl (UnknownEnumValue v) | Inr st \<Rightarrow> Inr st)"

definition group_id_array :: "gbp_frame \<Rightarrow> bytes" where
  "group_id_array f =
     (let n = min (length (f_group_id f)) 16
      in take n (f_group_id f) @ drop n (replicate 16 0))"

interpretation frame_len: length_checked frame_to_cbor frame_from_cbor f_payload_size f_encrypted_payload
  by unfold_locales
    (auto simp: frame_to_cbor_def frame_from_cbor_def frame_decode_def validate_payload_size_def)

lemma length_group_id_array [simp]: "length (group_id_array f) = 16"
  by (simp add: group_id_array_def Let_def)

lemma group_id_array_exact: "length (f_group_id f) = 16 \<Longrightarrow> group_id_array f = f_group_id f"
  by (simp add: group_id_array_def)

lemma stream_type_typed_Inr:
  "stream_type_typed f = Inr st \<longleftrightarrow> f_stream_type f = stream_as_u8 st"
proof -
  have "stream_type_typed f = Inr st \<longleftrightarrow> ok_of (stream_try_from_u8 (f_stream_type f)) = Some st"
    by (auto simp: stream_type_typed_def stream_try_from_u8_def split: sum.splits)
  then show ?thesis by (simp only: stream_wire.dec_Some)
qed

lemma frame_new_sel [simp]:
  "f_version (frame_new g e t st sid fl sq p pf) = 1"
  "f_group_id (frame_new g e t st sid fl sq p pf) = g"
  "f_epoch (frame_new g e t st sid fl sq p pf) = e"
  "f_transition_id (frame_new g e t st sid fl sq p pf) = t"
  "f_stream_type (frame_new g e t st sid fl sq p pf) = stream_as_u8 st"
  "f_stream_id (frame_new g e t st sid fl sq p pf) = sid"
  "f_flags (frame_new g e t st sid fl sq p pf) = fl"
  "f_sequence_no (frame_new g e t st sid fl sq p pf) = sq"
  "f_payload_size (frame_new g e t st sid fl sq p pf) = word_of_nat (length p)"
  "f_encrypted_payload (frame_new g e t st sid fl sq p pf) = p"
  "f_payload_format (frame_new g e t st sid fl sq p pf) = pf"
  by (simp_all add: frame_new_def)

lemma stream_type_typed_new [simp]: "stream_type_typed (frame_new g e t st sid fl sq p pf) = Inr st"
  by (simp add: stream_type_typed_Inr)

lemma frame_payload_codec_new [simp]:
  "frame_payload_codec (frame_new g e t st sid fl sq p (codec_as_u8 c)) = c"
  by (simp add: frame_payload_codec_def codec_wire.dec_enc)

lemma validate_payload_size_new:
  "length p < 2 ^ 32 \<Longrightarrow> validate_payload_size (frame_new g e t st sid fl sq p pf) = Inr ()"
  by (simp add: validate_payload_size_def)

subsection \<open>Control messages (\<^verbatim>\<open>control.rs\<close>)\<close>

record control_message =
  c_opcode :: u16
  c_request_id :: u32
  c_sender_id :: u32
  c_transition_id :: u32
  c_args_length :: u32
  c_args :: bytes

definition control_bare :: "u16 \<Rightarrow> u32 \<Rightarrow> u32 \<Rightarrow> u32 \<Rightarrow> control_message" where
  "control_bare opcode request_id sender_id transition_id =
     \<lparr>c_opcode = opcode, c_request_id = request_id, c_sender_id = sender_id,
      c_transition_id = transition_id, c_args_length = 0, c_args = []\<rparr>"

definition control_with_args :: "u16 \<Rightarrow> u32 \<Rightarrow> u32 \<Rightarrow> u32 \<Rightarrow> bytes \<Rightarrow> control_message" where
  "control_with_args opcode request_id sender_id transition_id args =
     \<lparr>c_opcode = opcode, c_request_id = request_id, c_sender_id = sender_id,
      c_transition_id = transition_id, c_args_length = word_of_nat (length args), c_args = args\<rparr>"

definition control_to_cbor :: "control_message serialiser \<Rightarrow> control_message \<Rightarrow> bytes" where
  "control_to_cbor c m = into_writer c m"

definition control_from_cbor :: "control_message serialiser \<Rightarrow> bytes \<Rightarrow> codec_error + control_message" where
  "control_from_cbor c data =
     (case decode_err (from_reader c data) of Inl e \<Rightarrow> Inl e
      | Inr m \<Rightarrow> if unat (c_args_length m) \<noteq> length (c_args m) then Inl PayloadSizeMismatch else Inr m)"

interpretation control_len: length_checked control_to_cbor control_from_cbor c_args_length c_args
  by unfold_locales (auto simp: control_to_cbor_def control_from_cbor_def)

lemma control_with_args_sel [simp]:
  "c_opcode (control_with_args oc r s t a) = oc" "c_request_id (control_with_args oc r s t a) = r"
  "c_sender_id (control_with_args oc r s t a) = s" "c_transition_id (control_with_args oc r s t a) = t"
  "c_args (control_with_args oc r s t a) = a"
  "c_args_length (control_with_args oc r s t a) = word_of_nat (length a)"
  by (simp_all add: control_with_args_def)

lemma control_with_args_round_trip:
  "reads_back c \<Longrightarrow> length a < 2 ^ 32 \<Longrightarrow>
     control_from_cbor c (control_to_cbor c (control_with_args oc r s t a)) = Inr (control_with_args oc r s t a)"
  by (rule control_len.round_trip) simp_all

lemma control_bare_with_args: "control_bare oc r s t = control_with_args oc r s t []"
  by (simp add: control_bare_def control_with_args_def)

subsection \<open>Error objects (\<^verbatim>\<open>error_object.rs\<close>)\<close>

record error_object =
  eo_code :: u16
  eo_class :: u8
  eo_retryable :: bool
  eo_fatal :: bool
  eo_reason :: string
  eo_details_cbor :: bytes

definition error_object_from_spec :: "error_spec \<Rightarrow> string \<Rightarrow> error_object" where
  "error_object_from_spec sp reason =
     \<lparr>eo_code = es_code sp, eo_class = class_as_u8 (es_class sp), eo_retryable = es_retryable sp,
      eo_fatal = es_fatal sp, eo_reason = reason, eo_details_cbor = []\<rparr>"

definition error_object_new :: "u16 \<Rightarrow> error_class \<Rightarrow> bool \<Rightarrow> bool \<Rightarrow> string \<Rightarrow> error_object" where
  "error_object_new code cls retryable fatal reason =
     \<lparr>eo_code = code, eo_class = class_as_u8 cls, eo_retryable = retryable, eo_fatal = fatal,
      eo_reason = reason, eo_details_cbor = []\<rparr>"

definition error_object_to_cbor :: "error_object serialiser \<Rightarrow> error_object \<Rightarrow> bytes" where
  "error_object_to_cbor c e = into_writer c e"

definition error_object_from_cbor :: "error_object serialiser \<Rightarrow> bytes \<Rightarrow> codec_error + error_object" where
  "error_object_from_cbor c data = decode_err (from_reader c data)"

subsection \<open>Payloads in three codecs\<close>

text \<open>
  Text messages, audio payloads and signals can be carried as CBOR, Protobuf or FlatBuffers. Each
  sub-protocol has a \<^verbatim>\<open>to_bytes\<close> and a \<^verbatim>\<open>from_bytes\<close> that dispatch on the codec; the contract is that
  decoding with the codec of the encoding gives the message back, if the libraries do (\<open>codecs_ok\<close>)
  and the message is one the code can carry (\<open>fits\<close>).
\<close>

locale payload_format =
  fixes to_bytes :: "'c \<Rightarrow> 'm \<Rightarrow> payload_codec \<Rightarrow> bytes"
    and from_bytes :: "'c \<Rightarrow> bytes \<Rightarrow> payload_codec \<Rightarrow> codec_error + 'm"
    and codecs_ok :: "'c \<Rightarrow> bool"
    and fits :: "'m \<Rightarrow> bool"
  assumes decode_encode: "codecs_ok cs \<Longrightarrow> fits m \<Longrightarrow> from_bytes cs (to_bytes cs m cd) cd = Inr m"
begin

lemma to_bytes_inj:
  "codecs_ok cs \<Longrightarrow> fits m \<Longrightarrow> fits m' \<Longrightarrow> to_bytes cs m cd = to_bytes cs m' cd \<Longrightarrow> m = m'"
  by (metis decode_encode sum.inject(2))

lemma decode_all:
  "codecs_ok cs \<Longrightarrow> \<forall>m\<in>set ms. fits m \<Longrightarrow>
     map (\<lambda>bs. from_bytes cs bs cd) (map (\<lambda>m. to_bytes cs m cd) ms) = map Inr ms"
  by (simp add: decode_encode)

end

end
