(* ===== verification/Gbp_Mls.thy ===== *)
theory Gbp_Mls
  imports Gbp_Core
begin

section \<open>MLS integration (\<^verbatim>\<open>gbp-mls\<close>)\<close>

text \<open>
  The wrapper of \<^verbatim>\<open>crates/gbp/mls/src/lib.rs\<close> around an OpenMLS group: stream labels, the sealing
  and opening of payloads, the life of a pending commit, and the two length-prefixed blob formats
  of \<^verbatim>\<open>export_state\<close>. OpenMLS, its key-value store and ChaCha20-Poly1305 are parameters (the
  records \<open>openmls\<close> and \<open>aead\<close>); randomness is an explicit argument, and every operation of OpenMLS
  that mutates the provider or the group returns the new ones, also when it fails.

  \<^verbatim>\<open>export_secret\<close> returns exactly the number of bytes it is asked for, so the copy into a 32-byte
  array of \<^verbatim>\<open>export_stream_key\<close> does not panic and is the identity here.
\<close>

subsection \<open>Stream labels\<close>

datatype stream_label = LControl | LAudio | LText | LSignal

fun label_as_str :: "stream_label \<Rightarrow> string" where
  "label_as_str LControl = ''gbp/control''"
| "label_as_str LAudio = ''gbp/audio''"
| "label_as_str LText = ''gbp/text''"
| "label_as_str LSignal = ''gbp/signal''"

fun label_for :: "stream_type \<Rightarrow> stream_label" where
  "label_for Control = LControl"
| "label_for Audio = LAudio"
| "label_for Text = LText"
| "label_for Signal = LSignal"

lemma label_as_str_inj: "label_as_str a = label_as_str b \<longleftrightarrow> a = b"
  by (cases a; cases b) simp_all

lemma label_for_inj: "label_for a = label_for b \<longleftrightarrow> a = b"
  by (cases a; cases b) simp_all

datatype processed_kind = KCommit | KApplication | KProposal | KExternal

datatype mls_error = OpenMls string | Aead string | TransitionInProgress

fun mls_error_display :: "mls_error \<Rightarrow> string" where
  "mls_error_display (OpenMls e) = ''openmls: '' @ e"
| "mls_error_display (Aead e) = ''aead: '' @ e"
| "mls_error_display TransitionInProgress = ''transition in progress: pending staged commit exists''"

definition om_err :: "string \<Rightarrow> string + 'a \<Rightarrow> mls_error + 'a" where
  "om_err what r = (case r of Inl e \<Rightarrow> Inl (OpenMls (what @ '': '' @ e)) | Inr x \<Rightarrow> Inr x)"

lemma om_err_simps [simp]:
  "om_err w (Inl e) = Inl (OpenMls (w @ '': '' @ e))" "om_err w (Inr x) = Inr x"
  by (simp_all add: om_err_def)

subsection \<open>The libraries the wrapper calls\<close>

record provider =
  p_values :: "bytes \<rightharpoonup> bytes"
  p_poisoned :: bool

record credential_with_key =
  cred_identity :: bytes
  cred_key :: bytes

datatype 'm mls_body = PublicMessage 'm | PrivateMessage 'm | WelcomeMessage 'm | OtherMessage 'm

datatype 'st processed_content =
    StagedCommitMessage 'st | ApplicationMessage | ProposalMessage | ExternalJoinProposalMessage

record ('g, 'sg, 'st, 'kp, 'm, 'w) openmls =
  om_signer_new :: "bytes \<Rightarrow> string + 'sg"
  om_signer_store :: "'sg \<Rightarrow> provider \<Rightarrow> provider \<times> (string + unit)"
  om_signer_public :: "'sg \<Rightarrow> bytes"
  om_signer_ser :: "'sg \<Rightarrow> string + bytes"
  om_signer_de :: "bytes \<Rightarrow> string + 'sg"
  om_kp_build :: "bytes \<Rightarrow> provider \<Rightarrow> 'sg \<Rightarrow> credential_with_key \<Rightarrow> provider \<times> (string + 'kp)"
  om_group_new :: "bytes \<Rightarrow> provider \<Rightarrow> 'sg \<Rightarrow> credential_with_key \<Rightarrow> provider \<times> (string + 'g)"
  om_add_members :: "bytes \<Rightarrow> provider \<Rightarrow> 'sg \<Rightarrow> 'g \<Rightarrow> 'kp list \<Rightarrow> provider \<times> 'g \<times> (string + 'm \<times> 'm)"
  om_remove_members :: "bytes \<Rightarrow> provider \<Rightarrow> 'sg \<Rightarrow> 'g \<Rightarrow> u32 list \<Rightarrow> provider \<times> 'g \<times> (string + 'm)"
  om_msg_ser :: "'m \<Rightarrow> string + bytes"
  om_msg_de :: "bytes \<Rightarrow> string + 'm mls_body"
  om_body_debug :: "'m mls_body \<Rightarrow> string"
  om_process :: "provider \<Rightarrow> 'g \<Rightarrow> 'm \<Rightarrow> provider \<times> 'g \<times> (string + 'st processed_content)"
  om_merge_staged :: "provider \<Rightarrow> 'g \<Rightarrow> 'st \<Rightarrow> provider \<times> 'g \<times> (string + unit)"
  om_merge_pending :: "provider \<Rightarrow> 'g \<Rightarrow> provider \<times> 'g \<times> (string + unit)"
  om_clear_pending :: "provider \<Rightarrow> 'g \<Rightarrow> provider \<times> 'g \<times> (string + unit)"
  om_stage_welcome :: "provider \<Rightarrow> 'm \<Rightarrow> provider \<times> (string + 'w)"
  om_into_group :: "provider \<Rightarrow> 'w \<Rightarrow> provider \<times> (string + 'g)"
  om_load :: "provider \<Rightarrow> bytes \<Rightarrow> string + 'g option"
  om_members :: "'g \<Rightarrow> nat"
  om_epoch :: "'g \<Rightarrow> u64"
  om_group_id :: "'g \<Rightarrow> bytes"
  om_export_secret :: "'g \<Rightarrow> string \<Rightarrow> bytes \<Rightarrow> nat \<Rightarrow> string + bytes"

record aead =
  ae_encrypt :: "bytes \<Rightarrow> bytes \<Rightarrow> bytes \<Rightarrow> string + bytes"
  ae_decrypt :: "bytes \<Rightarrow> bytes \<Rightarrow> bytes \<Rightarrow> string + bytes"

text \<open>What the code relies on of an AEAD: what was encrypted decrypts under the same key and nonce.\<close>

definition aead_correct :: "aead \<Rightarrow> bool" where
  "aead_correct a \<longleftrightarrow> (\<forall>k n p c. ae_encrypt a k n p = Inr c \<longrightarrow> ae_decrypt a k n c = Inr p)"

subsection \<open>The context\<close>

record ('g, 'sg, 'st) mls_context =
  provider :: provider
  signer :: 'sg
  mls_group :: 'g
  credential :: credential_with_key
  identity :: bytes
  pending_staged :: "'st option"

definition fresh_provider :: provider where
  "fresh_provider = \<lparr>p_values = Map.empty, p_poisoned = False\<rparr>"

definition new_member ::
    "('g, 'sg, 'st, 'kp, 'm, 'w) openmls \<Rightarrow> bytes \<Rightarrow> bytes \<Rightarrow> bytes \<Rightarrow> bytes \<Rightarrow>
      mls_error + ('g, 'sg, 'st) mls_context \<times> 'kp" where
  "new_member om r1 r2 r3 ident =
     (let prov = fresh_provider in
      case om_err ''signer'' (om_signer_new om r1) of Inl e \<Rightarrow> Inl e
      | Inr sg \<Rightarrow>
      (case om_signer_store om sg prov of (prov1, stored) \<Rightarrow>
       case om_err ''store signer'' stored of Inl e \<Rightarrow> Inl e
       | Inr _ \<Rightarrow>
       (let cred = \<lparr>cred_identity = ident, cred_key = om_signer_public om sg\<rparr> in
        case om_kp_build om r2 prov1 sg cred of (prov2, kp_r) \<Rightarrow>
        case om_err ''kp'' kp_r of Inl e \<Rightarrow> Inl e
        | Inr kp \<Rightarrow>
        (case om_group_new om r3 prov2 sg cred of (prov3, g_r) \<Rightarrow>
         case om_err ''group'' g_r of Inl e \<Rightarrow> Inl e
         | Inr g \<Rightarrow>
           Inr (\<lparr>provider = prov3, signer = sg, mls_group = g, credential = cred,
                 identity = ident, pending_staged = None\<rparr>, kp)))))"

definition invite_full ::
    "('g, 'sg, 'st, 'kp, 'm, 'w) openmls \<Rightarrow> bytes \<Rightarrow> ('g, 'sg, 'st) mls_context \<Rightarrow> 'kp list \<Rightarrow>
      ('g, 'sg, 'st) mls_context \<times> (mls_error + bytes \<times> bytes)" where
  "invite_full om r ctx key_packages =
     (case om_add_members om r (provider ctx) (signer ctx) (mls_group ctx) key_packages of
        (prov, g, res) \<Rightarrow>
        (let ctx' = ctx\<lparr>provider := prov, mls_group := g\<rparr> in
         case om_err ''add_members'' res of Inl e \<Rightarrow> (ctx', Inl e)
         | Inr (commit, welcome) \<Rightarrow>
         (case om_err ''commit serialize'' (om_msg_ser om commit) of Inl e \<Rightarrow> (ctx', Inl e)
          | Inr commit_bytes \<Rightarrow>
          (case om_err ''welcome serialize'' (om_msg_ser om welcome) of Inl e \<Rightarrow> (ctx', Inl e)
           | Inr welcome_bytes \<Rightarrow> (ctx', Inr (commit_bytes, welcome_bytes))))))"

definition finalize_pending_commit ::
    "('g, 'sg, 'st, 'kp, 'm, 'w) openmls \<Rightarrow> ('g, 'sg, 'st) mls_context \<Rightarrow>
      ('g, 'sg, 'st) mls_context \<times> (mls_error + unit)" where
  "finalize_pending_commit om ctx =
     (let merge_own = (\<lambda>ctx'. case om_merge_pending om (provider ctx') (mls_group ctx') of
              (prov, g, _) \<Rightarrow> (ctx'\<lparr>provider := prov, mls_group := g\<rparr>, Inr ())) in
      case pending_staged ctx of
        None \<Rightarrow> merge_own ctx
      | Some staged \<Rightarrow>
          (let ctx1 = ctx\<lparr>pending_staged := None\<rparr> in
           case om_merge_staged om (provider ctx1) (mls_group ctx1) staged of (prov, g, res) \<Rightarrow>
           (let ctx2 = ctx1\<lparr>provider := prov, mls_group := g\<rparr> in
            case om_err ''merge_staged'' res of Inl e \<Rightarrow> (ctx2, Inl e)
            | Inr _ \<Rightarrow> merge_own ctx2)))"

definition invite ::
    "('g, 'sg, 'st, 'kp, 'm, 'w) openmls \<Rightarrow> bytes \<Rightarrow> ('g, 'sg, 'st) mls_context \<Rightarrow> 'kp list \<Rightarrow>
      ('g, 'sg, 'st) mls_context \<times> (mls_error + bytes)" where
  "invite om r ctx key_packages =
     (case invite_full om r ctx key_packages of
        (ctx1, Inl e) \<Rightarrow> (ctx1, Inl e)
      | (ctx1, Inr (_, welcome)) \<Rightarrow>
          (case finalize_pending_commit om ctx1 of
             (ctx2, Inl e) \<Rightarrow> (ctx2, Inl e)
           | (ctx2, Inr _) \<Rightarrow> (ctx2, Inr welcome)))"

text \<open>The loop of \<^verbatim>\<open>remove_members\<close> that looks for an index out of range.\<close>

fun check_leaf_indices :: "u32 \<Rightarrow> u32 list \<Rightarrow> mls_error + unit" where
  "check_leaf_indices group_size [] = Inr ()"
| "check_leaf_indices group_size (idx # idxs) =
     (if idx \<ge> group_size
      then Inl (OpenMls (''leaf_index '' @ dec_word idx @ '' out of range (group size ''
                  @ dec_word group_size @ '')''))
      else check_leaf_indices group_size idxs)"

definition remove_members ::
    "('g, 'sg, 'st, 'kp, 'm, 'w) openmls \<Rightarrow> bytes \<Rightarrow> ('g, 'sg, 'st) mls_context \<Rightarrow> u32 list \<Rightarrow>
      ('g, 'sg, 'st) mls_context \<times> (mls_error + bytes)" where
  "remove_members om r ctx leaf_indices =
     (case check_leaf_indices (word_of_nat (om_members om (mls_group ctx))) leaf_indices of
        Inl e \<Rightarrow> (ctx, Inl e)
      | Inr _ \<Rightarrow>
        (case om_remove_members om r (provider ctx) (signer ctx) (mls_group ctx) leaf_indices of
           (prov, g, res) \<Rightarrow>
           (let ctx' = ctx\<lparr>provider := prov, mls_group := g\<rparr> in
            case om_err ''remove_members'' res of Inl e \<Rightarrow> (ctx', Inl e)
            | Inr commit \<Rightarrow> (ctx', om_err ''commit serialize'' (om_msg_ser om commit)))))"

definition clear_pending_commit ::
    "('g, 'sg, 'st, 'kp, 'm, 'w) openmls \<Rightarrow> ('g, 'sg, 'st) mls_context \<Rightarrow>
      ('g, 'sg, 'st) mls_context \<times> (mls_error + unit)" where
  "clear_pending_commit om ctx =
     (let ctx1 = ctx\<lparr>pending_staged := None\<rparr> in
      case om_clear_pending om (provider ctx1) (mls_group ctx1) of (prov, g, res) \<Rightarrow>
        (ctx1\<lparr>provider := prov, mls_group := g\<rparr>, om_err ''clear'' res))"

definition process_message ::
    "('g, 'sg, 'st, 'kp, 'm, 'w) openmls \<Rightarrow> ('g, 'sg, 'st) mls_context \<Rightarrow> bytes \<Rightarrow>
      ('g, 'sg, 'st) mls_context \<times> (mls_error + processed_kind)" where
  "process_message om ctx msg_bytes =
     (case om_err ''msg parse'' (om_msg_de om msg_bytes) of Inl e \<Rightarrow> (ctx, Inl e)
      | Inr body \<Rightarrow>
        (let run = (\<lambda>m. case om_process om (provider ctx) (mls_group ctx) m of (prov, g, res) \<Rightarrow>
               (let ctx' = ctx\<lparr>provider := prov, mls_group := g\<rparr> in
                case om_err ''process'' res of Inl e \<Rightarrow> (ctx', Inl e)
                | Inr content \<Rightarrow>
                  (case content of
                     StagedCommitMessage staged \<Rightarrow>
                       (if pending_staged ctx' \<noteq> None then (ctx', Inl TransitionInProgress)
                        else (ctx'\<lparr>pending_staged := Some staged\<rparr>, Inr KCommit))
                   | ApplicationMessage \<Rightarrow> (ctx', Inr KApplication)
                   | ProposalMessage \<Rightarrow> (ctx', Inr KProposal)
                   | ExternalJoinProposalMessage \<Rightarrow> (ctx', Inr KExternal)))) in
         case body of
           PublicMessage m \<Rightarrow> run m
         | PrivateMessage m \<Rightarrow> run m
         | _ \<Rightarrow> (ctx, Inl (OpenMls (''expected protocol message, got '' @ om_body_debug om body)))))"

definition accept_welcome ::
    "('g, 'sg, 'st, 'kp, 'm, 'w) openmls \<Rightarrow> ('g, 'sg, 'st) mls_context \<Rightarrow> bytes \<Rightarrow>
      ('g, 'sg, 'st) mls_context \<times> (mls_error + unit)" where
  "accept_welcome om ctx welcome_bytes =
     (case om_err ''welcome parse'' (om_msg_de om welcome_bytes) of Inl e \<Rightarrow> (ctx, Inl e)
      | Inr body \<Rightarrow>
        (case body of
           WelcomeMessage w \<Rightarrow>
             (case om_stage_welcome om (provider ctx) w of (prov1, staged_r) \<Rightarrow>
              (case om_err ''staged'' staged_r of Inl e \<Rightarrow> (ctx\<lparr>provider := prov1\<rparr>, Inl e)
               | Inr staged \<Rightarrow>
                 (case om_into_group om prov1 staged of (prov2, g_r) \<Rightarrow>
                  (case om_err ''into_group'' g_r of Inl e \<Rightarrow> (ctx\<lparr>provider := prov2\<rparr>, Inl e)
                   | Inr g \<Rightarrow> (ctx\<lparr>provider := prov2, mls_group := g\<rparr>, Inr ())))))
         | _ \<Rightarrow> (ctx, Inl (OpenMls (''expected welcome, got '' @ om_body_debug om body)))))"

definition mls_epoch :: "('g, 'sg, 'st, 'kp, 'm, 'w) openmls \<Rightarrow> ('g, 'sg, 'st) mls_context \<Rightarrow> u64" where
  "mls_epoch om ctx = om_epoch om (mls_group ctx)"

definition group_id_16 :: "('g, 'sg, 'st, 'kp, 'm, 'w) openmls \<Rightarrow> ('g, 'sg, 'st) mls_context \<Rightarrow> bytes" where
  "group_id_16 om ctx =
     (let raw = om_group_id om (mls_group ctx); n = min (length raw) 16
      in take n raw @ drop n (replicate 16 0))"

subsection \<open>Blobs\<close>

text \<open>The entries of the key-value store are written in iteration order.\<close>

definition serialize_storage :: "provider \<Rightarrow> (bytes \<times> bytes) list \<Rightarrow> mls_error + bytes" where
  "serialize_storage p es =
     (if p_poisoned p then Inl (OpenMls ''storage lock poisoned'')
      else Inr (le_bytes32 (word_of_nat (length es))
                @ concat (map (\<lambda>(k, v). put_section k @ put_section v) es)))"

definition rd_u32 :: "bytes \<Rightarrow> mls_error + nat \<times> bytes" where
  "rd_u32 cur = (case rd_le32 cur of None \<Rightarrow> Inl (OpenMls ''truncated storage blob'')
     | Some (n, rest) \<Rightarrow> Inr (unat n, rest))"

definition rd_bytes :: "nat \<Rightarrow> bytes \<Rightarrow> mls_error + bytes \<times> bytes" where
  "rd_bytes len cur = (if length cur < len then Inl (OpenMls ''truncated storage blob'')
     else Inr (take len cur, drop len cur))"

fun rd_entries :: "nat \<Rightarrow> bytes \<Rightarrow> (bytes \<rightharpoonup> bytes) \<Rightarrow> mls_error + (bytes \<rightharpoonup> bytes)" where
  "rd_entries 0 cur m = Inr m"
| "rd_entries (Suc count) cur m =
     (case rd_u32 cur of Inl e \<Rightarrow> Inl e | Inr (klen, cur1) \<Rightarrow>
      (case rd_bytes klen cur1 of Inl e \<Rightarrow> Inl e | Inr (k, cur2) \<Rightarrow>
       (case rd_u32 cur2 of Inl e \<Rightarrow> Inl e | Inr (vlen, cur3) \<Rightarrow>
        (case rd_bytes vlen cur3 of Inl e \<Rightarrow> Inl e | Inr (v, cur4) \<Rightarrow>
           rd_entries count cur4 (m(k \<mapsto> v))))))"

definition deserialize_storage :: "bytes \<Rightarrow> mls_error + (bytes \<rightharpoonup> bytes)" where
  "deserialize_storage bs =
     (case rd_u32 bs of Inl e \<Rightarrow> Inl e | Inr (count, cur) \<Rightarrow> rd_entries count cur Map.empty)"

definition export_state ::
    "('g, 'sg, 'st, 'kp, 'm, 'w) openmls \<Rightarrow> (bytes \<times> bytes) list \<Rightarrow> ('g, 'sg, 'st) mls_context \<Rightarrow>
      mls_error + bytes" where
  "export_state om es ctx =
     (case serialize_storage (provider ctx) es of Inl e \<Rightarrow> Inl e
      | Inr storage_buf \<Rightarrow>
        (case om_err ''signer serialize'' (om_signer_ser om (signer ctx)) of Inl e \<Rightarrow> Inl e
         | Inr signer_buf \<Rightarrow>
           Inr (concat (map put_section
                  [storage_buf, signer_buf, identity ctx, om_group_id om (mls_group ctx)]))))"

definition take_section :: "bytes \<Rightarrow> mls_error + bytes \<times> bytes" where
  "take_section cur =
     (case rd_le32 cur of None \<Rightarrow> Inl (OpenMls ''truncated state blob (length)'')
      | Some (n, cur1) \<Rightarrow>
        (if length cur1 < unat n then Inl (OpenMls ''truncated state blob (body)'')
         else Inr (take (unat n) cur1, drop (unat n) cur1)))"

definition restore_state ::
    "('g, 'sg, 'st, 'kp, 'm, 'w) openmls \<Rightarrow> bytes \<Rightarrow> mls_error + ('g, 'sg, 'st) mls_context" where
  "restore_state om blob =
     (case take_section blob of Inl e \<Rightarrow> Inl e | Inr (storage_bytes, cur1) \<Rightarrow>
      (case take_section cur1 of Inl e \<Rightarrow> Inl e | Inr (signer_bytes, cur2) \<Rightarrow>
       (case take_section cur2 of Inl e \<Rightarrow> Inl e | Inr (ident, cur3) \<Rightarrow>
        (case take_section cur3 of Inl e \<Rightarrow> Inl e | Inr (gid_bytes, _) \<Rightarrow>
         (case deserialize_storage storage_bytes of Inl e \<Rightarrow> Inl e | Inr m \<Rightarrow>
          (let prov = fresh_provider\<lparr>p_values := m\<rparr> in
           case om_err ''signer parse'' (om_signer_de om signer_bytes) of Inl e \<Rightarrow> Inl e | Inr sg \<Rightarrow>
           (let cred = \<lparr>cred_identity = ident, cred_key = om_signer_public om sg\<rparr> in
            case om_err ''group load'' (om_load om prov gid_bytes) of Inl e \<Rightarrow> Inl e | Inr g_opt \<Rightarrow>
            (case g_opt of None \<Rightarrow> Inl (OpenMls ''no group in restored state'') | Some g \<Rightarrow>
             Inr \<lparr>provider = prov, signer = sg, mls_group = g, credential = cred,
                  identity = ident, pending_staged = None\<rparr>))))))))"

subsection \<open>Keys, sealing and opening\<close>

definition export_stream_key ::
    "('g, 'sg, 'st, 'kp, 'm, 'w) openmls \<Rightarrow> ('g, 'sg, 'st) mls_context \<Rightarrow> stream_label \<Rightarrow> mls_error + bytes" where
  "export_stream_key om ctx label =
     om_err ''export'' (om_export_secret om (mls_group ctx) (label_as_str label) [] 32)"

definition export_raw ::
    "('g, 'sg, 'st, 'kp, 'm, 'w) openmls \<Rightarrow> ('g, 'sg, 'st) mls_context \<Rightarrow> string \<Rightarrow> bytes \<Rightarrow> nat \<Rightarrow>
      mls_error + bytes" where
  "export_raw om ctx label context len =
     om_err ''export_raw'' (om_export_secret om (mls_group ctx) label context len)"

definition mls_nonce :: "u32 \<Rightarrow> bytes" where
  "mls_nonce seq = be_bytes32 seq @ replicate 8 0"

definition aead_err :: "string + 'a \<Rightarrow> mls_error + 'a" where
  "aead_err r = (case r of Inl e \<Rightarrow> Inl (Aead e) | Inr x \<Rightarrow> Inr x)"

definition mls_seal ::
    "('g, 'sg, 'st, 'kp, 'm, 'w) openmls \<Rightarrow> aead \<Rightarrow> ('g, 'sg, 'st) mls_context \<Rightarrow> stream_label \<Rightarrow> u32 \<Rightarrow>
      bytes \<Rightarrow> mls_error + bytes" where
  "mls_seal om a ctx label seq plaintext =
     (case export_stream_key om ctx label of Inl e \<Rightarrow> Inl e
      | Inr key \<Rightarrow> aead_err (ae_encrypt a key (mls_nonce seq) plaintext))"

definition mls_open ::
    "('g, 'sg, 'st, 'kp, 'm, 'w) openmls \<Rightarrow> aead \<Rightarrow> ('g, 'sg, 'st) mls_context \<Rightarrow> stream_label \<Rightarrow> u32 \<Rightarrow>
      bytes \<Rightarrow> mls_error + bytes" where
  "mls_open om a ctx label seq ciphertext =
     (case export_stream_key om ctx label of Inl e \<Rightarrow> Inl e
      | Inr key \<Rightarrow> aead_err (ae_decrypt a key (mls_nonce seq) ciphertext))"

subsection \<open>Round trips of the blobs\<close>

lemma truncated_section:
  assumes "length p < 2 ^ 32" and n: "n < length (put_section p)"
  shows "case rd_le32 (take n (put_section p)) of None \<Rightarrow> True | Some (w, r) \<Rightarrow> length r < unat w"
proof (cases "4 \<le> n")
  case True
  then show ?thesis using assms rd_le32_take_put_section [OF n] by auto
next
  case False
  then have "rd_le32 (take n (put_section p)) = None" using n by (simp add: rd_le32_None)
  then show ?thesis by simp
qed

interpretation state_section: blob_framing put_section take_section "\<lambda>p. length p < 2 ^ 32"
proof
  fix p r :: bytes assume "length p < 2 ^ 32"
  then show "take_section (put_section p @ r) = Inr (p, r)" by (simp add: take_section_def)
next
  fix p :: bytes and n assume "length p < 2 ^ 32" "n < length (put_section p)"
  from truncated_section [OF this] show "\<exists>e. take_section (take n (put_section p)) = Inl e"
    by (auto simp: take_section_def split: option.splits)
qed

definition rd_section :: "bytes \<Rightarrow> mls_error + bytes \<times> bytes" where
  "rd_section cur = (case rd_u32 cur of Inl e \<Rightarrow> Inl e | Inr (len, cur1) \<Rightarrow> rd_bytes len cur1)"

interpretation storage_section: blob_framing put_section rd_section "\<lambda>p. length p < 2 ^ 32"
proof
  fix p r :: bytes assume "length p < 2 ^ 32"
  then show "rd_section (put_section p @ r) = Inr (p, r)"
    by (simp add: rd_section_def rd_u32_def rd_bytes_def)
next
  fix p :: bytes and n assume "length p < 2 ^ 32" "n < length (put_section p)"
  from truncated_section [OF this] show "\<exists>e. rd_section (take n (put_section p)) = Inl e"
    by (auto simp: rd_section_def rd_u32_def rd_bytes_def split: option.splits)
qed

lemma rd_entries_Suc:
  "rd_entries (Suc count) cur m =
     (case rd_section cur of Inl e \<Rightarrow> Inl e | Inr (k, cur1) \<Rightarrow>
      (case rd_section cur1 of Inl e \<Rightarrow> Inl e | Inr (v, cur2) \<Rightarrow> rd_entries count cur2 (m(k \<mapsto> v))))"
  by (auto simp: rd_section_def split: sum.splits)

lemma rd_entries_write:
  assumes "\<forall>(k, v)\<in>set es. length k < 2 ^ 32 \<and> length v < 2 ^ 32"
  shows "rd_entries (length es) (concat (map (\<lambda>(k, v). put_section k @ put_section v) es)) m
    = Inr (m ++ map_of (rev es))"
  using assms
proof (induction es arbitrary: m)
  case (Cons e es)
  obtain k v where e: "e = (k, v)" by force
  then show ?case using Cons
    by (simp add: rd_entries_Suc storage_section.get_put del: rd_entries.simps(2) fun_upd_apply)
qed simp

text \<open>What the store must satisfy for its blob to be exact: every length fits in 32 bits.\<close>

definition storage_fits :: "(bytes \<times> bytes) list \<Rightarrow> bool" where
  "storage_fits es \<longleftrightarrow> length es < 2 ^ 32 \<and> (\<forall>(k, v)\<in>set es. length k < 2 ^ 32 \<and> length v < 2 ^ 32)"

lemma deserialize_serialize_storage:
  assumes "hash_iter (p_values p) es" and "storage_fits es" and "serialize_storage p es = Inr blob"
  shows "deserialize_storage blob = Inr (p_values p)"
proof -
  have "blob = le_bytes32 (word_of_nat (length es))
      @ concat (map (\<lambda>(k, v). put_section k @ put_section v) es)"
    using assms(3) by (simp add: serialize_storage_def split: if_splits)
  then have "deserialize_storage blob = Inr (map_of (rev es))"
    using assms(2) rd_entries_write [of es Map.empty]
    by (simp add: deserialize_storage_def rd_u32_def storage_fits_def)
  then show ?thesis using assms(1) by (simp add: hash_iter_def map_of_rev_distinct)
qed

text \<open>The credential of a context is the one its identity and signer give.\<close>

definition cred_ok :: "('g, 'sg, 'st, 'kp, 'm, 'w) openmls \<Rightarrow> ('g, 'sg, 'st) mls_context \<Rightarrow> bool" where
  "cred_ok om ctx \<longleftrightarrow>
     credential ctx = \<lparr>cred_identity = identity ctx, cred_key = om_signer_public om (signer ctx)\<rparr>"

lemma cred_ok_upd [simp]:
  "cred_ok om (ctx\<lparr>provider := x\<rparr>) = cred_ok om ctx"
  "cred_ok om (ctx\<lparr>mls_group := g\<rparr>) = cred_ok om ctx"
  "cred_ok om (ctx\<lparr>pending_staged := s\<rparr>) = cred_ok om ctx"
  by (simp_all add: cred_ok_def)

lemma cred_ok_new: "new_member om r1 r2 r3 ident = Inr (ctx, kp) \<Longrightarrow> cred_ok om ctx"
  by (auto simp: new_member_def cred_ok_def Let_def split: sum.splits prod.splits)

lemma cred_ok_ops:
  assumes "cred_ok om ctx"
  shows "cred_ok om (fst (invite_full om r ctx kps))"
    and "cred_ok om (fst (finalize_pending_commit om ctx))"
    and "cred_ok om (fst (remove_members om r ctx leaves))"
    and "cred_ok om (fst (clear_pending_commit om ctx))"
    and "cred_ok om (fst (process_message om ctx msg))"
    and "cred_ok om (fst (accept_welcome om ctx msg))"
  using assms
  by (auto simp: invite_full_def finalize_pending_commit_def remove_members_def
      clear_pending_commit_def process_message_def accept_welcome_def Let_def
      split: sum.splits prod.splits option.splits mls_body.splits processed_content.splits)

text \<open>
  The four sections of a state blob: reading them back, and that every proper prefix of the blob is
  refused before anything else is looked at.
\<close>

lemma restore_state_sections:
  "restore_state om blob =
     (case state_section.get_n 4 blob of Inl e \<Rightarrow> Inl e
      | Inr (parts, _) \<Rightarrow>
        (case deserialize_storage (parts ! 0) of Inl e \<Rightarrow> Inl e | Inr m \<Rightarrow>
         (case om_err ''signer parse'' (om_signer_de om (parts ! 1)) of Inl e \<Rightarrow> Inl e | Inr sg \<Rightarrow>
          (case om_err ''group load'' (om_load om (fresh_provider\<lparr>p_values := m\<rparr>) (parts ! 3)) of
             Inl e \<Rightarrow> Inl e
           | Inr None \<Rightarrow> Inl (OpenMls ''no group in restored state'')
           | Inr (Some g) \<Rightarrow>
             Inr \<lparr>provider = fresh_provider\<lparr>p_values := m\<rparr>, signer = sg, mls_group = g,
                  credential = \<lparr>cred_identity = parts ! 2, cred_key = om_signer_public om sg\<rparr>,
                  identity = parts ! 2, pending_staged = None\<rparr>))))"
  by (simp add: restore_state_def Let_def numeral_eq_Suc split: sum.split prod.split option.split)

lemma export_state_sections:
  assumes "export_state om es ctx = Inr blob"
  obtains sb kb where "serialize_storage (provider ctx) es = Inr sb"
    and "om_signer_ser om (signer ctx) = Inr kb"
    and "blob = concat (map put_section [sb, kb, identity ctx, om_group_id om (mls_group ctx)])"
proof -
  from assms obtain sb where sb: "serialize_storage (provider ctx) es = Inr sb"
    by (auto simp: export_state_def split: sum.splits)
  with assms obtain kb where "om_signer_ser om (signer ctx) = Inr kb"
    by (cases "om_signer_ser om (signer ctx)") (auto simp: export_state_def)
  with sb assms that show ?thesis by (simp add: export_state_def)
qed

lemma state_section_parts_fit:
  "length (concat (map put_section parts)) < 2 ^ 32 \<Longrightarrow> \<forall>p\<in>set parts. length p < 2 ^ 32"
  by (induction parts) auto

subsection \<open>Pending commits\<close>

definition process_all ::
    "('g, 'sg, 'st, 'kp, 'm, 'w) openmls \<Rightarrow> bytes list \<Rightarrow> ('g, 'sg, 'st) mls_context \<Rightarrow>
      ('g, 'sg, 'st) mls_context" where
  "process_all om msgs ctx = fold (\<lambda>m c. fst (process_message om c m)) msgs ctx"

lemma process_message_staged:
  assumes "pending_staged ctx = Some s"
  shows "pending_staged (fst (process_message om ctx m)) = Some s"
    and "snd (process_message om ctx m) \<noteq> Inr KCommit"
  using assms
  by (auto simp: process_message_def Let_def
      split: sum.splits prod.splits mls_body.splits processed_content.splits)

lemma process_all_staged:
  "pending_staged ctx = Some s \<Longrightarrow> pending_staged (process_all om msgs ctx) = Some s"
  unfolding process_all_def by (induction msgs arbitrary: ctx) (simp_all add: process_message_staged)

lemma finalize_none_pending: "pending_staged (fst (finalize_pending_commit om ctx)) = None"
  by (auto simp: finalize_pending_commit_def Let_def split: sum.splits prod.splits option.splits)

lemma clear_none_pending: "pending_staged (fst (clear_pending_commit om ctx)) = None"
  by (auto simp: clear_pending_commit_def Let_def split: prod.splits)

lemma finalize_staged:
  assumes "pending_staged ctx = Some staged"
  shows "om_merge_staged om (provider ctx) (mls_group ctx) staged = (p, g, Inl e) \<Longrightarrow>
      finalize_pending_commit om ctx =
        (ctx\<lparr>pending_staged := None, provider := p, mls_group := g\<rparr>, Inl (OpenMls (''merge_staged: '' @ e)))"
    and "om_merge_staged om (provider ctx) (mls_group ctx) staged = (p, g, Inr u) \<Longrightarrow>
      om_merge_pending om p g = (p', g', r) \<Longrightarrow>
      finalize_pending_commit om ctx =
        (ctx\<lparr>pending_staged := None, provider := p', mls_group := g'\<rparr>, Inr ())"
  using assms by (simp_all add: finalize_pending_commit_def Let_def)

lemma mls_nonce_inj: "mls_nonce a = mls_nonce b \<longleftrightarrow> a = b"
  by (simp add: mls_nonce_def be_bytes32_inj)

lemma length_mls_nonce [simp]: "length (mls_nonce a) = 12"
  by (simp add: mls_nonce_def)

subsection \<open>A concrete instance of the libraries\<close>

text \<open>
  A small OpenMLS and a small AEAD with which the hypotheses below can be met: a group is its epoch
  and its identifier, kept in the store under the identifier; encryption appends the key and the
  nonce as a tag.
\<close>

definition toy_openmls :: "(nat \<times> bytes, bytes, nat, bytes, bytes, bytes) openmls" where
  "toy_openmls =
    \<lparr>om_signer_new = Inr,
     om_signer_store = (\<lambda>sg p. (p\<lparr>p_values := (p_values p)([115] \<mapsto> sg)\<rparr>, Inr ())),
     om_signer_public = (\<lambda>sg. sg), om_signer_ser = Inr, om_signer_de = Inr,
     om_kp_build = (\<lambda>r p sg c. (p, Inr r)),
     om_group_new = (\<lambda>r p sg c. (p\<lparr>p_values := (p_values p)(r \<mapsto> [])\<rparr>, Inr (0, r))),
     om_add_members = (\<lambda>r p sg g kps. (p, g, Inr ([1], [2]))),
     om_remove_members = (\<lambda>r p sg g ls. (p, g, Inr [3])),
     om_msg_ser = Inr, om_msg_de = (\<lambda>bs. Inr (PublicMessage bs)), om_body_debug = (\<lambda>b. ''body''),
     om_process = (\<lambda>p g m. (p, g, Inr (StagedCommitMessage (length m)))),
     om_merge_staged = (\<lambda>p g st. (p\<lparr>p_values := (p_values p)(snd g \<mapsto> replicate st 0)\<rparr>, (st, snd g), Inr ())),
     om_merge_pending = (\<lambda>p g. (p, g, Inl ''no pending commit'')),
     om_clear_pending = (\<lambda>p g. (p, g, Inr ())),
     om_stage_welcome = (\<lambda>p w. (p, Inr w)), om_into_group = (\<lambda>p w. (p, Inr (0, w))),
     om_load = (\<lambda>p gid. Inr (map_option (\<lambda>bs. (length bs, gid)) (p_values p gid))),
     om_members = (\<lambda>g. 1), om_epoch = (\<lambda>g. word_of_nat (fst g)), om_group_id = snd,
     om_export_secret = (\<lambda>g l c n. Inr (replicate n (word_of_nat (fst g + length l))))\<rparr>"

definition toy_context :: "(nat \<times> bytes, bytes, nat) mls_context" where
  "toy_context =
    \<lparr>provider = \<lparr>p_values = [[7] \<mapsto> [0, 0]], p_poisoned = False\<rparr>, signer = [9], mls_group = (2, [7]),
     credential = \<lparr>cred_identity = [1], cred_key = [9]\<rparr>, identity = [1], pending_staged = Some 3\<rparr>"

definition toy_aead :: aead where
  "toy_aead =
    \<lparr>ae_encrypt = (\<lambda>k n p. Inr (p @ k @ n)),
     ae_decrypt = (\<lambda>k n c. let m = length c - length (k @ n) in
        if drop m c = k @ n then Inr (take m c) else Inl ''aead::Error'')\<rparr>"

lemma toy_aead_correct [simp]: "aead_correct toy_aead"
  by (simp add: aead_correct_def toy_aead_def)

subsection \<open>Properties\<close>

text \<open>
  C27. The exported state of a context restores to the same context, without its staged commit:
  for any iteration order of the key-value store, provided that the signer's serialisation reads
  back, the store holds the group, the context's credential is the one of its identity and signer
  (which every operation keeps), and every part is shorter than 4 GiB.
\<close>

theorem restore_export_state:
  assumes "hash_iter (p_values (provider ctx)) es" and "storage_fits es" and "cred_ok om ctx"
    and "export_state om es ctx = Inr blob" and "length blob < 2 ^ 32"
    and signer: "\<And>kb. om_signer_ser om (signer ctx) = Inr kb \<Longrightarrow> om_signer_de om kb = Inr (signer ctx)"
    and group: "om_load om (provider ctx) (om_group_id om (mls_group ctx)) = Inr (Some (mls_group ctx))"
  shows "restore_state om blob = Inr (ctx\<lparr>pending_staged := None\<rparr>)"
proof -
  obtain sb kb where sb: "serialize_storage (provider ctx) es = Inr sb"
    and kb: "om_signer_ser om (signer ctx) = Inr kb"
    and blob: "blob = concat (map put_section [sb, kb, identity ctx, om_group_id om (mls_group ctx)])"
    using assms(4) by (rule export_state_sections)
  from state_section.get_n_concat [OF state_section_parts_fit [OF assms(5) [unfolded blob]], of "[]"]
  have get: "state_section.get_n 4 blob
      = Inr ([sb, kb, identity ctx, om_group_id om (mls_group ctx)], [])"
    using blob by (simp add: numeral_eq_Suc)
  have "p_poisoned (provider ctx) = False"
    using sb by (simp add: serialize_storage_def split: if_splits)
  then have prov: "fresh_provider\<lparr>p_values := p_values (provider ctx)\<rparr> = provider ctx"
    by (simp add: fresh_provider_def)
  show ?thesis
    using get prov signer [OF kb] group deserialize_serialize_storage [OF assms(1,2) sb] assms(3)
    by (simp add: restore_state_sections cred_ok_def)
qed

theorem restore_export_state_witness:
  "\<exists>blob. export_state toy_openmls [([7], [0, 0])] toy_context = Inr blob
     \<and> restore_state toy_openmls blob = Inr (toy_context\<lparr>pending_staged := None\<rparr>)"
proof -
  let ?blob = "concat (map put_section
    [le_bytes32 1 @ put_section [7] @ put_section [0, 0], [9], [1], [7]])"
  have ex: "export_state toy_openmls [([7], [0, 0])] toy_context = Inr ?blob"
    by (simp add: export_state_def serialize_storage_def toy_context_def toy_openmls_def)
  have "restore_state toy_openmls ?blob = Inr (toy_context\<lparr>pending_staged := None\<rparr>)"
    by (rule restore_export_state [OF _ _ _ ex])
      (simp_all add: toy_context_def toy_openmls_def hash_iter_def storage_fits_def cred_ok_def)
  with ex show ?thesis by blast
qed

text \<open>
  No proper prefix of an exported state is accepted: a truncated blob is refused with an
  error, whatever OpenMLS would make of the sections.
\<close>

theorem truncated_state_refused:
  assumes "export_state om es ctx = Inr blob" and "length blob < 2 ^ 32" and "k < length blob"
  shows "\<exists>e. restore_state om (take k blob) = Inl e"
proof -
  obtain parts where blob: "blob = concat (map put_section parts)" and len: "length parts = 4"
    using assms(1)
  proof (rule export_state_sections)
    fix sb kb
    assume "blob = concat (map put_section [sb, kb, identity ctx, om_group_id om (mls_group ctx)])"
    then show thesis by (rule that) simp
  qed
  have "\<exists>e. state_section.get_n (length parts) (take k blob) = Inl e"
    unfolding blob
    using state_section_parts_fit [OF assms(2) [unfolded blob]] assms(3) [unfolded blob]
    by (rule state_section.get_n_truncated)
  then show ?thesis by (auto simp: len restore_state_sections)
qed

theorem truncated_state_refused_witness:
  "\<exists>blob e. export_state toy_openmls [([7], [0, 0])] toy_context = Inr blob
     \<and> restore_state toy_openmls (take 30 blob) = Inl e \<and> length blob = 34"
proof -
  let ?blob = "concat (map put_section
    [le_bytes32 1 @ put_section [7] @ put_section [0, 0], [9], [1], [7]])"
  have ex: "export_state toy_openmls [([7], [0, 0])] toy_context = Inr ?blob"
    by (simp add: export_state_def serialize_storage_def toy_context_def toy_openmls_def)
  have len: "length ?blob = 34" by simp
  have "\<exists>e. restore_state toy_openmls (take 30 ?blob) = Inl e"
    by (rule truncated_state_refused [OF ex]) (simp_all only: len, simp_all)
  with ex len show ?thesis by blast
qed

text \<open>
  C28. At most one remote commit is pending: while one is staged, any further messages leave it in
  place and none of them is accepted as a commit; a finalisation merges exactly the staged commit;
  and after a finalisation or an abort nothing is staged, whether or not the merge succeeded.
\<close>

theorem first_staged_commit_wins:
  assumes "pending_staged ctx = Some staged"
  shows "pending_staged (process_all om msgs ctx) = Some staged
    \<and> snd (process_message om (process_all om msgs ctx) m) \<noteq> Inr KCommit
    \<and> (\<forall>p g e. om_merge_staged om (provider ctx) (mls_group ctx) staged = (p, g, Inl e) \<longrightarrow>
         finalize_pending_commit om ctx =
           (ctx\<lparr>pending_staged := None, provider := p, mls_group := g\<rparr>, Inl (OpenMls (''merge_staged: '' @ e))))
    \<and> (\<forall>p g p' g' r. om_merge_staged om (provider ctx) (mls_group ctx) staged = (p, g, Inr ()) \<longrightarrow>
         om_merge_pending om p g = (p', g', r) \<longrightarrow>
         finalize_pending_commit om ctx =
           (ctx\<lparr>pending_staged := None, provider := p', mls_group := g'\<rparr>, Inr ()))
    \<and> pending_staged (fst (finalize_pending_commit om ctx)) = None
    \<and> pending_staged (fst (clear_pending_commit om ctx)) = None"
  using process_all_staged [OF assms, of om msgs]
    process_message_staged(2) [OF process_all_staged [OF assms, of om msgs], of om m]
  by (simp add: finalize_none_pending clear_none_pending finalize_staged [OF assms])

theorem first_staged_commit_wins_witness:
  "pending_staged toy_context = Some 3
    \<and> pending_staged (process_all toy_openmls [[1], [2, 2]] toy_context) = Some 3
    \<and> snd (process_message toy_openmls (process_all toy_openmls [[1], [2, 2]] toy_context) [4])
        \<noteq> Inr KCommit"
  using first_staged_commit_wins [of toy_context 3 toy_openmls "[[1], [2, 2]]" "[4]"]
  by (simp add: toy_context_def)

text \<open>
  What one member seals another opens, whenever their groups export the same key for the
  stream class: same plaintext back, for every sequence number; the nonce is 12 bytes and differs
  for different sequence numbers.
\<close>

theorem open_seal:
  assumes "aead_correct a"
    and "export_stream_key om ctx label = export_stream_key om' ctx' label"
    and "mls_seal om a ctx label seq plaintext = Inr ciphertext"
  shows "mls_open om' a ctx' label seq ciphertext = Inr plaintext
    \<and> length (mls_nonce seq) = 12 \<and> (\<forall>seq'. mls_nonce seq' = mls_nonce seq \<longrightarrow> seq' = seq)"
proof -
  obtain key where key: "export_stream_key om ctx label = Inr key"
    using assms(3) by (auto simp: mls_seal_def split: sum.splits)
  have "ae_encrypt a key (mls_nonce seq) plaintext = Inr ciphertext"
    using assms(3) key by (auto simp: mls_seal_def aead_err_def split: sum.splits)
  then have "ae_decrypt a key (mls_nonce seq) ciphertext = Inr plaintext"
    using assms(1) by (auto simp: aead_correct_def)
  moreover have "export_stream_key om' ctx' label = Inr key" using assms(2) key by simp
  ultimately show ?thesis by (simp add: mls_open_def aead_err_def mls_nonce_inj)
qed

theorem open_seal_witness:
  "\<exists>ct. mls_seal toy_openmls toy_aead toy_context LText 5 [1, 2] = Inr ct
     \<and> mls_open toy_openmls toy_aead (toy_context\<lparr>identity := [8]\<rparr>) LText 5 ct = Inr [1, 2]"
proof -
  let ?ct = "[1, 2] @ replicate 32 (10 :: u8) @ mls_nonce 5"
  have ct: "mls_seal toy_openmls toy_aead toy_context LText 5 [1, 2] = Inr ?ct"
    by (simp add: mls_seal_def export_stream_key_def toy_openmls_def toy_aead_def toy_context_def
        aead_err_def)
  have key: "export_stream_key toy_openmls toy_context LText
      = export_stream_key toy_openmls (toy_context\<lparr>identity := [8]\<rparr>) LText"
    by (simp add: export_stream_key_def)
  show ?thesis using open_seal [OF toy_aead_correct key ct] ct by blast
qed

end
