(* ===== verification/Gbp_Node.thy ===== *)
theory Gbp_Node
  imports Gbp_Frame Gbp_Mls
begin

section \<open>Group node (\<^verbatim>\<open>gbp-node\<close>)\<close>

text \<open>
  The node of \<^verbatim>\<open>crates/gbp/node/src/node.rs\<close>: framing, replay window, state machine and control
  plane. The state is the record \<open>group_node\<close> with the fields of \<^verbatim>\<open>GroupNode\<close>; each method is a
  function on it. A method that reads the clock takes the reading as \<open>now\<close> (one reading per call: a
  call is instantaneous at the resolution of milliseconds), a method that needs the sealer takes a
  \<open>sealer\<close>, and a method that encodes takes the serialisers of frames and control messages.

  \<^verbatim>\<open>deliver_frame\<close> and \<^verbatim>\<open>on_wire\<close> return \<^verbatim>\<open>Result\<close> in the code but no path of theirs produces an error,
  so here they return the node, and the node with the drained events.
\<close>

datatype node_error = Codec codec_error | Mls mls_error | InvalidState string

fun node_error_display :: "node_error \<Rightarrow> string" where
  "node_error_display (Codec e) = ''codec: '' @ codec_error_display e"
| "node_error_display (Mls e) = ''mls: '' @ mls_error_display e"
| "node_error_display (InvalidState s) = ''invalid state: '' @ s"

record outbound_frame =
  of_to :: u32
  of_wire :: bytes

record delivered_payload =
  dp_stream_type :: stream_type
  dp_stream_id :: u32
  dp_sequence_no :: u32
  dp_flags :: u16
  dp_plaintext :: bytes
  dp_codec :: payload_codec

datatype event =
    StateChanged node_state node_state
  | PayloadReceived delivered_payload
  | ControlEv (ev_from: u32) (ev_opcode: control_opcode) (ev_tid: u32) (ev_request: u32) (ev_args: bytes)
  | ErrorEv (ev_code: u16) (ev_class: error_class) (ev_retryable: bool) (ev_fatal: bool) (ev_reason: string)
  | EpochAdvanced u64 u32
  | CoordinatorElectionNeeded
  | BecameCoordinator
  | CoordinatorClaim u32

type_synonym stream_key = "stream_type \<times> u32"

record group_node =
  member_id :: u32
  is_coordinator :: bool
  group_id :: bytes
  current_epoch :: u64
  last_transition_id :: u32
  pending_transition_id :: u32
  state :: node_state
  transition_state :: transition_state
  out_seq :: "stream_key \<rightharpoonup> u32"
  in_hw :: "stream_key \<rightharpoonup> u32"
  events :: "event list"
  pending_commit_sender :: "u32 option"
  prepare_deadline :: "instant option"
  execute_deadline :: "instant option"
  coordinator_last_seen :: "instant option"

text \<open>
  The trait \<^verbatim>\<open>Sealer\<close>. Its methods take the sealer mutably; the implementation for \<^verbatim>\<open>MlsContext\<close>
  only reads it, and so do the functions here.
\<close>

record sealer =
  seal :: "stream_type \<Rightarrow> u32 \<Rightarrow> bytes \<Rightarrow> mls_error + bytes"
  openf :: "stream_type \<Rightarrow> u32 \<Rightarrow> bytes \<Rightarrow> mls_error + bytes"

definition mls_sealer ::
    "('g, 'sg, 'st, 'kp, 'm, 'w) openmls \<Rightarrow> aead \<Rightarrow> ('g, 'sg, 'st) mls_context \<Rightarrow> sealer" where
  "mls_sealer om a ctx =
     \<lparr>seal = (\<lambda>st seq pt. mls_seal om a ctx (label_for st) seq pt),
      openf = (\<lambda>st seq ct. mls_open om a ctx (label_for st) seq ct)\<rparr>"

subsection \<open>Construction\<close>

definition node_new :: "u32 \<Rightarrow> bytes \<Rightarrow> group_node" where
  "node_new mid gid =
     \<lparr>member_id = mid, is_coordinator = False, group_id = gid, current_epoch = 0,
      last_transition_id = 0, pending_transition_id = 0, state = Idle, transition_state = TIdle,
      out_seq = Map.empty, in_hw = Map.empty, events = [], pending_commit_sender = None,
      prepare_deadline = None, execute_deadline = None, coordinator_last_seen = None\<rparr>"

definition push_event :: "event \<Rightarrow> group_node \<Rightarrow> group_node" where
  "push_event e n = n\<lparr>events := events n @ [e]\<rparr>"

definition drain_events :: "group_node \<Rightarrow> group_node \<times> event list" where
  "drain_events n = (n\<lparr>events := []\<rparr>, events n)"

definition transition :: "node_state \<Rightarrow> group_node \<Rightarrow> group_node" where
  "transition next n =
     (if state n = next then n
      else if \<not> can_transition_to (state n) next
      then push_event (StateChanged (state n) Failed) (n\<lparr>state := Failed\<rparr>)
      else push_event (StateChanged (state n) next) (n\<lparr>state := next\<rparr>))"

definition bootstrap_as_creator :: "u64 \<Rightarrow> group_node \<Rightarrow> group_node" where
  "bootstrap_as_creator epoch n =
     (let n1 = transition Connecting n; n2 = transition EstablishingGroup n1
      in transition Active (n2\<lparr>current_epoch := epoch\<rparr>))"

definition bootstrap_as_joiner :: "u64 \<Rightarrow> u32 \<Rightarrow> group_node \<Rightarrow> group_node" where
  "bootstrap_as_joiner epoch expected_first_tid n =
     (let n1 = transition Connecting n; n2 = transition EstablishingGroup n1;
          n3 = n2\<lparr>current_epoch := epoch\<rparr>;
          n4 = (if expected_first_tid > 0
                then n3\<lparr>pending_transition_id := expected_first_tid, transition_state := TPrepared\<rparr>
                else n3)
      in transition Active n4)"

definition member_stream_id :: "group_node \<Rightarrow> u32 \<Rightarrow> u32" where
  "member_stream_id n base = base + member_id n * 100"

subsection \<open>Errors\<close>

definition emit_err_named ::
    "u16 \<Rightarrow> error_class \<Rightarrow> bool \<Rightarrow> bool \<Rightarrow> string \<Rightarrow> group_node \<Rightarrow> group_node" where
  "emit_err_named code cls retryable fatal reason n =
     (let (cls', retryable', fatal') =
            (case lookup code of Some sp \<Rightarrow> (es_class sp, es_retryable sp, es_fatal sp)
             | None \<Rightarrow> (cls, retryable, fatal));
          n1 = push_event (ErrorEv code cls' retryable' fatal' reason) n
      in if fatal'
         then push_event (StateChanged (state n1) Failed) (n1\<lparr>state := Failed\<rparr>)
         else n1)"

definition emit_err_spec :: "u16 \<Rightarrow> string \<Rightarrow> group_node \<Rightarrow> group_node" where
  "emit_err_spec code reason n =
     (case lookup code of
        Some sp \<Rightarrow> emit_err_named (es_code sp) (es_class sp) (es_retryable sp) (es_fatal sp) reason n
      | None \<Rightarrow> emit_err_named code Policy False False reason n)"

definition trigger_resync :: "group_node \<Rightarrow> group_node" where
  "trigger_resync n = (if state n \<noteq> Resyncing then transition Resyncing n else n)"

subsection \<open>Sequence counters\<close>

definition next_seq :: "stream_type \<Rightarrow> u32 \<Rightarrow> group_node \<Rightarrow> group_node \<times> u32" where
  "next_seq st sid n =
     (let seq = opt_or (out_seq n (st, sid)) 0 + 1
      in (n\<lparr>out_seq := (out_seq n)((st, sid) \<mapsto> seq)\<rparr>, seq))"

text \<open>The counters are written in the iteration order \<open>es\<close> of the map.\<close>

definition put_counter :: "stream_key \<times> u32 \<Rightarrow> bytes" where
  "put_counter e = (case e of ((st, sid), sq) \<Rightarrow> stream_as_u8 st # le_bytes32 sid @ le_bytes32 sq)"

definition export_out_seq :: "(stream_key \<times> u32) list \<Rightarrow> bytes" where
  "export_out_seq es = le_bytes32 (word_of_nat (length es)) @ concat (map put_counter es)"

fun restore_loop :: "nat \<Rightarrow> bytes \<Rightarrow> (stream_key \<rightharpoonup> u32) \<Rightarrow> (stream_key \<rightharpoonup> u32)" where
  "restore_loop 0 cur m = m"
| "restore_loop (Suc k) cur m =
     (case cur of
        c0 # c1 # c2 # c3 # c4 # c5 # c6 # c7 # c8 # cur' \<Rightarrow>
          (case stream_try_from_u8 c0 of
             Inl _ \<Rightarrow> m
           | Inr st \<Rightarrow>
               restore_loop k cur'
                 (m((st, from_le_bytes32 c1 c2 c3 c4) \<mapsto> from_le_bytes32 c5 c6 c7 c8)))
      | _ \<Rightarrow> m)"

definition restore_out_seq :: "bytes \<Rightarrow> group_node \<Rightarrow> group_node" where
  "restore_out_seq bs n =
     (case rd_le32 bs of None \<Rightarrow> n
      | Some (cnt, cur) \<Rightarrow> n\<lparr>out_seq := restore_loop (unat cnt) cur (out_seq n)\<rparr>)"

subsection \<open>Sending\<close>

definition assert_can_send :: "group_node \<Rightarrow> node_error + unit" where
  "assert_can_send n =
     (if state n = Active \<or> state n = Resyncing \<or> state n = EstablishingGroup then Inr ()
      else Inl (InvalidState (''cannot send in state '' @ node_state_display (state n))))"

definition send_payload ::
    "gbp_frame serialiser \<Rightarrow> sealer \<Rightarrow> u32 \<Rightarrow> stream_type \<Rightarrow> u32 \<Rightarrow> u16 \<Rightarrow> bytes \<Rightarrow> payload_codec \<Rightarrow>
      group_node \<Rightarrow> group_node \<times> (node_error + outbound_frame)" where
  "send_payload fc s target st sid flags plaintext codec n =
     (case assert_can_send n of Inl e \<Rightarrow> (n, Inl e)
      | Inr _ \<Rightarrow>
        (case next_seq st sid n of (n1, seq) \<Rightarrow>
          (case seal s st seq plaintext of Inl e \<Rightarrow> (n1, Inl (Mls e))
           | Inr ciphertext \<Rightarrow>
             (let frame = frame_new (group_id n1) (current_epoch n1) (last_transition_id n1) st sid
                            flags seq ciphertext (codec_as_u8 codec)
              in (n1, Inr \<lparr>of_to = target, of_wire = frame_to_cbor fc frame\<rparr>)))))"

definition mirror_control :: "instant \<Rightarrow> control_opcode \<Rightarrow> u32 \<Rightarrow> group_node \<Rightarrow> group_node" where
  "mirror_control now opcode tid n =
     (case opcode of
        PrepareTransition \<Rightarrow>
          n\<lparr>pending_transition_id := tid, transition_state := TPrepared,
            prepare_deadline := Some (now + T_PREPARE_MAX_MS), execute_deadline := None\<rparr>
      | ReadyForTransition \<Rightarrow> n\<lparr>execute_deadline := Some (now + T_EXECUTE_MAX_MS)\<rparr>
      | ExecuteTransition \<Rightarrow> n\<lparr>prepare_deadline := None, execute_deadline := None\<rparr>
      | AbortTransition \<Rightarrow>
          n\<lparr>prepare_deadline := None, execute_deadline := None,
            pending_transition_id := 0, transition_state := TAborted\<rparr>
      | _ \<Rightarrow> n)"

definition control_flags :: "control_opcode \<Rightarrow> u16" where
  "control_flags opcode =
     (if opcode = PrepareTransition \<or> opcode = ReadyForTransition \<or> opcode = ExecuteTransition
      then ordered_reliable_system OR CRITICAL else ordered_reliable_system)"

definition send_control ::
    "gbp_frame serialiser \<Rightarrow> control_message serialiser \<Rightarrow> sealer \<Rightarrow> instant \<Rightarrow> u32 \<Rightarrow> control_opcode \<Rightarrow>
      u32 \<Rightarrow> u32 \<Rightarrow> bytes \<Rightarrow> group_node \<Rightarrow> group_node \<times> (node_error + outbound_frame)" where
  "send_control fc cc s now target opcode tid request_id args n =
     (let ctl = control_with_args (opcode_as_u16 opcode) request_id (member_id n) tid args;
          flags = control_flags opcode;
          n1 = mirror_control now opcode tid n;
          sid = member_stream_id n1 0
      in send_payload fc s target Control sid flags (control_to_cbor cc ctl) Cbor n1)"

subsection \<open>Transitions and the coordinator role\<close>

definition note_coordinator_activity :: "instant \<Rightarrow> group_node \<Rightarrow> group_node" where
  "note_coordinator_activity now n = n\<lparr>coordinator_last_seen := Some now\<rparr>"

definition apply_transition :: "u32 \<Rightarrow> group_node \<Rightarrow> group_node" where
  "apply_transition tid n =
     (let n1 = n\<lparr>current_epoch := current_epoch n + 1, last_transition_id := tid,
                 pending_transition_id := 0, pending_commit_sender := None,
                 transition_state := TExecuted, out_seq := Map.empty, in_hw := Map.empty\<rparr>
      in push_event (EpochAdvanced (current_epoch n1) tid) n1)"

definition claim_args :: bytes where
  "claim_args = [0xA1, 0x00, 0xF5]"

fun has_window :: "bytes \<Rightarrow> bool" where
  "has_window (a # b # rest) = ((a = 0x00 \<and> b = 0xF5) \<or> has_window (b # rest))"
| "has_window _ = False"

definition is_coordinator_claim :: "bytes \<Rightarrow> bool" where
  "is_coordinator_claim args \<longleftrightarrow> args = claim_args \<or> has_window args"

definition claim_coordinator ::
    "gbp_frame serialiser \<Rightarrow> control_message serialiser \<Rightarrow> sealer \<Rightarrow> instant \<Rightarrow> u32 \<Rightarrow> group_node \<Rightarrow>
      group_node \<times> (node_error + outbound_frame)" where
  "claim_coordinator fc cc s now target n =
     (let n1 = push_event BecameCoordinator
                 (n\<lparr>is_coordinator := True, coordinator_last_seen := Some now\<rparr>)
      in send_control fc cc s now target CapabilitiesAdvertise (last_transition_id n1) 0 claim_args n1)"

subsection \<open>Receiving\<close>

definition tid_ok :: "control_opcode \<Rightarrow> u32 \<Rightarrow> group_node \<Rightarrow> bool" where
  "tid_ok opcode tid n =
     (case opcode of
        PrepareTransition \<Rightarrow>
          tid > last_transition_id n \<and> (pending_transition_id n = 0 \<or> pending_transition_id n = tid)
      | ReadyForTransition \<Rightarrow> pending_transition_id n \<noteq> 0 \<and> tid = pending_transition_id n
      | ExecuteTransition \<Rightarrow> pending_transition_id n \<noteq> 0 \<and> tid = pending_transition_id n
      | AbortTransition \<Rightarrow> pending_transition_id n \<noteq> 0 \<and> tid = pending_transition_id n
      | _ \<Rightarrow> True)"

definition control_event :: "control_message \<Rightarrow> control_opcode \<Rightarrow> event" where
  "control_event c opcode =
     ControlEv (c_sender_id c) opcode (c_transition_id c) (c_request_id c) (c_args c)"

text \<open>
  The dispatch on a validated control message, without the event that every branch but the losing
  PREPARE pushes at the end (the losing one pushes the same event and returns).
\<close>

definition apply_control :: "instant \<Rightarrow> control_message \<Rightarrow> control_opcode \<Rightarrow> group_node \<Rightarrow> group_node" where
  "apply_control now c opcode n =
     (case opcode of
        PrepareTransition \<Rightarrow>
          (if pending_transition_id n = c_transition_id c
              \<and> c_sender_id c \<ge> opt_or (pending_commit_sender n) (- 1)
           then n
           else (let n1 = n\<lparr>pending_transition_id := c_transition_id c,
                            pending_commit_sender := Some (c_sender_id c),
                            transition_state := TPrepared\<rparr>;
                     n2 = note_coordinator_activity now n1
                 in n2\<lparr>execute_deadline := Some (now + T_EXECUTE_MAX_MS)\<rparr>))
      | ReadyForTransition \<Rightarrow> n\<lparr>transition_state := TReady, prepare_deadline := None\<rparr>
      | ExecuteTransition \<Rightarrow>
          note_coordinator_activity now
            (apply_transition (c_transition_id c)
              (n\<lparr>execute_deadline := None, pending_commit_sender := None\<rparr>))
      | AbortTransition \<Rightarrow>
          n\<lparr>prepare_deadline := None, execute_deadline := None, pending_commit_sender := None,
            transition_state := TAborted, pending_transition_id := 0\<rparr>
      | GroupStateDigestResponse \<Rightarrow>
          (if state n = Resyncing then transition Active n else n)
      | CapabilitiesAdvertise \<Rightarrow>
          (if is_coordinator_claim (c_args c)
           then (let n1 = note_coordinator_activity now n;
                     n2 = (if is_coordinator n1 \<and> c_sender_id c < member_id n1
                           then n1\<lparr>is_coordinator := False\<rparr> else n1)
                 in push_event (CoordinatorClaim (c_sender_id c)) n2)
           else n)
      | _ \<Rightarrow> n)"

definition handle_control ::
    "control_message serialiser \<Rightarrow> instant \<Rightarrow> bytes \<Rightarrow> group_node \<Rightarrow> group_node" where
  "handle_control cc now plain n =
     (case control_from_cbor cc plain of
        Inl _ \<Rightarrow> emit_err_spec STREAM_POLICY_VIOLATION ''control decode'' n
      | Inr c \<Rightarrow>
        (case opcode_try_from (c_opcode c) of
           Inl _ \<Rightarrow> emit_err_spec STREAM_POLICY_VIOLATION ''unknown opcode'' n
         | Inr opcode \<Rightarrow>
           (if \<not> tid_ok opcode (c_transition_id c) n
            then emit_err_spec TRANSITION_MISMATCH
                   (''control tid='' @ dec_word (c_transition_id c) @ '' not valid for ''
                    @ opcode_debug opcode @ '' (last='' @ dec_word (last_transition_id n)
                    @ '', pending='' @ dec_word (pending_transition_id n) @ '')'') n
            else push_event (control_event c opcode) (apply_control now c opcode n))))"

definition deliver_frame ::
    "control_message serialiser \<Rightarrow> sealer \<Rightarrow> instant \<Rightarrow> gbp_frame \<Rightarrow> group_node \<Rightarrow> group_node" where
  "deliver_frame cc s now frame n =
     (if f_version frame \<noteq> 1 then emit_err_spec UNSUPPORTED_VERSION ''version != 1'' n
      else if group_id_array frame \<noteq> group_id n then emit_err_spec UNKNOWN_GROUP ''group_id'' n
      else if f_epoch frame \<noteq> current_epoch n
      then trigger_resync
             (emit_err_spec EPOCH_MISMATCH
                (''got '' @ dec_word (f_epoch frame) @ '', expected '' @ dec_word (current_epoch n)) n)
      else case validate_payload_size frame of
        Inl e \<Rightarrow> emit_err_spec STREAM_POLICY_VIOLATION (''payload size: '' @ codec_error_display e) n
      | Inr _ \<Rightarrow>
      (case stream_type_typed frame of
        Inl _ \<Rightarrow> emit_err_spec STREAM_POLICY_VIOLATION ''unknown stream_type'' n
      | Inr st \<Rightarrow>
        (if st \<noteq> Control \<and> flags_has (f_flags frame) CRITICAL
            \<and> f_transition_id frame \<noteq> last_transition_id n
         then emit_err_spec TRANSITION_MISMATCH
                (''got tid='' @ dec_word (f_transition_id frame) @ '', expected ''
                 @ dec_word (last_transition_id n)) n
         else
         (let key = (st, f_stream_id frame); hw = opt_or (in_hw n key) 0 in
          if f_sequence_no frame \<le> hw
          then emit_err_spec REPLAY_DETECTED
                 (''st='' @ stream_display st @ '' sid='' @ dec_word (f_stream_id frame)
                  @ '' seq='' @ dec_word (f_sequence_no frame) @ '' hw='' @ dec_word hw) n
          else
          (let n1 = n\<lparr>in_hw := (in_hw n)(key \<mapsto> f_sequence_no frame)\<rparr> in
           case openf s st (f_sequence_no frame) (f_encrypted_payload frame) of
             Inl e \<Rightarrow> emit_err_named DECRYPT_FAILED Crypto True False
                        (''aead open: '' @ mls_error_display e) n1
           | Inr plain \<Rightarrow>
             (if st = Control then handle_control cc now plain n1
              else push_event
                (PayloadReceived
                  \<lparr>dp_stream_type = st, dp_stream_id = f_stream_id frame,
                   dp_sequence_no = f_sequence_no frame, dp_flags = f_flags frame,
                   dp_plaintext = plain, dp_codec = frame_payload_codec frame\<rparr>) n1))))))"

definition on_wire ::
    "gbp_frame serialiser \<Rightarrow> control_message serialiser \<Rightarrow> sealer \<Rightarrow> instant \<Rightarrow> bytes \<Rightarrow> group_node \<Rightarrow>
      group_node \<times> event list" where
  "on_wire fc cc s now wire n =
     (case frame_decode fc wire of
        Inl e \<Rightarrow> drain_events
                  (emit_err_spec STREAM_POLICY_VIOLATION (''frame decode: '' @ codec_error_display e) n)
      | Inr frame \<Rightarrow> drain_events (deliver_frame cc s now frame n))"

subsection \<open>Timeouts\<close>

definition check_timeouts :: "instant \<Rightarrow> group_node \<Rightarrow> group_node \<times> event list" where
  "check_timeouts now n =
     (let n1 = (case prepare_deadline n of
            Some d \<Rightarrow>
              (if now \<ge> d
               then emit_err_spec PREPARE_TIMEOUT ''T_prepare_max exceeded''
                      (n\<lparr>prepare_deadline := None, execute_deadline := None,
                         pending_transition_id := 0, transition_state := TAborted\<rparr>)
               else n)
          | None \<Rightarrow> n);
          n2 = (case execute_deadline n1 of
            Some d \<Rightarrow>
              (if now \<ge> d
               then emit_err_spec EXECUTE_TIMEOUT ''T_execute_max exceeded''
                      (n1\<lparr>execute_deadline := None\<rparr>)
               else n1)
          | None \<Rightarrow> n1);
          n3 = (case coordinator_last_seen n2 of
            Some t \<Rightarrow>
              (if now - t \<ge> T_COORDINATOR_GRACE_MS
               then push_event CoordinatorElectionNeeded
                      (emit_err_spec COORDINATOR_GONE ''coordinator silence exceeded T_coordinator_grace''
                        (n2\<lparr>coordinator_last_seen := None, is_coordinator := False\<rparr>))
               else n2)
          | None \<Rightarrow> n2)
      in drain_events n3)"

subsection \<open>The validation pipeline as a verdict\<close>

text \<open>
  The checks of \<^verbatim>\<open>deliver_frame\<close> only read the node, so the pipeline is a pure verdict on a frame
  followed by one action. The verdict is stated on its own, as the ordered list of checks of the
  protocol (section 6.2), and \<open>deliver_frame_verdict\<close> shows that the code carries it out.
\<close>

datatype verdict = Accept stream_type | Reject u16 string | RejectResync u16 string

definition frame_verdict :: "gbp_frame \<Rightarrow> group_node \<Rightarrow> verdict" where
  "frame_verdict f n =
     (if f_version f \<noteq> 1 then Reject UNSUPPORTED_VERSION ''version != 1''
      else if group_id_array f \<noteq> group_id n then Reject UNKNOWN_GROUP ''group_id''
      else if f_epoch f \<noteq> current_epoch n
      then RejectResync EPOCH_MISMATCH
             (''got '' @ dec_word (f_epoch f) @ '', expected '' @ dec_word (current_epoch n))
      else if unat (f_payload_size f) \<noteq> length (f_encrypted_payload f)
      then Reject STREAM_POLICY_VIOLATION
             (''payload size: '' @ codec_error_display PayloadSizeMismatch)
      else case stream_type_typed f of
        Inl _ \<Rightarrow> Reject STREAM_POLICY_VIOLATION ''unknown stream_type''
      | Inr st \<Rightarrow>
        (if st \<noteq> Control \<and> flags_has (f_flags f) CRITICAL \<and> f_transition_id f \<noteq> last_transition_id n
         then Reject TRANSITION_MISMATCH
                (''got tid='' @ dec_word (f_transition_id f) @ '', expected ''
                 @ dec_word (last_transition_id n))
         else if f_sequence_no f \<le> opt_or (in_hw n (st, f_stream_id f)) 0
         then Reject REPLAY_DETECTED
                (''st='' @ stream_display st @ '' sid='' @ dec_word (f_stream_id f)
                 @ '' seq='' @ dec_word (f_sequence_no f)
                 @ '' hw='' @ dec_word (opt_or (in_hw n (st, f_stream_id f)) 0))
         else Accept st))"

definition accept_frame ::
    "control_message serialiser \<Rightarrow> sealer \<Rightarrow> instant \<Rightarrow> stream_type \<Rightarrow> gbp_frame \<Rightarrow> group_node \<Rightarrow> group_node" where
  "accept_frame cc s now st f n =
     (let n1 = n\<lparr>in_hw := (in_hw n)((st, f_stream_id f) \<mapsto> f_sequence_no f)\<rparr> in
      case openf s st (f_sequence_no f) (f_encrypted_payload f) of
        Inl e \<Rightarrow> emit_err_named DECRYPT_FAILED Crypto True False
                   (''aead open: '' @ mls_error_display e) n1
      | Inr plain \<Rightarrow>
        (if st = Control then handle_control cc now plain n1
         else push_event
           (PayloadReceived
             \<lparr>dp_stream_type = st, dp_stream_id = f_stream_id f,
              dp_sequence_no = f_sequence_no f, dp_flags = f_flags f,
              dp_plaintext = plain, dp_codec = frame_payload_codec f\<rparr>) n1))"

lemma deliver_frame_verdict:
  "deliver_frame cc s now f n =
     (case frame_verdict f n of
        Accept st \<Rightarrow> accept_frame cc s now st f n
      | Reject code reason \<Rightarrow> emit_err_spec code reason n
      | RejectResync code reason \<Rightarrow> trigger_resync (emit_err_spec code reason n))"
  unfolding deliver_frame_def frame_verdict_def accept_frame_def validate_payload_size_def Let_def
  by (simp split: sum.split)

lemma frame_verdict_Accept:
  assumes "frame_verdict f n = Accept st"
  shows "f_version f = 1" "group_id_array f = group_id n" "f_epoch f = current_epoch n"
    "unat (f_payload_size f) = length (f_encrypted_payload f)" "f_stream_type f = stream_as_u8 st"
    "st \<noteq> Control \<Longrightarrow> flags_has (f_flags f) CRITICAL \<Longrightarrow> f_transition_id f = last_transition_id n"
    "opt_or (in_hw n (st, f_stream_id f)) 0 < f_sequence_no f"
proof -
  from assms have v: "f_version f = 1" "group_id_array f = group_id n" "f_epoch f = current_epoch n"
    "unat (f_payload_size f) = length (f_encrypted_payload f)"
    by (auto simp: frame_verdict_def split: if_splits)
  with assms obtain st' where st': "stream_type_typed f = Inr st'"
    by (auto simp: frame_verdict_def split: sum.splits)
  with assms v show "f_version f = 1" "group_id_array f = group_id n" "f_epoch f = current_epoch n"
    "unat (f_payload_size f) = length (f_encrypted_payload f)" "f_stream_type f = stream_as_u8 st"
    "st \<noteq> Control \<Longrightarrow> flags_has (f_flags f) CRITICAL \<Longrightarrow> f_transition_id f = last_transition_id n"
    "opt_or (in_hw n (st, f_stream_id f)) 0 < f_sequence_no f"
    by (auto simp: frame_verdict_def not_le stream_type_typed_Inr split: if_splits)
qed

lemma frame_verdict_AcceptI:
  assumes "f_version f = 1" "group_id_array f = group_id n" "f_epoch f = current_epoch n"
    "unat (f_payload_size f) = length (f_encrypted_payload f)" "f_stream_type f = stream_as_u8 st"
    "st \<noteq> Control \<Longrightarrow> flags_has (f_flags f) CRITICAL \<Longrightarrow> f_transition_id f = last_transition_id n"
    "opt_or (in_hw n (st, f_stream_id f)) 0 < f_sequence_no f"
  shows "frame_verdict f n = Accept st"
proof -
  have "stream_type_typed f = Inr st" using assms(5) by (simp add: stream_type_typed_Inr)
  then show ?thesis using assms by (auto simp: frame_verdict_def)
qed

end
