(* ===== verification/Gbp_Node_Runs.thy ===== *)
theory Gbp_Node_Runs
  imports Gbp_Node
begin

section \<open>Runs of a node\<close>

text \<open>
  The public methods of \<^verbatim>\<open>GroupNode\<close> as calls, runs as sequences of calls, and the log of a run: all
  events the node has produced, drained or still queued. Properties of the log are stated with
  monitors: an automaton over events that accepts or refuses a log. The interface \<open>monitor\<close> says what
  a monitor and a relation between its states and nodes must satisfy on the primitive updates of the
  node; from it, every method and so every run keeps the relation and is accepted. It is used three
  times: for the replay window, for the state machine and for the transition ids.
\<close>

subsection \<open>Calls\<close>

datatype call =
    BootstrapAsCreator u64
  | BootstrapAsJoiner u64 u32
  | DrainEvents
  | RestoreOutSeq bytes
  | SendPayload sealer u32 stream_type u32 u16 bytes payload_codec
  | SendControl sealer instant u32 control_opcode u32 u32 bytes
  | OnWire sealer instant bytes
  | ApplyTransition u32
  | TriggerResync
  | CheckTimeouts instant
  | NoteCoordinatorActivity instant
  | ClaimCoordinator sealer instant u32

text \<open>One call on a node, with the events it hands to the caller.\<close>

fun exec :: "gbp_frame serialiser \<Rightarrow> control_message serialiser \<Rightarrow> call \<Rightarrow> group_node \<Rightarrow> group_node \<times> event list" where
  "exec fc cc (BootstrapAsCreator e) n = (bootstrap_as_creator e n, [])"
| "exec fc cc (BootstrapAsJoiner e tid) n = (bootstrap_as_joiner e tid n, [])"
| "exec fc cc DrainEvents n = drain_events n"
| "exec fc cc (RestoreOutSeq bs) n = (restore_out_seq bs n, [])"
| "exec fc cc (SendPayload s to st sid fl pt cd) n = (fst (send_payload fc s to st sid fl pt cd n), [])"
| "exec fc cc (SendControl s now to oc tid rid args) n =
     (fst (send_control fc cc s now to oc tid rid args n), [])"
| "exec fc cc (OnWire s now wire) n = on_wire fc cc s now wire n"
| "exec fc cc (ApplyTransition tid) n = (apply_transition tid n, [])"
| "exec fc cc TriggerResync n = (trigger_resync n, [])"
| "exec fc cc (CheckTimeouts now) n = check_timeouts now n"
| "exec fc cc (NoteCoordinatorActivity now) n = (note_coordinator_activity now n, [])"
| "exec fc cc (ClaimCoordinator s now to) n = (fst (claim_coordinator fc cc s now to n), [])"

text \<open>A run: the node after the calls, and the events drained so far.\<close>

fun exec_all :: "gbp_frame serialiser \<Rightarrow> control_message serialiser \<Rightarrow> call list \<Rightarrow> group_node \<Rightarrow> group_node \<times> event list" where
  "exec_all fc cc [] n = (n, [])"
| "exec_all fc cc (c # cs) n =
     (case exec fc cc c n of (n1, evs) \<Rightarrow> case exec_all fc cc cs n1 of (n2, evs') \<Rightarrow> (n2, evs @ evs'))"

definition run_log :: "gbp_frame serialiser \<Rightarrow> control_message serialiser \<Rightarrow> call list \<Rightarrow> group_node \<Rightarrow> event list" where
  "run_log fc cc cs n = (case exec_all fc cc cs n of (n', drained) \<Rightarrow> drained @ events n')"

text \<open>
  The callers' obligation on transition ids, as a predicate \<open>adm\<close> on the last applied id and the new
  one: it concerns the calls that set the pending id or apply a transition directly.
\<close>

fun call_ok :: "(u32 \<Rightarrow> u32 \<Rightarrow> bool) \<Rightarrow> call \<Rightarrow> group_node \<Rightarrow> bool" where
  "call_ok adm (BootstrapAsJoiner e tid) n = (tid > 0 \<longrightarrow> adm (last_transition_id n) tid)"
| "call_ok adm (SendControl s now to oc tid rid args) n =
     (oc = PrepareTransition \<longrightarrow> adm (last_transition_id n) tid)"
| "call_ok adm (ApplyTransition tid) n = adm (last_transition_id n) tid"
| "call_ok adm _ n = True"

fun calls_ok :: "(u32 \<Rightarrow> u32 \<Rightarrow> bool) \<Rightarrow> gbp_frame serialiser \<Rightarrow> control_message serialiser \<Rightarrow> call list \<Rightarrow> group_node \<Rightarrow> bool" where
  "calls_ok adm fc cc [] n = True"
| "calls_ok adm fc cc (c # cs) n = (call_ok adm c n \<and> calls_ok adm fc cc cs (fst (exec fc cc c n)))"

lemma call_ok_True [simp]: "call_ok (\<lambda>_ _. True) c n"
  by (cases c) simp_all

lemma calls_ok_True [simp]: "calls_ok (\<lambda>_ _. True) fc cc cs n"
  by (induction cs arbitrary: n) simp_all

subsection \<open>Monitors\<close>

lemma transition_last [simp]: "last_transition_id (transition next n) = last_transition_id n"
  by (simp add: transition_def push_event_def)

fun quiet :: "event \<Rightarrow> bool" where
  "quiet (StateChanged a b) = False"
| "quiet (PayloadReceived p) = False"
| "quiet (EpochAdvanced e t) = False"
| "quiet _ = True"

fun run_mon :: "('m \<Rightarrow> event \<Rightarrow> 'm option) \<Rightarrow> 'm \<Rightarrow> event list \<Rightarrow> 'm option" where
  "run_mon mon m [] = Some m"
| "run_mon mon m (e # es) = (case mon m e of None \<Rightarrow> None | Some m' \<Rightarrow> run_mon mon m' es)"

lemma run_mon_append:
  "run_mon mon m (xs @ ys) = (case run_mon mon m xs of None \<Rightarrow> None | Some m' \<Rightarrow> run_mon mon m' ys)"
  by (induction xs arbitrary: m) (auto split: option.splits)

locale monitor =
  fixes mon :: "'m \<Rightarrow> event \<Rightarrow> 'm option"
    and R :: "group_node \<Rightarrow> 'm \<Rightarrow> bool"
    and adm :: "u32 \<Rightarrow> u32 \<Rightarrow> bool"
  assumes mon_quiet: "quiet ev \<Longrightarrow> mon m ev = Some m"
    and R_frame: "R n m \<Longrightarrow> state n' = state n \<Longrightarrow> in_hw n' = in_hw n \<Longrightarrow>
      last_transition_id n' = last_transition_id n \<Longrightarrow>
      pending_transition_id n' = pending_transition_id n \<or> pending_transition_id n' = 0
        \<or> adm (last_transition_id n) (pending_transition_id n') \<Longrightarrow> R n' m"
    and R_state: "R n m \<Longrightarrow> b = Failed \<or> b \<noteq> Closed \<and> can_transition_to (state n) b \<Longrightarrow>
      \<exists>m'. mon m (StateChanged (state n) b) = Some m' \<and> R (n\<lparr>state := b\<rparr>) m'"
    and R_window: "R n m \<Longrightarrow> opt_or (in_hw n k) 0 < sq \<Longrightarrow> R (n\<lparr>in_hw := (in_hw n)(k \<mapsto> sq)\<rparr>) m"
    and R_payload: "R n m \<Longrightarrow> opt_or (in_hw n (dp_stream_type p, dp_stream_id p)) 0 < dp_sequence_no p \<Longrightarrow>
      \<exists>m'. mon m (PayloadReceived p) = Some m'
        \<and> R (n\<lparr>in_hw := (in_hw n)((dp_stream_type p, dp_stream_id p) \<mapsto> dp_sequence_no p)\<rparr>) m'"
    and R_apply: "R n m \<Longrightarrow> adm (last_transition_id n) tid \<Longrightarrow>
      \<exists>m'. mon m (EpochAdvanced e tid) = Some m'
        \<and> R (n\<lparr>last_transition_id := tid, pending_transition_id := 0, in_hw := Map.empty\<rparr>) m'"
    and R_pending: "R n m \<Longrightarrow> pending_transition_id n \<noteq> 0 \<Longrightarrow>
      adm (last_transition_id n) (pending_transition_id n)"
    and adm_newer: "a < tid \<Longrightarrow> adm a tid"
begin

text \<open>One update of the node, with the events it appends.\<close>

definition sim :: "group_node \<Rightarrow> group_node \<Rightarrow> bool" where
  "sim n n' \<longleftrightarrow>
     (\<forall>m. R n m \<longrightarrow> (\<exists>new m'. events n' = events n @ new \<and> run_mon mon m new = Some m' \<and> R n' m'))"

lemma sim_frame [intro]:
  "events n' = events n \<Longrightarrow> state n' = state n \<Longrightarrow> in_hw n' = in_hw n \<Longrightarrow>
   last_transition_id n' = last_transition_id n \<Longrightarrow>
   pending_transition_id n' = pending_transition_id n \<or> pending_transition_id n' = 0
     \<or> adm (last_transition_id n) (pending_transition_id n') \<Longrightarrow> sim n n'"
  unfolding sim_def using R_frame by (metis append_Nil2 run_mon.simps(1))

lemma sim_reachable: "(\<And>m. R n m \<Longrightarrow> sim n n') \<Longrightarrow> sim n n'"
  unfolding sim_def by blast

lemma sim_refl: "sim n n"
  by (rule sim_frame) simp_all

lemma sim_trans [trans]:
  assumes "sim a b" "sim b c" shows "sim a c"
  unfolding sim_def
proof (intro allI impI)
  fix m assume "R a m"
  then obtain new m' where 1: "events b = events a @ new" "run_mon mon m new = Some m'" "R b m'"
    using assms(1) by (auto simp: sim_def)
  then obtain new' m'' where "events c = events b @ new'" "run_mon mon m' new' = Some m''" "R c m''"
    using assms(2) by (auto simp: sim_def)
  then show "\<exists>new m'. events c = events a @ new \<and> run_mon mon m new = Some m' \<and> R c m'"
    using 1 by (intro exI [of _ "new @ new'"] exI [of _ m'']) (simp add: run_mon_append)
qed

lemma sim_event:
  assumes "\<And>m. R n m \<Longrightarrow> \<exists>m'. mon m e = Some m' \<and> R n' m'" and "events n' = events n"
  shows "sim n (push_event e n')"
  unfolding sim_def
proof (intro allI impI)
  fix m assume "R n m"
  then obtain m' where m': "mon m e = Some m'" "R n' m'" using assms(1) by blast
  then have "R (push_event e n') m'" using R_frame [OF m'(2)] by (simp add: push_event_def)
  then show "\<exists>new m'. events (push_event e n') = events n @ new \<and> run_mon mon m new = Some m'
      \<and> R (push_event e n') m'"
    using m' assms(2) by (intro exI [of _ "[e]"] exI [of _ m']) (simp add: push_event_def)
qed

lemma sim_quiet: "quiet e \<Longrightarrow> sim n (push_event e n)"
  by (rule sim_event) (auto simp: mon_quiet)

lemma sim_state:
  "b = Failed \<or> b \<noteq> Closed \<and> can_transition_to (state n) b \<Longrightarrow>
     sim n (push_event (StateChanged (state n) b) (n\<lparr>state := b\<rparr>))"
  by (rule sim_event) (auto intro: R_state)

lemma sim_transition: "next \<noteq> Closed \<Longrightarrow> sim n (transition next n)"
  by (simp add: transition_def sim_refl sim_state)

lemma sim_emit_err_named: "sim n (emit_err_named c k r f reason n)"
proof -
  have "sim n (push_event (ErrorEv c k' r' f' reason) n)" for k' r' f' by (rule sim_quiet) simp
  moreover have "sim n (push_event (StateChanged (state n1) Failed) (n1\<lparr>state := Failed\<rparr>))"
    if "sim n n1" for n1
    using that sim_state [of Failed n1] sim_trans by blast
  ultimately show ?thesis by (simp add: emit_err_named_def Let_def split: option.splits)
qed

lemma sim_emit_err_spec: "sim n (emit_err_spec c reason n)"
  by (simp add: emit_err_spec_def sim_emit_err_named split: option.splits)

lemma sim_trigger_resync: "sim n (trigger_resync n)"
  by (simp add: trigger_resync_def sim_transition sim_refl)

lemma sim_apply_transition: "adm (last_transition_id n) tid \<Longrightarrow> sim n (apply_transition tid n)"
  unfolding apply_transition_def Let_def
proof (rule sim_event)
  fix m assume R: "R n m" and adm: "adm (last_transition_id n) tid"
  let ?n' = "n\<lparr>current_epoch := current_epoch n + 1, last_transition_id := tid,
      pending_transition_id := 0, pending_commit_sender := None, transition_state := TExecuted,
      out_seq := Map.empty, in_hw := Map.empty\<rparr>"
  from R_apply [OF R adm, of "current_epoch ?n'"] obtain m' where
    m': "mon m (EpochAdvanced (current_epoch ?n') tid) = Some m'"
      "R (n\<lparr>last_transition_id := tid, pending_transition_id := 0, in_hw := Map.empty\<rparr>) m'" by blast
  have "R ?n' m'" by (rule R_frame [OF m'(2)]) simp_all
  with m'(1) show "\<exists>m'. mon m (EpochAdvanced (current_epoch ?n') tid) = Some m' \<and> R ?n' m'" by blast
qed simp

lemma sim_bootstrap_as_creator: "sim n (bootstrap_as_creator e n)"
proof -
  have "sim a (a\<lparr>current_epoch := e\<rparr>)" for a by (rule sim_frame) simp_all
  then show ?thesis unfolding bootstrap_as_creator_def Let_def
    by (meson sim_trans sim_transition node_state.distinct)
qed

lemma sim_bootstrap_as_joiner:
  assumes "tid > 0 \<longrightarrow> adm (last_transition_id n) tid"
  shows "sim n (bootstrap_as_joiner e tid n)"
proof -
  let ?n2 = "transition EstablishingGroup (transition Connecting n)"
  let ?n4 = "if tid > 0 then ?n2\<lparr>current_epoch := e, pending_transition_id := tid, transition_state := TPrepared\<rparr>
    else ?n2\<lparr>current_epoch := e\<rparr>"
  have "sim n ?n2" by (meson sim_trans sim_transition node_state.distinct)
  moreover have "sim ?n2 ?n4" using assms by (intro sim_frame) auto
  ultimately have "sim n (transition Active ?n4)"
    by (meson sim_trans sim_transition node_state.distinct)
  then show ?thesis by (simp add: bootstrap_as_joiner_def Let_def cong: if_cong)
qed

lemma sim_send_payload: "sim n (fst (send_payload fc s to st sid fl pt cd n))"
  by (auto simp: send_payload_def next_seq_def Let_def split: sum.split)

lemma sim_send_control:
  assumes "oc = PrepareTransition \<longrightarrow> adm (last_transition_id n) tid"
  shows "sim n (fst (send_control fc cc s now to oc tid rid args n))"
proof -
  have "sim n (mirror_control now oc tid n)"
    using assms by (intro sim_frame) (auto simp: mirror_control_def split: control_opcode.split)
  then show ?thesis unfolding send_control_def Let_def by (rule sim_trans) (rule sim_send_payload)
qed

lemma sim_claim_coordinator: "sim n (fst (claim_coordinator fc cc s now to n))"
proof -
  let ?n1 = "n\<lparr>is_coordinator := True, coordinator_last_seen := Some now\<rparr>"
  have "sim n (push_event BecameCoordinator ?n1)"
    by (rule sim_trans [of _ ?n1]) (auto intro: sim_quiet)
  then show ?thesis
    unfolding claim_coordinator_def Let_def by (rule sim_trans) (rule sim_send_control, simp)
qed

lemma sim_apply_control:
  assumes "tid_ok oc (c_transition_id c) n"
  shows "sim n (apply_control now c oc n)"
proof (cases oc)
  case PrepareTransition
  then show ?thesis using assms
    by (auto simp: apply_control_def tid_ok_def note_coordinator_activity_def Let_def
        intro!: sim_frame adm_newer)
next
  case ExecuteTransition
  let ?n1 = "n\<lparr>execute_deadline := None, pending_commit_sender := None\<rparr>"
  have tid: "pending_transition_id n \<noteq> 0" "c_transition_id c = pending_transition_id n"
    using assms ExecuteTransition by (simp_all add: tid_ok_def)
  have act: "sim a (note_coordinator_activity now a)" for a
    by (rule sim_frame) (simp_all add: note_coordinator_activity_def)
  have "sim n (note_coordinator_activity now (apply_transition (c_transition_id c) ?n1))"
  proof (rule sim_reachable)
    fix m assume "R n m"
    then have "sim ?n1 (apply_transition (c_transition_id c) ?n1)"
      using tid R_pending by (intro sim_apply_transition) auto
    moreover have "sim n ?n1" by (rule sim_frame) simp_all
    ultimately show "sim n (note_coordinator_activity now (apply_transition (c_transition_id c) ?n1))"
      using act sim_trans by blast
  qed
  then show ?thesis using ExecuteTransition by (simp add: apply_control_def)
next
  case CapabilitiesAdvertise
  let ?n1 = "note_coordinator_activity now n"
  let ?n2 = "if is_coordinator ?n1 \<and> c_sender_id c < member_id ?n1
    then ?n1\<lparr>is_coordinator := False\<rparr> else ?n1"
  have "sim n ?n2" by (rule sim_frame) (auto simp: note_coordinator_activity_def)
  then have "sim n (push_event (CoordinatorClaim (c_sender_id c)) ?n2)"
    by (rule sim_trans) (rule sim_quiet, simp)
  then show ?thesis using CapabilitiesAdvertise by (simp add: apply_control_def Let_def sim_refl)
qed (use assms in \<open>auto simp: apply_control_def sim_refl sim_transition\<close>)

lemma sim_handle_control: "sim n (handle_control cc now plain n)"
  unfolding handle_control_def
  by (auto simp: sim_emit_err_spec control_event_def split: sum.split
      intro!: sim_trans [OF sim_apply_control sim_quiet])

lemma sim_accept_frame:
  assumes "opt_or (in_hw n (st, f_stream_id frame)) 0 < f_sequence_no frame"
  shows "sim n (accept_frame cc s now st frame n)"
proof -
  let ?k = "(st, f_stream_id frame)"
  let ?n1 = "n\<lparr>in_hw := (in_hw n)(?k \<mapsto> f_sequence_no frame)\<rparr>"
  have w: "sim n ?n1"
    unfolding sim_def using R_window assms by (auto intro!: exI [of _ "[]"])
  have pay: "sim n (push_event (PayloadReceived p) ?n1)"
    if "dp_stream_type p = st" "dp_stream_id p = f_stream_id frame" "dp_sequence_no p = f_sequence_no frame"
    for p
    using R_payload [of n _ p] that assms by (intro sim_event) auto
  show ?thesis
  proof (cases "openf s st (f_sequence_no frame) (f_encrypted_payload frame)")
    case (Inl e)
    then show ?thesis using sim_trans [OF w sim_emit_err_named] by (simp add: accept_frame_def Let_def)
  next
    case (Inr plain)
    let ?p = "\<lparr>dp_stream_type = st, dp_stream_id = f_stream_id frame,
      dp_sequence_no = f_sequence_no frame, dp_flags = f_flags frame, dp_plaintext = plain,
      dp_codec = frame_payload_codec frame\<rparr>"
    show ?thesis
    proof (cases "st = Control")
      case True
      then show ?thesis using Inr sim_trans [OF w sim_handle_control, of cc now plain]
        by (simp add: accept_frame_def Let_def)
    next
      case False
      then show ?thesis using Inr pay [of ?p] by (simp add: accept_frame_def Let_def)
    qed
  qed
qed

lemma sim_deliver_frame: "sim n (deliver_frame cc s now frame n)"
proof (cases "frame_verdict frame n")
  case (Accept st)
  then show ?thesis
    using sim_accept_frame frame_verdict_Accept [OF Accept] by (simp add: deliver_frame_verdict)
next
  case (Reject code reason)
  then show ?thesis by (simp add: deliver_frame_verdict sim_emit_err_spec)
next
  case (RejectResync code reason)
  then show ?thesis
    using sim_trans [OF sim_emit_err_spec sim_trigger_resync] by (simp add: deliver_frame_verdict)
qed

lemma sim_check_timeouts: "\<exists>n'. check_timeouts now n = drain_events n' \<and> sim n n'"
proof -
  have err: "sim a (emit_err_spec c r b)" if "sim a b" for a b c r
    using that sim_emit_err_spec by (rule sim_trans)
  define n1 where "n1 = (case prepare_deadline n of
      Some d \<Rightarrow> (if now \<ge> d then emit_err_spec PREPARE_TIMEOUT ''T_prepare_max exceeded''
        (n\<lparr>prepare_deadline := None, execute_deadline := None, pending_transition_id := 0,
           transition_state := TAborted\<rparr>) else n) | None \<Rightarrow> n)"
  have 1: "sim n n1" unfolding n1_def by (auto intro!: err sim_refl split: option.split)
  define n2 where "n2 = (case execute_deadline n1 of
      Some d \<Rightarrow> (if now \<ge> d then emit_err_spec EXECUTE_TIMEOUT ''T_execute_max exceeded''
        (n1\<lparr>execute_deadline := None\<rparr>) else n1) | None \<Rightarrow> n1)"
  have 2: "sim n1 n2" unfolding n2_def by (auto intro!: err sim_refl split: option.split)
  define n3 where "n3 = (case coordinator_last_seen n2 of
      Some t \<Rightarrow> (if now - t \<ge> T_COORDINATOR_GRACE_MS then push_event CoordinatorElectionNeeded
        (emit_err_spec COORDINATOR_GONE ''coordinator silence exceeded T_coordinator_grace''
          (n2\<lparr>coordinator_last_seen := None, is_coordinator := False\<rparr>)) else n2) | None \<Rightarrow> n2)"
  have 3: "sim n2 n3" unfolding n3_def
    by (auto intro!: sim_trans [OF err sim_quiet] sim_refl split: option.split)
  have "check_timeouts now n = drain_events n3"
    unfolding check_timeouts_def n3_def n2_def n1_def Let_def by (rule refl)
  then show ?thesis using 1 2 3 sim_trans by blast
qed

lemma sim_on_wire: "\<exists>n'. on_wire fc cc s now wire n = drain_events n' \<and> sim n n'"
  unfolding on_wire_def using sim_emit_err_spec sim_deliver_frame by (auto split: sum.split)

lemma sim_exec:
  assumes "call_ok adm c n"
  shows "sim n (fst (exec fc cc c n)) \<and> snd (exec fc cc c n) = []
    \<or> (\<exists>n'. sim n n' \<and> exec fc cc c n = drain_events n')"
proof (cases c)
  case (OnWire s now wire)
  then show ?thesis using sim_on_wire [of fc cc s now wire n] by auto
next
  case (CheckTimeouts now)
  then show ?thesis using sim_check_timeouts [of now n] by auto
next
  case (RestoreOutSeq bs)
  then show ?thesis by (auto simp: restore_out_seq_def sim_refl split: option.split)
next
  case (NoteCoordinatorActivity now)
  then show ?thesis by (auto simp: note_coordinator_activity_def)
next
  case DrainEvents
  then show ?thesis using sim_refl by auto
qed (use assms in \<open>simp_all add: sim_bootstrap_as_creator sim_bootstrap_as_joiner sim_send_payload
  sim_send_control sim_apply_transition sim_trigger_resync sim_claim_coordinator\<close>)

text \<open>Every run is accepted by the monitor, and the relation holds at its end.\<close>

lemma run_accepted:
  assumes "R n m" and "calls_ok adm fc cc cs n" and "exec_all fc cc cs n = (n', drained)"
  shows "\<exists>new m'. drained @ events n' = events n @ new \<and> run_mon mon m new = Some m' \<and> R n' m'"
  using assms
proof (induction cs arbitrary: n m drained)
  case Nil
  then show ?case by (intro exI [of _ "[]"]) simp
next
  case (Cons c cs)
  obtain n1 evs where e: "exec fc cc c n = (n1, evs)" by force
  obtain evs' where e': "exec_all fc cc cs n1 = (n', evs')" "drained = evs @ evs'"
    using Cons.prems(3) e by (auto split: prod.splits)
  obtain n0 where n0: "sim n n0" "exec fc cc c n = (n0, []) \<or> exec fc cc c n = drain_events n0"
    using sim_exec [of c n fc cc] Cons.prems(2) e by auto
  obtain new m1 where new: "events n0 = events n @ new" "run_mon mon m new = Some m1" "R n0 m1"
    using n0(1) Cons.prems(1) by (auto simp: sim_def)
  have ev: "evs @ events n1 = events n0" and R1: "R n1 m1"
    using n0(2) e new(3) R_frame [OF new(3), of n1] by (auto simp: drain_events_def)
  obtain new' m' where new': "evs' @ events n' = events n1 @ new'" "run_mon mon m1 new' = Some m'"
      "R n' m'"
    using Cons.IH [OF R1 _ e'(1)] Cons.prems(2) e by auto
  have "drained @ events n' = events n @ new @ new'"
    using e'(2) new'(1) ev new(1) by (metis append.assoc)
  then show ?case using new(2) new'(2,3)
    by (intro exI [of _ "new @ new'"] exI [of _ m']) (simp add: run_mon_append)
qed

lemma run_log_accepted:
  assumes "R n m" and "calls_ok adm fc cc cs n" and "events n = []"
  shows "\<exists>m'. run_mon mon m (run_log fc cc cs n) = Some m' \<and> R (fst (exec_all fc cc cs n)) m'"
  using run_accepted [OF assms(1,2), of "fst (exec_all fc cc cs n)" "snd (exec_all fc cc cs n)"] assms(3)
  by (auto simp: run_log_def split: prod.splits)

end

subsection \<open>The replay window\<close>

fun replay_mon :: "(stream_key \<rightharpoonup> u32) \<Rightarrow> event \<Rightarrow> (stream_key \<rightharpoonup> u32) option" where
  "replay_mon h (PayloadReceived p) =
     (if opt_or (h (dp_stream_type p, dp_stream_id p)) 0 < dp_sequence_no p
      then Some (h((dp_stream_type p, dp_stream_id p) \<mapsto> dp_sequence_no p)) else None)"
| "replay_mon h (EpochAdvanced e t) = Some Map.empty"
| "replay_mon h _ = Some h"

definition window_covers :: "group_node \<Rightarrow> (stream_key \<rightharpoonup> u32) \<Rightarrow> bool" where
  "window_covers n h \<longleftrightarrow> (\<forall>k. opt_or (h k) 0 \<le> opt_or (in_hw n k) 0)"

interpretation replay: monitor replay_mon window_covers "\<lambda>_ _. True"
proof
  fix e and m :: "stream_key \<rightharpoonup> u32" assume "quiet e"
  then show "replay_mon m e = Some m" by (cases e) simp_all
next
  fix n m k sq assume w: "window_covers n m" and sq: "opt_or (in_hw n k) 0 < sq"
  have "opt_or (m k) 0 \<le> opt_or (in_hw n k) 0" using w unfolding window_covers_def by blast
  then have "opt_or (m k) 0 \<le> sq" using sq by simp
  then show "window_covers (n\<lparr>in_hw := (in_hw n)(k \<mapsto> sq)\<rparr>) m"
    using w by (auto simp: window_covers_def)
next
  fix n m and p :: delivered_payload
  assume "window_covers n m" "opt_or (in_hw n (dp_stream_type p, dp_stream_id p)) 0 < dp_sequence_no p"
  then show "\<exists>m'. replay_mon m (PayloadReceived p) = Some m'
      \<and> window_covers (n\<lparr>in_hw := (in_hw n)((dp_stream_type p, dp_stream_id p) \<mapsto> dp_sequence_no p)\<rparr>) m'"
    by (auto simp: window_covers_def intro: le_less_trans)
qed (auto simp: window_covers_def)

lemma replay_mon_grows:
  assumes "run_mon replay_mon h ys = Some h'" and "\<forall>e t. EpochAdvanced e t \<notin> set ys"
  shows "opt_or (h k) 0 \<le> opt_or (h' k) 0"
  using assms
proof (induction ys arbitrary: h)
  case (Cons e ys)
  then obtain h1 where h1: "replay_mon h e = Some h1" "run_mon replay_mon h1 ys = Some h'"
    by (auto split: option.splits)
  have "opt_or (h k) 0 \<le> opt_or (h1 k) 0"
    using h1(1) Cons.prems(2) by (cases e) (auto split: if_splits)
  also have "\<dots> \<le> opt_or (h' k) 0" using Cons.IH [OF h1(2)] Cons.prems(2) by auto
  finally show ?case .
qed simp

lemma replay_mon_ordered:
  assumes "run_mon replay_mon h (xs @ PayloadReceived p # ys @ PayloadReceived q # zs) = Some h'"
    and "dp_stream_type p = dp_stream_type q" "dp_stream_id p = dp_stream_id q"
    and "\<forall>e t. EpochAdvanced e t \<notin> set ys"
  shows "dp_sequence_no p < dp_sequence_no q"
proof -
  let ?k = "(dp_stream_type q, dp_stream_id q)"
  obtain h0 where h0: "run_mon replay_mon h0 (PayloadReceived p # ys @ PayloadReceived q # zs) = Some h'"
    using assms(1) by (subst (asm) run_mon_append) (auto split: option.splits)
  then have "run_mon replay_mon (h0(?k \<mapsto> dp_sequence_no p)) (ys @ PayloadReceived q # zs) = Some h'"
    using assms(2,3) by (simp split: if_splits)
  then obtain h2 where h2: "run_mon replay_mon (h0(?k \<mapsto> dp_sequence_no p)) ys = Some h2"
    "run_mon replay_mon h2 (PayloadReceived q # zs) = Some h'"
    by (subst (asm) run_mon_append) (auto split: option.splits)
  then have "opt_or (h2 ?k) 0 < dp_sequence_no q" by (simp split: if_splits)
  with replay_mon_grows [OF h2(1) assms(4), of ?k] show ?thesis by simp
qed

subsection \<open>The state machine\<close>

fun fsm_mon :: "node_state \<Rightarrow> event \<Rightarrow> node_state option" where
  "fsm_mon s (StateChanged a b) =
     (if a = s \<and> (b = Failed \<or> b \<noteq> Closed \<and> can_transition_to a b) then Some b else None)"
| "fsm_mon s _ = Some s"

interpretation fsm: monitor fsm_mon "\<lambda>n s. state n = s" "\<lambda>_ _. True"
proof
  fix e and m :: node_state assume "quiet e"
  then show "fsm_mon m e = Some m" by (cases e) simp_all
qed auto

lemma fsm_mon_Failed: "run_mon fsm_mon Failed es = Some s \<Longrightarrow> s = Failed"
proof (induction es)
  case (Cons e es)
  then obtain s1 where s1: "fsm_mon Failed e = Some s1" "run_mon fsm_mon s1 es = Some s"
    by (auto split: option.splits)
  have "can_transition_to Failed b \<longleftrightarrow> b = Closed" for b by (cases b) simp_all
  then have "s1 = Failed" using s1(1) by (cases e) (auto split: if_splits)
  then show ?case using Cons.IH s1(2) by simp
qed simp

subsection \<open>Transition ids\<close>

fun tid_mon :: "u32 \<Rightarrow> event \<Rightarrow> u32 option" where
  "tid_mon l (EpochAdvanced e t) = (if l < t then Some t else None)"
| "tid_mon l _ = Some l"

interpretation tids: monitor tid_mon
  "\<lambda>n l. last_transition_id n = l \<and> (pending_transition_id n = 0 \<or> l < pending_transition_id n)"
  "\<lambda>l t. l < t"
proof
  fix e and m :: u32 assume "quiet e"
  then show "tid_mon m e = Some m" by (cases e) simp_all
qed auto

definition epoch_tids :: "event list \<Rightarrow> u32 list" where
  "epoch_tids es = concat (map (\<lambda>e. case e of EpochAdvanced _ t \<Rightarrow> [t] | _ \<Rightarrow> []) es)"

lemma epoch_tids_simps [simp]:
  "epoch_tids [] = []"
  "epoch_tids (e # es) = (case e of EpochAdvanced _ t \<Rightarrow> [t] | _ \<Rightarrow> []) @ epoch_tids es"
  by (simp_all add: epoch_tids_def)

lemma tid_mon_sorted:
  "run_mon tid_mon l es = Some l' \<Longrightarrow>
     sorted_wrt (<) (l # epoch_tids es) \<and> last (l # epoch_tids es) = l'"
proof (induction es arbitrary: l)
  case (Cons e es)
  then obtain l1 where l1: "tid_mon l e = Some l1" "run_mon tid_mon l1 es = Some l'"
    by (auto split: option.splits)
  have IH: "sorted_wrt (<) (l1 # epoch_tids es)" "last (l1 # epoch_tids es) = l'"
    using Cons.IH [OF l1(2)] by simp_all
  show ?case using l1(1) IH by (cases e) (auto split: if_splits)
qed simp

end
