(* ===== verification/Gbp_Instances.thy ===== *)
theory Gbp_Instances
  imports Gbp_Frame
begin

section \<open>Concrete serialisers\<close>

text \<open>
  A simple self-delimiting encoding of records, to show that the hypotheses on serialisers can be
  met: a message is the list of its fields, each byte of a field is preceded by 1 and each field
  ends with 0; an integer is the list of its bits.
\<close>

fun put_field :: "bytes \<Rightarrow> bytes" where
  "put_field [] = [0]"
| "put_field (b # bs) = 1 # b # put_field bs"

fun get_field :: "bytes \<Rightarrow> bytes \<times> bytes" where
  "get_field (t # b # bs) = (if t = 0 then ([], b # bs) else case get_field bs of (f, r) \<Rightarrow> (b # f, r))"
| "get_field _ = ([], [])"

lemma get_put_field [simp]: "get_field (put_field f @ r) = (f, r)"
  by (induction f) (cases r, auto)

lemma length_put_field [simp]: "length (put_field f) = 2 * length f + 1"
  by (induction f) simp_all

definition put_fields :: "bytes list \<Rightarrow> bytes" where
  "put_fields fs = concat (map put_field fs)"

fun get_fields :: "nat \<Rightarrow> bytes \<Rightarrow> bytes list" where
  "get_fields 0 bs = []"
| "get_fields (Suc n) bs = (case get_field bs of (f, r) \<Rightarrow> f # get_fields n r)"

lemma get_put_fields: "get_fields (length fs) (put_fields fs @ r) = fs"
  by (induction fs) (simp_all add: put_fields_def)

lemma length_put_fields: "length (put_fields fs) = sum_list (map (\<lambda>f. 2 * length f + 1) fs)"
  by (induction fs) (simp_all add: put_fields_def)

definition bits_of :: "'a::len word \<Rightarrow> bytes" where
  "bits_of w = map (\<lambda>i. of_bool (bit w i)) [0..<LENGTH('a)]"

definition of_bits :: "bytes \<Rightarrow> 'a::len word" where
  "of_bits bs = horner_sum of_bool 2 (map (\<lambda>b. b \<noteq> 0) bs)"

lemma length_bits_of [simp]: "length (bits_of (w :: 'a::len word)) = LENGTH('a)"
  by (simp add: bits_of_def)

lemma of_bits_bits_of [simp]: "of_bits (bits_of w) = w"
proof -
  have "(\<lambda>b. b \<noteq> 0) \<circ> (\<lambda>i. of_bool (bit w i) :: u8) = bit w" by (simp add: fun_eq_iff)
  then have "of_bits (bits_of w) = horner_sum of_bool 2 (map (bit w) [0..<LENGTH('a)])"
    by (simp only: of_bits_def bits_of_def map_map)
  also have "\<dots> = take_bit LENGTH('a) w" by (rule horner_sum_bit_eq_take_bit)
  finally show ?thesis by (simp add: take_bit_word_eq_self)
qed

fun opt_field :: "bytes option \<Rightarrow> bytes" where
  "opt_field None = []"
| "opt_field (Some bs) = 1 # bs"

fun field_opt :: "bytes \<Rightarrow> bytes option" where
  "field_opt [] = None"
| "field_opt (b # bs) = Some bs"

lemma field_opt_opt_field [simp]: "field_opt (opt_field x) = x"
  by (cases x) simp_all

text \<open>A serialiser from the fields of a message and a way to rebuild it from as many fields.\<close>

definition field_codec :: "nat \<Rightarrow> ('m \<Rightarrow> bytes list) \<Rightarrow> (bytes list \<Rightarrow> 'm) \<Rightarrow> 'm serialiser" where
  "field_codec n flds build =
     \<lparr>into_writer = (\<lambda>m. put_fields (flds m)), from_reader = (\<lambda>bs. Inr (build (get_fields n bs)))\<rparr>"

lemma field_codec_reads_back:
  assumes "\<And>m. length (flds m) = n" and "\<And>m. build (flds m) = m"
  shows "reads_back (field_codec n flds build)"
proof -
  have "get_fields n (put_fields (flds m)) = flds m" for m
    using get_put_fields [of "flds m" "[]"] assms(1) [of m] by simp
  then show ?thesis by (simp add: reads_back_def field_codec_def assms(2))
qed

definition toy_frame_codec :: "gbp_frame serialiser" where
  "toy_frame_codec = field_codec 11
     (\<lambda>f. [bits_of (f_version f), f_group_id f, bits_of (f_epoch f), bits_of (f_transition_id f),
       bits_of (f_stream_type f), bits_of (f_stream_id f), bits_of (f_flags f),
       bits_of (f_sequence_no f), bits_of (f_payload_size f), f_encrypted_payload f,
       bits_of (f_payload_format f)])
     (\<lambda>fs. \<lparr>f_version = of_bits (fs ! 0), f_group_id = fs ! 1, f_epoch = of_bits (fs ! 2),
       f_transition_id = of_bits (fs ! 3), f_stream_type = of_bits (fs ! 4),
       f_stream_id = of_bits (fs ! 5), f_flags = of_bits (fs ! 6), f_sequence_no = of_bits (fs ! 7),
       f_payload_size = of_bits (fs ! 8), f_encrypted_payload = fs ! 9,
       f_payload_format = of_bits (fs ! 10)\<rparr>)"

lemma toy_frame_codec [simp]: "reads_back toy_frame_codec"
  unfolding toy_frame_codec_def by (rule field_codec_reads_back) (simp_all add: eval_nat_numeral)

definition toy_control_codec :: "control_message serialiser" where
  "toy_control_codec = field_codec 6
     (\<lambda>c. [bits_of (c_opcode c), bits_of (c_request_id c), bits_of (c_sender_id c),
       bits_of (c_transition_id c), bits_of (c_args_length c), c_args c])
     (\<lambda>fs. \<lparr>c_opcode = of_bits (fs ! 0), c_request_id = of_bits (fs ! 1), c_sender_id = of_bits (fs ! 2),
       c_transition_id = of_bits (fs ! 3), c_args_length = of_bits (fs ! 4), c_args = fs ! 5\<rparr>)"

lemma toy_control_codec [simp]: "reads_back toy_control_codec"
  unfolding toy_control_codec_def by (rule field_codec_reads_back) (simp_all add: eval_nat_numeral)

end
