(* ===== verification/Gbp_Node_Props.thy ===== *)
theory Gbp_Node_Props
  imports Gbp_Node_Runs Gbp_Instances
begin

section \<open>Properties of the node\<close>

text \<open>
  What the node guarantees: over every run of its methods (replay safety, state machine, transition
  ids), for a single frame (the exact effect of the validation pipeline), and for the exchanges
  between two nodes (ordered delivery, the three-step transition, contested preparations and
  coordinator claims, timeouts, restored counters).
\<close>

subsection \<open>Evaluation lemmas\<close>

lemma on_wire_frame:
  "reads_back fc \<Longrightarrow> on_wire fc cc s now (frame_to_cbor fc f) n = drain_events (deliver_frame cc s now f n)"
  by (simp add: on_wire_def frame_decode_def frame_to_cbor_def)

lemma emit_err_known:
  "lookup code = Some sp \<Longrightarrow> emit_err_spec code reason n =
     n\<lparr>events := events n @ ErrorEv code (es_class sp) (es_retryable sp) (es_fatal sp) reason
          # (if es_fatal sp then [StateChanged (state n) Failed] else []),
       state := (if es_fatal sp then Failed else state n)\<rparr>"
  by (simp add: emit_err_spec_def emit_err_named_def push_event_def lookup_code)

lemma frame_verdict_known:
  "frame_verdict f n = Reject code reason \<Longrightarrow> \<exists>sp. lookup code = Some sp"
  "frame_verdict f n = RejectResync code reason \<Longrightarrow> code = EPOCH_MISMATCH"
  by (auto simp: frame_verdict_def lookup_def split: if_splits sum.splits)

definition payload_in :: "delivered_payload \<Rightarrow> group_node \<Rightarrow> bool" where
  "payload_in p n \<longleftrightarrow> PayloadReceived p \<in> set (events n)"

lemma payload_in_push [simp]: "payload_in p (push_event e n) \<longleftrightarrow> e = PayloadReceived p \<or> payload_in p n"
  by (auto simp: payload_in_def push_event_def)

lemma payload_in_upd [simp]:
  "payload_in p (n\<lparr>is_coordinator := x0\<rparr>) = payload_in p n"
  "payload_in p (n\<lparr>current_epoch := x1\<rparr>) = payload_in p n"
  "payload_in p (n\<lparr>last_transition_id := x2\<rparr>) = payload_in p n"
  "payload_in p (n\<lparr>pending_transition_id := x3\<rparr>) = payload_in p n"
  "payload_in p (n\<lparr>state := x4\<rparr>) = payload_in p n"
  "payload_in p (n\<lparr>transition_state := x5\<rparr>) = payload_in p n"
  "payload_in p (n\<lparr>out_seq := x6\<rparr>) = payload_in p n"
  "payload_in p (n\<lparr>in_hw := x7\<rparr>) = payload_in p n"
  "payload_in p (n\<lparr>pending_commit_sender := x8\<rparr>) = payload_in p n"
  "payload_in p (n\<lparr>prepare_deadline := x9\<rparr>) = payload_in p n"
  "payload_in p (n\<lparr>execute_deadline := x10\<rparr>) = payload_in p n"
  "payload_in p (n\<lparr>coordinator_last_seen := x11\<rparr>) = payload_in p n"
  by (simp_all add: payload_in_def)

lemma payload_in_transition [simp]: "payload_in p (transition next n) = payload_in p n"
  by (simp add: transition_def)

lemma payload_in_emit [simp]: "payload_in p (emit_err_named c k r f reason n) = payload_in p n"
  "payload_in p (emit_err_spec c reason n) = payload_in p n"
proof -
  show *: "payload_in p (emit_err_named c k r f reason n) = payload_in p n" for c k r f
    by (simp add: emit_err_named_def Let_def split: prod.split)
  show "payload_in p (emit_err_spec c reason n) = payload_in p n"
    by (simp add: emit_err_spec_def * split: option.split)
qed

lemma payload_in_apply_control [simp]: "payload_in p (apply_control now c oc n) = payload_in p n"
  by (cases oc) (simp_all add: apply_control_def apply_transition_def note_coordinator_activity_def
      Let_def)

lemma payload_in_handle_control [simp]: "payload_in p (handle_control cc now plain n) = payload_in p n"
  by (simp add: handle_control_def control_event_def split: sum.split)

text \<open>A sealer that does not encrypt, for the concrete instances.\<close>

definition plain_sealer :: sealer where
  "plain_sealer = \<lparr>seal = (\<lambda>st sq pt. Inr pt), openf = (\<lambda>st sq ct. Inr ct)\<rparr>"

lemma plain_sealer_simps [simp]: "seal plain_sealer st sq pt = Inr pt" "openf plain_sealer st sq ct = Inr ct"
  by (simp_all add: plain_sealer_def)

definition gid0 :: bytes where
  "gid0 = replicate 16 9"

definition text_frame :: "u32 \<Rightarrow> gbp_frame" where
  "text_frame sq = frame_new gid0 0 0 Text 1 0 sq [42] 0"

subsection \<open>Runs\<close>

text \<open>
  C1. Replay safety. In the log of every run of a node, whatever methods are called with whatever
  arguments, sealers and wire bytes, two payloads delivered on the same stream with no epoch change
  between them carry strictly increasing sequence numbers; so no frame is delivered twice in an
  epoch.
\<close>

theorem no_replay:
  assumes "run_log fc cc cs (node_new mid gid) = xs @ PayloadReceived p # ys @ PayloadReceived q # zs"
    and "dp_stream_type p = dp_stream_type q" and "dp_stream_id p = dp_stream_id q"
    and "\<forall>e t. EpochAdvanced e t \<notin> set ys"
  shows "dp_sequence_no p < dp_sequence_no q"
proof -
  have "window_covers (node_new mid gid) Map.empty" "events (node_new mid gid) = []"
    by (simp_all add: window_covers_def node_new_def)
  from replay.run_log_accepted [OF this(1) _ this(2), of fc cc cs] assms(1)
  obtain h where "run_mon replay_mon Map.empty (xs @ PayloadReceived p # ys @ PayloadReceived q # zs) = Some h"
    by auto
  then show ?thesis using assms(2-4) by (rule replay_mon_ordered)
qed

lemma text_frame_log:
  "run_log toy_frame_codec toy_control_codec
     [OnWire plain_sealer 0 (frame_to_cbor toy_frame_codec (text_frame 3)),
      OnWire plain_sealer 0 (frame_to_cbor toy_frame_codec (text_frame 7))] (node_new 1 gid0)
   = [] @ PayloadReceived \<lparr>dp_stream_type = Text, dp_stream_id = 1, dp_sequence_no = 3, dp_flags = 0,
           dp_plaintext = [42], dp_codec = Cbor\<rparr>
     # [] @ PayloadReceived \<lparr>dp_stream_type = Text, dp_stream_id = 1, dp_sequence_no = 7, dp_flags = 0,
           dp_plaintext = [42], dp_codec = Cbor\<rparr> # []"
  by (simp add: run_log_def on_wire_frame deliver_frame_def node_new_def text_frame_def gid0_def
      group_id_array_exact validate_payload_size_def flags_has_def drain_events_def push_event_def
      frame_payload_codec_def codec_from_u8_def)

theorem no_replay_witness:
  "\<exists>p q. run_log toy_frame_codec toy_control_codec
       [OnWire plain_sealer 0 (frame_to_cbor toy_frame_codec (text_frame 3)),
        OnWire plain_sealer 0 (frame_to_cbor toy_frame_codec (text_frame 7))] (node_new 1 gid0)
     = [PayloadReceived p, PayloadReceived q] \<and> dp_sequence_no p < dp_sequence_no q"
  using text_frame_log no_replay [OF text_frame_log] by simp

text \<open>
  C6. The log tells the state. Over every run of a node, the state changes in its log form an
  unbroken chain from \<open>Idle\<close> to the node's current state, every link of which either goes to
  \<open>Failed\<close> or is an edge of the state machine of \<^verbatim>\<open>state.rs\<close>; and \<open>Closed\<close> is never reached, since
  no method of the node enters it.
\<close>

theorem state_log_faithful:
  "run_mon fsm_mon Idle (run_log fc cc cs (node_new mid gid))
     = Some (state (fst (exec_all fc cc cs (node_new mid gid))))"
proof -
  have "state (node_new mid gid) = Idle" "events (node_new mid gid) = []"
    by (simp_all add: node_new_def)
  from fsm.run_log_accepted [OF this(1) _ this(2), of fc cc cs] show ?thesis by auto
qed

text \<open>
  C21. \<open>Failed\<close> is final. From a failed node, no sequence of calls leaves that state, and every
  attempt to send is refused with \<^verbatim>\<open>InvalidState\<close> and consumes no sequence number.
\<close>

theorem failed_is_final:
  assumes "state n = Failed" and "exec_all fc cc cs n = (n', evs)"
  shows "state n' = Failed
    \<and> send_payload fc s to st sid fl pt cd n' = (n', Inl (InvalidState ''cannot send in state FAILED''))
    \<and> snd (send_control fc cc s now to oc tid rid args n')
        = Inl (InvalidState ''cannot send in state FAILED'')
    \<and> out_seq (fst (send_control fc cc s now to oc tid rid args n')) = out_seq n'"
proof -
  obtain new where "run_mon fsm_mon Failed new = Some (state n')"
    using fsm.run_accepted [OF assms(1) _ assms(2)] by auto
  then have F: "state n' = Failed" by (rule fsm_mon_Failed)
  have refuse: "send_payload fc s to st sid fl pt cd m
      = (m, Inl (InvalidState ''cannot send in state FAILED''))" if "state m = Failed" for m st sid fl pt cd
    using that by (simp add: send_payload_def assert_can_send_def)
  have "state (mirror_control now oc tid n') = Failed" "out_seq (mirror_control now oc tid n') = out_seq n'"
    using F by (simp_all add: mirror_control_def split: control_opcode.split)
  then show ?thesis using F refuse by (simp add: send_control_def Let_def)
qed

theorem failed_is_final_witness:
  "\<exists>n'. exec_all toy_frame_codec toy_control_codec [TriggerResync, CheckTimeouts 5] (node_new 1 gid0)
      = (n', [StateChanged Idle Failed])
    \<and> state (fst (exec_all toy_frame_codec toy_control_codec [BootstrapAsCreator 4] n')) = Failed"
proof -
  let ?n' = "(node_new 1 gid0)\<lparr>state := Failed\<rparr>"
  have "exec_all toy_frame_codec toy_control_codec [TriggerResync, CheckTimeouts 5] (node_new 1 gid0)
      = (?n', [StateChanged Idle Failed])"
    by (simp add: trigger_resync_def transition_def check_timeouts_def node_new_def push_event_def
        drain_events_def)
  moreover have "state (fst (exec_all toy_frame_codec toy_control_codec [BootstrapAsCreator 4] ?n')) = Failed"
  proof -
    obtain m evs where m: "exec_all toy_frame_codec toy_control_codec [BootstrapAsCreator 4] ?n' = (m, evs)"
      by (metis surj_pair)
    from failed_is_final [OF _ m] m show ?thesis by simp
  qed
  ultimately show ?thesis by blast
qed

text \<open>
  C10. Transition ids only grow. In every run whose caller announces (PREPARE sent, first id expected
  by a joiner) or applies directly only ids above the last applied one, and whatever arrives from the
  network, the ids of the applied transitions in the log are strictly increasing, the last of them is
  the node's \<^verbatim>\<open>last_transition_id\<close>, and a pending id is above it.
\<close>

theorem transition_ids_increase:
  assumes "calls_ok (\<lambda>l t. l < t) fc cc cs (node_new mid gid)"
    and "exec_all fc cc cs (node_new mid gid) = (n', evs)"
  shows "sorted_wrt (<) (0 # epoch_tids (run_log fc cc cs (node_new mid gid)))
    \<and> last (0 # epoch_tids (run_log fc cc cs (node_new mid gid))) = last_transition_id n'
    \<and> (pending_transition_id n' = 0 \<or> last_transition_id n' < pending_transition_id n')"
proof -
  have "last_transition_id (node_new mid gid) = 0 \<and>
      (pending_transition_id (node_new mid gid) = 0 \<or> 0 < pending_transition_id (node_new mid gid))"
    "events (node_new mid gid) = []"
    by (simp_all add: node_new_def)
  from tids.run_log_accepted [OF this(1) assms(1) this(2)] assms(2)
  obtain l where "run_mon tid_mon 0 (run_log fc cc cs (node_new mid gid)) = Some l"
    "last_transition_id n' = l" "pending_transition_id n' = 0 \<or> l < pending_transition_id n'"
    by auto
  with tid_mon_sorted [OF this(1)] show ?thesis by simp
qed

theorem transition_ids_increase_witness:
  "calls_ok (\<lambda>l t. l < t) toy_frame_codec toy_control_codec
     [ApplyTransition 3, ApplyTransition 8] (node_new 1 gid0)
   \<and> sorted_wrt (<) (0 # epoch_tids (run_log toy_frame_codec toy_control_codec
        [ApplyTransition 3, ApplyTransition 8] (node_new 1 gid0)))"
proof -
  have ok: "calls_ok (\<lambda>l t. l < t) toy_frame_codec toy_control_codec
     [ApplyTransition 3, ApplyTransition 8] (node_new 1 gid0)"
    by (simp add: node_new_def apply_transition_def push_event_def)
  obtain n' evs where "exec_all toy_frame_codec toy_control_codec
     [ApplyTransition 3, ApplyTransition 8] (node_new 1 gid0) = (n', evs)" by force
  from transition_ids_increase [OF ok this] ok show ?thesis by blast
qed

subsection \<open>One frame\<close>

text \<open>
  C2. Exact delivery. A well-formed wire frame makes a node deliver a payload to a sub-protocol
  exactly when it passes all checks (version, group, epoch, size, stream type, transition id when
  critical, replay window) and opens under the sealer; and the payload is then the opened plaintext
  with the stream, sequence number, flags and codec of the frame.
\<close>

theorem delivers_exactly:
  assumes "frame_decode fc wire = Inr f" and "events n = []"
  shows "PayloadReceived p \<in> set (snd (on_wire fc cc s now wire n)) \<longleftrightarrow>
    (\<exists>st plain. st \<noteq> Control \<and> f_version f = 1 \<and> group_id_array f = group_id n
       \<and> f_epoch f = current_epoch n \<and> unat (f_payload_size f) = length (f_encrypted_payload f)
       \<and> f_stream_type f = stream_as_u8 st
       \<and> (flags_has (f_flags f) CRITICAL \<longrightarrow> f_transition_id f = last_transition_id n)
       \<and> opt_or (in_hw n (st, f_stream_id f)) 0 < f_sequence_no f
       \<and> openf s st (f_sequence_no f) (f_encrypted_payload f) = Inr plain
       \<and> p = \<lparr>dp_stream_type = st, dp_stream_id = f_stream_id f, dp_sequence_no = f_sequence_no f,
              dp_flags = f_flags f, dp_plaintext = plain, dp_codec = frame_payload_codec f\<rparr>)"
    (is "?lhs \<longleftrightarrow> ?rhs")
proof -
  have no: "\<not> payload_in p n" using assms(2) by (simp add: payload_in_def)
  have lhs: "?lhs \<longleftrightarrow> payload_in p (deliver_frame cc s now f n)"
    using assms(1) by (simp add: on_wire_def drain_events_def payload_in_def)
  show ?thesis
  proof
    assume ?lhs
    then have pl: "payload_in p (deliver_frame cc s now f n)" using lhs by simp
    then obtain st where v: "frame_verdict f n = Accept st"
      using no by (cases "frame_verdict f n") (auto simp: deliver_frame_verdict trigger_resync_def split: if_splits)
    with pl no have "st \<noteq> Control \<and> (\<exists>plain. openf s st (f_sequence_no f) (f_encrypted_payload f) = Inr plain
       \<and> p = \<lparr>dp_stream_type = st, dp_stream_id = f_stream_id f, dp_sequence_no = f_sequence_no f,
              dp_flags = f_flags f, dp_plaintext = plain, dp_codec = frame_payload_codec f\<rparr>)"
      by (auto simp: deliver_frame_verdict accept_frame_def Let_def split: sum.splits if_splits)
    then show ?rhs using frame_verdict_Accept [OF v] by blast
  next
    assume ?rhs
    then obtain st plain where "st \<noteq> Control" "frame_verdict f n = Accept st"
      "openf s st (f_sequence_no f) (f_encrypted_payload f) = Inr plain"
      "p = \<lparr>dp_stream_type = st, dp_stream_id = f_stream_id f, dp_sequence_no = f_sequence_no f,
              dp_flags = f_flags f, dp_plaintext = plain, dp_codec = frame_payload_codec f\<rparr>"
      using frame_verdict_AcceptI by blast
    then show ?lhs using lhs by (simp add: deliver_frame_verdict accept_frame_def Let_def)
  qed
qed

theorem delivers_exactly_witness:
  "PayloadReceived \<lparr>dp_stream_type = Text, dp_stream_id = 1, dp_sequence_no = 3, dp_flags = 0,
       dp_plaintext = [42], dp_codec = Cbor\<rparr>
     \<in> set (snd (on_wire toy_frame_codec toy_control_codec plain_sealer 0
          (frame_to_cbor toy_frame_codec (text_frame 3)) (node_new 1 gid0)))"
proof -
  have "frame_decode toy_frame_codec (frame_to_cbor toy_frame_codec (text_frame 3)) = Inr (text_frame 3)"
    by (simp add: frame_decode_def frame_to_cbor_def)
  from delivers_exactly [OF this, of "node_new 1 gid0"] show ?thesis
    by (simp add: node_new_def text_frame_def gid0_def group_id_array_exact flags_has_def
        frame_payload_codec_def codec_from_u8_def)
qed

text \<open>
  C20. What a refused frame does to a node. When a check refuses a frame, the node reports exactly one error,
  that of the first failing check, with the attributes the registry gives it, and nothing of the node
  changes but its state. A wrong version or group (the fatal errors) makes it \<open>Failed\<close>. A wrong epoch, although it is not
  fatal, takes an active or resynchronising node to \<open>Resyncing\<close> and every other node to \<open>Failed\<close>. All other refusals,
  a wrong transition id among them, leave the state as it is (where the protocol document asks for \<open>Resyncing\<close>).
\<close>

theorem rejected_frame_harmless:
  assumes "frame_decode fc wire = Inr f" and "events n = []"
    and "frame_verdict f n = Reject code reason \<or> frame_verdict f n = RejectResync code reason"
    and "on_wire fc cc s now wire n = (n', evs)"
  shows "\<exists>sp. lookup code = Some sp
    \<and> hd evs = ErrorEv code (es_class sp) (es_retryable sp) (es_fatal sp) reason
    \<and> (\<forall>c k r ft rs. ErrorEv c k r ft rs \<in> set (tl evs) \<longrightarrow> False)
    \<and> n' = n\<lparr>state := state n'\<rparr>
    \<and> (frame_verdict f n = Reject code reason \<longrightarrow> state n' = (if es_fatal sp then Failed else state n))
    \<and> (frame_verdict f n = RejectResync code reason \<longrightarrow>
         code = EPOCH_MISMATCH
         \<and> state n' = (if state n \<in> {Active, Resyncing} then Resyncing else Failed))"
  using assms(3)
proof
  assume v: "frame_verdict f n = Reject code reason"
  then obtain sp where sp: "lookup code = Some sp" using frame_verdict_known(1) by blast
  have "n\<lparr>events := [], state := x\<rparr> = n\<lparr>state := x\<rparr>" for x
    using assms(2) by (cases n) simp
  then show ?thesis
    using assms(1,2,4) v sp
    by (auto simp: on_wire_def drain_events_def deliver_frame_verdict emit_err_known [OF sp])
next
  assume v: "frame_verdict f n = RejectResync code reason"
  then have c: "code = EPOCH_MISMATCH" by (rule frame_verdict_known(2))
  let ?sp = "spec 3 State True False ''ERR_EPOCH_MISMATCH''"
  have sp: "lookup code = Some ?sp" using c by (simp add: lookup_def)
  have e: "emit_err_spec code reason n = n\<lparr>events := [ErrorEv code State True False reason]\<rparr>"
    using emit_err_known [OF sp, of reason n] assms(2) by (cases n) simp
  have n: "n\<lparr>events := []\<rparr> = n" "n\<lparr>state := x, events := []\<rparr> = n\<lparr>state := x\<rparr>" for x
    using assms(2) by (cases n; simp)+
  have t: "can_transition_to (state n) Resyncing \<longleftrightarrow> state n = Active" by (cases "state n") simp_all
  have w: "(n', evs) = drain_events (trigger_resync (n\<lparr>events := [ErrorEv code State True False reason]\<rparr>))"
    using assms(1,4) v e by (simp add: on_wire_def deliver_frame_verdict)
  let ?ev = "ErrorEv code State True False reason"
  have w': "(n', evs) =
      (if state n = Resyncing then (n, [?ev])
       else if state n = Active then (n\<lparr>state := Resyncing\<rparr>, [?ev, StateChanged Active Resyncing])
       else (n\<lparr>state := Failed\<rparr>, [?ev, StateChanged (state n) Failed]))"
    unfolding w by (simp add: drain_events_def trigger_resync_def transition_def push_event_def n t)
  then show ?thesis using v c sp by (cases "state n = Resyncing"; cases "state n = Active") simp_all
qed

theorem rejected_frame_harmless_witness:
  "state (fst (on_wire toy_frame_codec toy_control_codec plain_sealer 0
      (frame_to_cbor toy_frame_codec (text_frame 3)) (node_new 1 (replicate 16 8)))) = Failed"
proof -
  let ?n = "node_new 1 (replicate 16 8)" and ?w = "frame_to_cbor toy_frame_codec (text_frame 3)"
  have d: "frame_decode toy_frame_codec ?w = Inr (text_frame 3)"
    by (simp add: frame_decode_def frame_to_cbor_def)
  have v: "frame_verdict (text_frame 3) ?n = Reject UNKNOWN_GROUP ''group_id''"
    by (simp add: frame_verdict_def text_frame_def node_new_def group_id_array_exact gid0_def
        replicate_eq_replicate)
  obtain n' evs where o: "on_wire toy_frame_codec toy_control_codec plain_sealer 0 ?w ?n = (n', evs)"
    by force
  from rejected_frame_harmless [OF d _ disjI1 [OF v] o] v have "state n' = Failed"
    by (auto simp: node_new_def lookup_def)
  with o show ?thesis by simp
qed

end
