(* ===== verification/Gbp_Node_Exchange.thy ===== *)
theory Gbp_Node_Exchange
  imports Gbp_Node_Props
begin

section \<open>Exchanges between nodes\<close>

text \<open>
  Two nodes joined by a channel: what one sends the other receives. The vocabulary is small:
  \<open>in_step\<close> (same group, epoch and last transition), \<open>window_open\<close> (the receiver's replay window has
  not overtaken the sender's counter) and \<open>seals_to\<close> (the receiver's sealer opens what the sender's
  seals). On top of it: ordered delivery of a burst, the three-step transition, contested
  preparations, contested coordinator claims, timeouts and restored counters.
\<close>

definition in_step :: "group_node \<Rightarrow> group_node \<Rightarrow> bool" where
  "in_step a b \<longleftrightarrow> group_id a = group_id b \<and> length (group_id a) = 16
     \<and> current_epoch a = current_epoch b \<and> last_transition_id a = last_transition_id b"

definition window_open :: "stream_key \<Rightarrow> nat \<Rightarrow> group_node \<Rightarrow> group_node \<Rightarrow> bool" where
  "window_open k count a b \<longleftrightarrow>
     opt_or (in_hw b k) 0 \<le> opt_or (out_seq a k) 0 \<and> unat (opt_or (out_seq a k) 0) + count < 2 ^ 32"

definition seals_to :: "sealer \<Rightarrow> sealer \<Rightarrow> stream_type \<Rightarrow> bytes \<Rightarrow> bool" where
  "seals_to sa sb st pt \<longleftrightarrow>
     (\<forall>sq. \<exists>ct. seal sa st sq pt = Inr ct \<and> length ct < 2 ^ 32 \<and> openf sb st sq ct = Inr pt)"

lemma plain_sealer_seals [simp]: "length pt < 2 ^ 32 \<Longrightarrow> seals_to plain_sealer plain_sealer st pt"
  by (simp add: seals_to_def)

lemma next_counter:
  assumes "window_open k (Suc count) a b"
  shows "opt_or (in_hw b k) 0 < opt_or (out_seq a k) 0 + 1"
    and "unat (opt_or (out_seq a k) 0 + 1) = unat (opt_or (out_seq a k) 0) + 1"
proof -
  have "unat (opt_or (out_seq a k) 0) + 1 < 2 ^ 32" using assms by (simp add: window_open_def)
  then show s: "unat (opt_or (out_seq a k) 0 + 1) = unat (opt_or (out_seq a k) 0) + 1"
    by (simp add: unat_plus_simple [THEN iffD1] no_olen_add_nat [symmetric] unat_word_ariths)
  then show "opt_or (in_hw b k) 0 < opt_or (out_seq a k) 0 + 1"
    using assms by (simp add: window_open_def word_less_nat_alt word_le_nat_alt)
qed

definition next_frame :: "stream_type \<Rightarrow> u32 \<Rightarrow> u16 \<Rightarrow> bytes \<Rightarrow> payload_codec \<Rightarrow> group_node \<Rightarrow> gbp_frame" where
  "next_frame st sid fl ct cd a =
     frame_new (group_id a) (current_epoch a) (last_transition_id a) st sid fl
       (opt_or (out_seq a (st, sid)) 0 + 1) ct (codec_as_u8 cd)"

lemma next_frame_sel [simp]:
  "f_version (next_frame st sid fl ct cd a) = 1" "f_group_id (next_frame st sid fl ct cd a) = group_id a"
  "f_epoch (next_frame st sid fl ct cd a) = current_epoch a"
  "f_transition_id (next_frame st sid fl ct cd a) = last_transition_id a"
  "f_stream_type (next_frame st sid fl ct cd a) = stream_as_u8 st"
  "f_stream_id (next_frame st sid fl ct cd a) = sid" "f_flags (next_frame st sid fl ct cd a) = fl"
  "f_sequence_no (next_frame st sid fl ct cd a) = opt_or (out_seq a (st, sid)) 0 + 1"
  "f_payload_size (next_frame st sid fl ct cd a) = word_of_nat (length ct)"
  "f_encrypted_payload (next_frame st sid fl ct cd a) = ct"
  "frame_payload_codec (next_frame st sid fl ct cd a) = cd"
  by (simp_all add: next_frame_def)

definition bump :: "stream_key \<Rightarrow> group_node \<Rightarrow> group_node" where
  "bump k a = a\<lparr>out_seq := (out_seq a)(k \<mapsto> opt_or (out_seq a k) 0 + 1)\<rparr>"

definition saw :: "stream_key \<Rightarrow> u32 \<Rightarrow> group_node \<Rightarrow> group_node" where
  "saw k sq b = b\<lparr>in_hw := (in_hw b)(k \<mapsto> sq)\<rparr>"

lemma in_step_saw [simp]: "in_step a (saw k sq b) = in_step a b" "in_step (saw k sq a) b = in_step a b"
  by (simp_all add: in_step_def saw_def)

lemma drain_push: "events n = [] \<Longrightarrow> drain_events (push_event e n) = (n, [e])"
  by (cases n) (simp add: drain_events_def push_event_def)

lemma events_saw [simp]: "events (saw k sq b) = events b"
  by (simp add: saw_def)

text \<open>One frame from a sender to a receiver that is in step with it passes all checks.\<close>

lemma send_payload_ok:
  assumes "assert_can_send a = Inr ()" and "seal sa st (opt_or (out_seq a (st, sid)) 0 + 1) pt = Inr ct"
  shows "send_payload fc sa to st sid fl pt cd a =
    (bump (st, sid) a, Inr \<lparr>of_to = to, of_wire = frame_to_cbor fc (next_frame st sid fl ct cd a)\<rparr>)"
  using assms by (simp add: send_payload_def next_seq_def Let_def bump_def next_frame_def)

lemma next_frame_accepted:
  assumes "in_step a b" and "window_open (st, sid) (Suc count) a b" and "length ct < 2 ^ 32"
  shows "frame_verdict (next_frame st sid fl ct cd a) b = Accept st"
proof -
  have "group_id a = group_id b" "length (group_id b) = 16" "current_epoch a = current_epoch b"
    "last_transition_id a = last_transition_id b"
    using assms(1) by (auto simp: in_step_def)
  then show ?thesis using assms(3) next_counter(1) [OF assms(2)]
    by (intro frame_verdict_AcceptI) (simp_all add: group_id_array_exact)
qed

lemma frame_exchange:
  assumes "reads_back fc" "assert_can_send a = Inr ()" "in_step a b"
    "window_open (st, sid) (Suc count) a b" "seals_to sa sb st pt"
  obtains ct where
    "send_payload fc sa to st sid fl pt cd a =
      (bump (st, sid) a, Inr \<lparr>of_to = to, of_wire = frame_to_cbor fc (next_frame st sid fl ct cd a)\<rparr>)"
    "on_wire fc cc sb now (frame_to_cbor fc (next_frame st sid fl ct cd a)) b =
      drain_events
        (if st = Control then handle_control cc now pt (saw (st, sid) (opt_or (out_seq a (st, sid)) 0 + 1) b)
         else push_event (PayloadReceived
            \<lparr>dp_stream_type = st, dp_stream_id = sid, dp_sequence_no = opt_or (out_seq a (st, sid)) 0 + 1,
             dp_flags = fl, dp_plaintext = pt, dp_codec = cd\<rparr>)
           (saw (st, sid) (opt_or (out_seq a (st, sid)) 0 + 1) b))"
proof -
  let ?sq = "opt_or (out_seq a (st, sid)) 0 + 1"
  obtain ct where ct: "seal sa st ?sq pt = Inr ct" "length ct < 2 ^ 32" "openf sb st ?sq ct = Inr pt"
    using assms(5) by (auto simp: seals_to_def)
  have v: "frame_verdict (next_frame st sid fl ct cd a) b = Accept st"
    by (rule next_frame_accepted [OF assms(3,4) ct(2)])
  show ?thesis
  proof (rule that)
    show "send_payload fc sa to st sid fl pt cd a =
      (bump (st, sid) a, Inr \<lparr>of_to = to, of_wire = frame_to_cbor fc (next_frame st sid fl ct cd a)\<rparr>)"
      by (rule send_payload_ok [OF assms(2) ct(1)])
  next
    show "on_wire fc cc sb now (frame_to_cbor fc (next_frame st sid fl ct cd a)) b =
      drain_events
        (if st = Control then handle_control cc now pt (saw (st, sid) ?sq b)
         else push_event (PayloadReceived
            \<lparr>dp_stream_type = st, dp_stream_id = sid, dp_sequence_no = ?sq,
             dp_flags = fl, dp_plaintext = pt, dp_codec = cd\<rparr>) (saw (st, sid) ?sq b))"
      using ct v assms(1)
      by (simp add: on_wire_frame deliver_frame_verdict accept_frame_def Let_def split del: if_split)
        (simp add: saw_def)
  qed
qed

subsection \<open>Ordered delivery of a burst\<close>

fun send_all ::
    "gbp_frame serialiser \<Rightarrow> sealer \<Rightarrow> u32 \<Rightarrow> stream_type \<Rightarrow> u32 \<Rightarrow> u16 \<Rightarrow> payload_codec \<Rightarrow> bytes list \<Rightarrow>
      group_node \<Rightarrow> group_node \<times> (node_error + bytes list)" where
  "send_all fc s to st sid fl cd [] n = (n, Inr [])"
| "send_all fc s to st sid fl cd (pt # pts) n =
     (case send_payload fc s to st sid fl pt cd n of
        (n1, Inl e) \<Rightarrow> (n1, Inl e)
      | (n1, Inr out) \<Rightarrow>
          (case send_all fc s to st sid fl cd pts n1 of
             (n2, Inl e) \<Rightarrow> (n2, Inl e) | (n2, Inr ws) \<Rightarrow> (n2, Inr (of_wire out # ws))))"

fun receive_all ::
    "gbp_frame serialiser \<Rightarrow> control_message serialiser \<Rightarrow> sealer \<Rightarrow> instant \<Rightarrow> bytes list \<Rightarrow> group_node \<Rightarrow>
      group_node \<times> event list" where
  "receive_all fc cc s now [] n = (n, [])"
| "receive_all fc cc s now (w # ws) n =
     (case on_wire fc cc s now w n of (n1, evs) \<Rightarrow>
        case receive_all fc cc s now ws n1 of (n2, evs') \<Rightarrow> (n2, evs @ evs'))"

fun burst_events :: "stream_type \<Rightarrow> u32 \<Rightarrow> u16 \<Rightarrow> payload_codec \<Rightarrow> u32 \<Rightarrow> bytes list \<Rightarrow> event list" where
  "burst_events st sid fl cd sq [] = []"
| "burst_events st sid fl cd sq (pt # pts) =
     PayloadReceived \<lparr>dp_stream_type = st, dp_stream_id = sid, dp_sequence_no = sq + 1, dp_flags = fl,
       dp_plaintext = pt, dp_codec = cd\<rparr> # burst_events st sid fl cd (sq + 1) pts"

lemma bump_simps [simp]:
  "assert_can_send (bump k a) = assert_can_send a" "in_step (bump k a) b = in_step a b"
  "opt_or (out_seq (bump k a) k) 0 = opt_or (out_seq a k) 0 + 1"
  by (simp_all add: bump_def assert_can_send_def in_step_def)

lemma burst:
  assumes "reads_back fc" "assert_can_send a = Inr ()" "in_step a b" "st \<noteq> Control" "events b = []"
    "window_open (st, sid) (length pts) a b" "\<forall>pt\<in>set pts. seals_to sa sb st pt"
  shows "\<exists>a' ws b'. send_all fc sa to st sid fl cd pts a = (a', Inr ws)
    \<and> receive_all fc cc sb now ws b
        = (b', burst_events st sid fl cd (opt_or (out_seq a (st, sid)) 0) pts)"
  using assms
proof (induction pts arbitrary: a b)
  case (Cons pt pts)
  let ?k = "(st, sid)" let ?sq = "opt_or (out_seq a ?k) 0 + 1"
  have w: "window_open ?k (Suc (length pts)) a b" using Cons.prems(6) by simp
  obtain ct where
    send: "send_payload fc sa to st sid fl pt cd a =
      (bump ?k a, Inr \<lparr>of_to = to, of_wire = frame_to_cbor fc (next_frame st sid fl ct cd a)\<rparr>)" and
    recv: "on_wire fc cc sb now (frame_to_cbor fc (next_frame st sid fl ct cd a)) b =
      drain_events
        (if st = Control then handle_control cc now pt (saw ?k ?sq b)
         else push_event (PayloadReceived
            \<lparr>dp_stream_type = st, dp_stream_id = sid, dp_sequence_no = ?sq,
             dp_flags = fl, dp_plaintext = pt, dp_codec = cd\<rparr>) (saw ?k ?sq b))"
    using frame_exchange [OF Cons.prems(1,2,3) w, of sa sb pt to fl cd cc now] Cons.prems(7) by auto
  let ?b1 = "saw ?k ?sq b"
  have "\<exists>a' ws b'. send_all fc sa to st sid fl cd pts (bump ?k a) = (a', Inr ws)
    \<and> receive_all fc cc sb now ws ?b1
        = (b', burst_events st sid fl cd (opt_or (out_seq (bump ?k a) ?k) 0) pts)"
  proof (rule Cons.IH)
    show "window_open ?k (length pts) (bump ?k a) ?b1"
      using w next_counter(2) [OF w] by (simp add: window_open_def saw_def)
    show "in_step (bump ?k a) ?b1" using Cons.prems(3) by simp
  qed (use Cons.prems in \<open>simp_all add: saw_def\<close>)
  then show ?case using send recv Cons.prems(4,5) by (auto simp: drain_push)
qed simp

text \<open>
  C11. Ordered delivery. A burst of payloads sent on one stream to a node in step with the sender is
  delivered completely and in order, each payload once, with consecutive sequence numbers from the
  sender's counter, provided the counter does not run past 32 bits and the sealers fit.
\<close>

theorem burst_delivered_in_order:
  assumes "reads_back fc" and "state a \<in> {Active, Resyncing, EstablishingGroup}" and "in_step a b"
    and "st \<noteq> Control" and "events b = []"
    and "window_open (st, sid) (length pts) a b" and "\<forall>pt\<in>set pts. seals_to sa sb st pt"
  shows "\<exists>a' ws b'. send_all fc sa to st sid fl cd pts a = (a', Inr ws)
    \<and> receive_all fc cc sb now ws b
        = (b', burst_events st sid fl cd (opt_or (out_seq a (st, sid)) 0) pts)"
  by (rule burst [OF assms(1) _ assms(3-7)]) (use assms(2) in \<open>auto simp: assert_can_send_def\<close>)

definition active_node :: "u32 \<Rightarrow> group_node" where
  "active_node mid = (node_new mid gid0)\<lparr>state := Active\<rparr>"

lemma active_node_sel [simp]:
  "state (active_node m) = Active" "events (active_node m) = []" "in_step (active_node m) (active_node m')"
  "out_seq (active_node m) = Map.empty" "in_hw (active_node m) = Map.empty"
  "member_id (active_node m) = m" "pending_transition_id (active_node m) = 0"
  "last_transition_id (active_node m) = 0" "current_epoch (active_node m) = 0"
  "pending_commit_sender (active_node m) = None" "is_coordinator (active_node m) = False"
  by (simp_all add: active_node_def node_new_def in_step_def gid0_def)

theorem burst_delivered_in_order_witness:
  "\<exists>a' ws b'. send_all toy_frame_codec plain_sealer 2 Text 100 0 Cbor [[1], [2, 2], []] (active_node 1) = (a', Inr ws)
    \<and> receive_all toy_frame_codec toy_control_codec plain_sealer 0 ws (active_node 2)
        = (b', burst_events Text 100 0 Cbor 0 [[1], [2, 2], []])"
  using burst_delivered_in_order [of toy_frame_codec "active_node 1" "active_node 2" Text 100
      "[[1], [2, 2], []]" plain_sealer plain_sealer 2 0 Cbor toy_control_codec 0]
  by (simp add: window_open_def)

subsection \<open>Control messages\<close>

definition ctl :: "group_node \<Rightarrow> control_opcode \<Rightarrow> u32 \<Rightarrow> u32 \<Rightarrow> bytes \<Rightarrow> control_message" where
  "ctl a oc tid rid args = control_with_args (opcode_as_u16 oc) rid (member_id a) tid args"

abbreviation ctl_key :: "group_node \<Rightarrow> stream_key" where
  "ctl_key a \<equiv> (Control, member_stream_id a 0)"

lemma ctl_sel [simp]:
  "c_transition_id (ctl a oc tid rid args) = tid" "c_sender_id (ctl a oc tid rid args) = member_id a"
  "c_args (ctl a oc tid rid args) = args"
  "control_event (ctl a oc tid rid args) oc = ControlEv (member_id a) oc tid rid args"
  by (simp_all add: ctl_def control_event_def)

lemma handle_control_ctl:
  assumes "reads_back cc" "length args < 2 ^ 32" "tid_ok oc tid b"
  shows "handle_control cc now (control_to_cbor cc (ctl a oc tid rid args)) b =
    push_event (control_event (ctl a oc tid rid args) oc) (apply_control now (ctl a oc tid rid args) oc b)"
  using control_with_args_round_trip [OF assms(1,2)] assms(3)
  by (simp add: handle_control_def ctl_def)

lemma mirror_simps [simp]:
  "state (mirror_control now oc tid a) = state a" "out_seq (mirror_control now oc tid a) = out_seq a"
  "member_id (mirror_control now oc tid a) = member_id a" "in_hw (mirror_control now oc tid a) = in_hw a"
  "group_id (mirror_control now oc tid a) = group_id a" "events (mirror_control now oc tid a) = events a"
  "current_epoch (mirror_control now oc tid a) = current_epoch a"
  "last_transition_id (mirror_control now oc tid a) = last_transition_id a"
  "is_coordinator (mirror_control now oc tid a) = is_coordinator a"
  "member_stream_id (mirror_control now oc tid a) base = member_stream_id a base"
  by (simp_all add: mirror_control_def member_stream_id_def split: control_opcode.split)

lemma mirror_link [simp]:
  "assert_can_send (mirror_control now oc tid a) = assert_can_send a"
  "in_step (mirror_control now oc tid a) b = in_step a b"
  "window_open k count (mirror_control now oc tid a) b = window_open k count a b"
  by (simp_all add: assert_can_send_def in_step_def window_open_def)

lemma control_exchange:
  assumes "reads_back fc" "reads_back cc" "assert_can_send a = Inr ()" "in_step a b"
    "window_open (ctl_key a) (Suc count) a b" "length args < 2 ^ 32"
    "seals_to sa sb Control (control_to_cbor cc (ctl a oc tid rid args))" "tid_ok oc tid b"
  obtains w where
    "send_control fc cc sa now to oc tid rid args a =
      (bump (ctl_key a) (mirror_control now oc tid a), Inr \<lparr>of_to = to, of_wire = w\<rparr>)"
    "on_wire fc cc sb now' w b =
      drain_events (push_event (ControlEv (member_id a) oc tid rid args)
        (apply_control now' (ctl a oc tid rid args) oc
          (saw (ctl_key a) (opt_or (out_seq a (ctl_key a)) 0 + 1) b)))"
proof -
  let ?m = "mirror_control now oc tid a" let ?pt = "control_to_cbor cc (ctl a oc tid rid args)"
  let ?sq = "opt_or (out_seq a (ctl_key a)) 0 + 1"
  have 1: "assert_can_send ?m = Inr ()" "in_step ?m b" "window_open (ctl_key a) (Suc count) ?m b"
    using assms(3,4,5) by simp_all
  obtain ct where
    send: "send_payload fc sa to Control (member_stream_id a 0) (control_flags oc) ?pt Cbor ?m =
      (bump (ctl_key a) ?m, Inr \<lparr>of_to = to, of_wire = frame_to_cbor fc
         (next_frame Control (member_stream_id a 0) (control_flags oc) ct Cbor ?m)\<rparr>)" and
    recv: "on_wire fc cc sb now' (frame_to_cbor fc
         (next_frame Control (member_stream_id a 0) (control_flags oc) ct Cbor ?m)) b =
      drain_events (handle_control cc now' ?pt (saw (ctl_key a) ?sq b))"
    using frame_exchange [OF assms(1) 1 assms(7), of to "control_flags oc" Cbor cc now']
    by (auto simp: if_True)
  have tid: "tid_ok oc tid (saw k sq b)" for k sq
    using assms(8) by (simp add: tid_ok_def saw_def split: control_opcode.splits)
  have "on_wire fc cc sb now' (frame_to_cbor fc
         (next_frame Control (member_stream_id a 0) (control_flags oc) ct Cbor ?m)) b =
      drain_events (push_event (ControlEv (member_id a) oc tid rid args)
        (apply_control now' (ctl a oc tid rid args) oc (saw (ctl_key a) ?sq b)))"
    using recv handle_control_ctl [OF assms(2,6) tid] by simp
  moreover have "send_control fc cc sa now to oc tid rid args a =
      (bump (ctl_key a) ?m, Inr \<lparr>of_to = to, of_wire = frame_to_cbor fc
         (next_frame Control (member_stream_id a 0) (control_flags oc) ct Cbor ?m)\<rparr>)"
    using send by (simp add: send_control_def Let_def ctl_def)
  ultimately show ?thesis using that by blast
qed

subsection \<open>The three-step transition\<close>

lemma saw_simps [simp]:
  "state (saw k sq b) = state b" "out_seq (saw k sq b) = out_seq b" "member_id (saw k sq b) = member_id b"
  "group_id (saw k sq b) = group_id b" "current_epoch (saw k sq b) = current_epoch b"
  "last_transition_id (saw k sq b) = last_transition_id b"
  "pending_transition_id (saw k sq b) = pending_transition_id b"
  "pending_commit_sender (saw k sq b) = pending_commit_sender b"
  "is_coordinator (saw k sq b) = is_coordinator b" "in_hw (saw k sq b) = (in_hw b)(k \<mapsto> sq)"
  "member_stream_id (saw k sq b) base = member_stream_id b base"
  by (simp_all add: saw_def member_stream_id_def)

lemma bump_sel [simp]:
  "state (bump k b) = state b" "in_hw (bump k b) = in_hw b" "member_id (bump k b) = member_id b"
  "group_id (bump k b) = group_id b" "current_epoch (bump k b) = current_epoch b" "events (bump k b) = events b"
  "last_transition_id (bump k b) = last_transition_id b"
  "pending_transition_id (bump k b) = pending_transition_id b"
  "out_seq (bump k b) = (out_seq b)(k \<mapsto> opt_or (out_seq b k) 0 + 1)"
  "member_stream_id (bump k b) base = member_stream_id b base"
  by (simp_all add: bump_def member_stream_id_def)

text \<open>
  The state of the two parties after each step of the transition. \<open>prepared\<close>, \<open>readied\<close> and
  \<open>executed\<close> are what the receiver makes of PREPARE, READY and EXECUTE.
\<close>

lemma receive_prepare:
  assumes "pending_transition_id b = 0" "last_transition_id b < tid" "events b = []"
    "drain_events (push_event e (apply_control now (ctl a PrepareTransition tid rid args) PrepareTransition b))
       = (b1, evs)"
  shows "evs = [e] \<and> state b1 = state b \<and> pending_transition_id b1 = tid
    \<and> pending_commit_sender b1 = Some (member_id a) \<and> in_hw b1 = in_hw b \<and> out_seq b1 = out_seq b
    \<and> group_id b1 = group_id b \<and> current_epoch b1 = current_epoch b \<and> member_id b1 = member_id b
    \<and> last_transition_id b1 = last_transition_id b \<and> events b1 = [] \<and> transition_state b1 = TPrepared
    \<and> execute_deadline b1 = Some (now + T_EXECUTE_MAX_MS) \<and> coordinator_last_seen b1 = Some now"
  using assms
  by (auto simp: drain_events_def push_event_def apply_control_def Let_def note_coordinator_activity_def)

lemma receive_ready:
  assumes "events b = []"
    "drain_events (push_event e (apply_control now (ctl a ReadyForTransition tid rid args) ReadyForTransition b))
       = (b1, evs)"
  shows "evs = [e] \<and> b1 = b\<lparr>transition_state := TReady, prepare_deadline := None\<rparr>"
  using assms by (cases b) (auto simp: drain_events_def push_event_def apply_control_def)

lemma receive_execute:
  assumes "events b = []"
    "drain_events (push_event e (apply_control now (ctl a ExecuteTransition tid rid args) ExecuteTransition b))
       = (b1, evs)"
  shows "evs = [EpochAdvanced (current_epoch b + 1) tid, e] \<and> state b1 = state b
    \<and> current_epoch b1 = current_epoch b + 1 \<and> last_transition_id b1 = tid
    \<and> pending_transition_id b1 = 0 \<and> pending_commit_sender b1 = None \<and> transition_state b1 = TExecuted
    \<and> out_seq b1 = Map.empty \<and> in_hw b1 = Map.empty \<and> execute_deadline b1 = None
    \<and> group_id b1 = group_id b \<and> member_id b1 = member_id b"
  using assms
  by (auto simp: drain_events_def push_event_def apply_control_def apply_transition_def Let_def
      note_coordinator_activity_def)

lemma can_send_Active: "state n = Active \<Longrightarrow> assert_can_send n = Inr ()"
  by (simp add: assert_can_send_def)

lemma prepare_step:
  assumes "reads_back fc" "reads_back cc" "state a = Active" "in_step a b" "events b = []"
    "pending_transition_id b = 0" "last_transition_id b < tid"
    "window_open (ctl_key a) (Suc count) a b" "length args < 2 ^ 32"
    "seals_to sa sb Control (control_to_cbor cc (ctl a PrepareTransition tid rid args))"
  obtains w b1 where
    "send_control fc cc sa t to PrepareTransition tid rid args a =
      (bump (ctl_key a) (mirror_control t PrepareTransition tid a), Inr \<lparr>of_to = to, of_wire = w\<rparr>)"
    "on_wire fc cc sb t' w b = (b1, [ControlEv (member_id a) PrepareTransition tid rid args])"
    "state b1 = state b" "pending_transition_id b1 = tid" "events b1 = []" "out_seq b1 = out_seq b"
    "in_hw b1 = (in_hw b)(ctl_key a \<mapsto> opt_or (out_seq a (ctl_key a)) 0 + 1)"
    "group_id b1 = group_id b" "current_epoch b1 = current_epoch b" "member_id b1 = member_id b"
    "last_transition_id b1 = last_transition_id b"
proof -
  have "tid_ok PrepareTransition tid b" using assms(6,7) by (simp add: tid_ok_def)
  from control_exchange [OF assms(1,2) can_send_Active [OF assms(3)] assms(4,8,9,10) this, of t to t']
  obtain w where s: "send_control fc cc sa t to PrepareTransition tid rid args a =
      (bump (ctl_key a) (mirror_control t PrepareTransition tid a), Inr \<lparr>of_to = to, of_wire = w\<rparr>)"
    and o: "on_wire fc cc sb t' w b =
      drain_events (push_event (ControlEv (member_id a) PrepareTransition tid rid args)
        (apply_control t' (ctl a PrepareTransition tid rid args) PrepareTransition
          (saw (ctl_key a) (opt_or (out_seq a (ctl_key a)) 0 + 1) b)))" by blast
  obtain b1 evs where b1: "on_wire fc cc sb t' w b = (b1, evs)" by force
  note B1 = receive_prepare [OF _ _ _ o [symmetric, unfolded b1], simplified, OF assms(6,7,5)]
  show ?thesis by (rule that [OF s, of b1]) (use b1 B1 in simp_all)
qed

lemma ready_step:
  assumes "reads_back fc" "reads_back cc" "state b = Active" "in_step b a" "events a = []"
    "pending_transition_id a = tid" "tid \<noteq> 0" "window_open (ctl_key b) (Suc count) b a"
    "seals_to sb sa Control (control_to_cbor cc (ctl b ReadyForTransition tid rid []))"
  obtains w where
    "send_control fc cc sb t to ReadyForTransition tid rid [] b =
      (bump (ctl_key b) (mirror_control t ReadyForTransition tid b), Inr \<lparr>of_to = to, of_wire = w\<rparr>)"
    "on_wire fc cc sa t' w a =
      ((saw (ctl_key b) (opt_or (out_seq b (ctl_key b)) 0 + 1) a)
         \<lparr>transition_state := TReady, prepare_deadline := None\<rparr>,
       [ControlEv (member_id b) ReadyForTransition tid rid []])"
proof -
  have "tid_ok ReadyForTransition tid a" using assms(6,7) by (simp add: tid_ok_def)
  from control_exchange [OF assms(1,2) can_send_Active [OF assms(3)] assms(4,8) _ assms(9) this, of t to t']
  obtain w where s: "send_control fc cc sb t to ReadyForTransition tid rid [] b =
      (bump (ctl_key b) (mirror_control t ReadyForTransition tid b), Inr \<lparr>of_to = to, of_wire = w\<rparr>)"
    and o: "on_wire fc cc sa t' w a =
      drain_events (push_event (ControlEv (member_id b) ReadyForTransition tid rid [])
        (apply_control t' (ctl b ReadyForTransition tid rid []) ReadyForTransition
          (saw (ctl_key b) (opt_or (out_seq b (ctl_key b)) 0 + 1) a)))" by auto
  obtain a1 evs where a1: "on_wire fc cc sa t' w a = (a1, evs)" by force
  note A1 = receive_ready [OF _ o [symmetric, unfolded a1], simplified, OF assms(5)]
  show ?thesis by (rule that [OF s]) (use a1 A1 in simp)
qed

lemma execute_step:
  assumes "reads_back fc" "reads_back cc" "state a = Active" "in_step a b" "events b = []"
    "pending_transition_id b = tid" "tid \<noteq> 0" "window_open (ctl_key a) (Suc count) a b"
    "seals_to sa sb Control (control_to_cbor cc (ctl a ExecuteTransition tid rid []))"
  obtains w b1 where
    "send_control fc cc sa t to ExecuteTransition tid rid [] a =
      (bump (ctl_key a) (mirror_control t ExecuteTransition tid a), Inr \<lparr>of_to = to, of_wire = w\<rparr>)"
    "on_wire fc cc sb t' w b =
      (b1, [EpochAdvanced (current_epoch b + 1) tid, ControlEv (member_id a) ExecuteTransition tid rid []])"
    "state b1 = state b" "current_epoch b1 = current_epoch b + 1" "last_transition_id b1 = tid"
    "pending_transition_id b1 = 0" "transition_state b1 = TExecuted" "out_seq b1 = Map.empty"
    "in_hw b1 = Map.empty" "execute_deadline b1 = None" "group_id b1 = group_id b"
proof -
  have "tid_ok ExecuteTransition tid b" using assms(6,7) by (simp add: tid_ok_def)
  from control_exchange [OF assms(1,2) can_send_Active [OF assms(3)] assms(4,8) _ assms(9) this, of t to t']
  obtain w where s: "send_control fc cc sa t to ExecuteTransition tid rid [] a =
      (bump (ctl_key a) (mirror_control t ExecuteTransition tid a), Inr \<lparr>of_to = to, of_wire = w\<rparr>)"
    and o: "on_wire fc cc sb t' w b =
      drain_events (push_event (ControlEv (member_id a) ExecuteTransition tid rid [])
        (apply_control t' (ctl a ExecuteTransition tid rid []) ExecuteTransition
          (saw (ctl_key a) (opt_or (out_seq a (ctl_key a)) 0 + 1) b)))" by auto
  obtain b1 evs where b1: "on_wire fc cc sb t' w b = (b1, evs)" by force
  note B1 = receive_execute [OF _ o [symmetric, unfolded b1], simplified, OF assms(5)]
  show ?thesis by (rule that [OF s, of b1]) (use b1 B1 in simp_all)
qed

lemma apply_transition_sel [simp]:
  "current_epoch (apply_transition tid n) = current_epoch n + 1"
  "last_transition_id (apply_transition tid n) = tid" "pending_transition_id (apply_transition tid n) = 0"
  "transition_state (apply_transition tid n) = TExecuted" "state (apply_transition tid n) = state n"
  "out_seq (apply_transition tid n) = Map.empty" "in_hw (apply_transition tid n) = Map.empty"
  "execute_deadline (apply_transition tid n) = execute_deadline n"
  "group_id (apply_transition tid n) = group_id n"
  by (simp_all add: apply_transition_def push_event_def)

lemma prepare_ready_steps:
  assumes codecs: "reads_back fc" "reads_back cc"
    and states: "state a = Active" "state b = Active" "events a = []" "events b = []" "in_step a b"
    and new_id: "pending_transition_id b = 0" "last_transition_id b < tid"
    and windows: "window_open (ctl_key a) 2 a b" "window_open (ctl_key b) 1 b a"
    and args: "length commit < 2 ^ 32"
    and seals: "seals_to sa sb Control (control_to_cbor cc (ctl a PrepareTransition tid r1 commit))"
      "seals_to sb sa Control (control_to_cbor cc (ctl b ReadyForTransition tid r2 []))"
  obtains a1 w1 b1 b2 w2 a2 where
    "send_control fc cc sa t1 (member_id b) PrepareTransition tid r1 commit a = (a1, Inr w1)"
    "on_wire fc cc sb t2 (of_wire w1) b = (b1, [ControlEv (member_id a) PrepareTransition tid r1 commit])"
    "send_control fc cc sb t3 (member_id a) ReadyForTransition tid r2 [] b1 = (b2, Inr w2)"
    "on_wire fc cc sa t4 (of_wire w2) a1 = (a2, [ControlEv (member_id b) ReadyForTransition tid r2 []])"
    "state a2 = Active" "state b2 = Active" "pending_transition_id b2 = tid" "execute_deadline a2 = None"
    "events b2 = []" "member_id a2 = member_id a" "ctl_key a2 = ctl_key a" "group_id a2 = group_id a"
    "current_epoch a2 = current_epoch a" "group_id b2 = group_id b" "current_epoch b2 = current_epoch b"
    "in_step a2 b2" "window_open (ctl_key a2) (Suc 0) a2 b2"
proof -
  have tid0: "tid \<noteq> 0" using new_id(2) by auto
  have eq: "group_id a = group_id b" "length (group_id b) = 16" "current_epoch a = current_epoch b"
    "last_transition_id a = last_transition_id b" using states(5) by (auto simp: in_step_def)
  have w2: "window_open (ctl_key a) (Suc 1) a b" using windows(1) by (simp add: numeral_2_eq_2)
  define a1 where "a1 = bump (ctl_key a) (mirror_control t1 PrepareTransition tid a)"
  obtain wire1 b1 where
    s1: "send_control fc cc sa t1 (member_id b) PrepareTransition tid r1 commit a =
      (a1, Inr \<lparr>of_to = member_id b, of_wire = wire1\<rparr>)"
    "on_wire fc cc sb t2 wire1 b = (b1, [ControlEv (member_id a) PrepareTransition tid r1 commit])"
    and B1: "state b1 = Active" "pending_transition_id b1 = tid" "events b1 = []" "out_seq b1 = out_seq b"
      "in_hw b1 = (in_hw b)(ctl_key a \<mapsto> opt_or (out_seq a (ctl_key a)) 0 + 1)"
      "group_id b1 = group_id b" "current_epoch b1 = current_epoch b" "member_id b1 = member_id b"
      "last_transition_id b1 = last_transition_id b"
    using prepare_step [OF codecs states(1,5,4) new_id w2 args seals(1), of t1 "member_id b" t2]
      states(2) a1_def by metis
  have k: "ctl_key b1 = ctl_key b" and c: "ctl b1 oc tid r2 [] = ctl b oc tid r2 []" for oc
    using B1(8) by (simp_all add: member_stream_id_def ctl_def)
  have A1: "in_step b1 a1" "events a1 = []" "pending_transition_id a1 = tid" "state a1 = Active"
    "window_open (ctl_key b1) (Suc 0) b1 a1" "execute_deadline a1 = None"
    using B1 eq states windows(2) unfolding k
    by (simp_all add: a1_def in_step_def window_open_def mirror_control_def) (simp add: bump_def)
  define b2 where "b2 = bump (ctl_key b) (mirror_control t3 ReadyForTransition tid b1)"
  define a2 where "a2 = (saw (ctl_key b) (opt_or (out_seq b1 (ctl_key b)) 0 + 1) a1)
    \<lparr>transition_state := TReady, prepare_deadline := None\<rparr>"
  obtain wire2 where
    s2: "send_control fc cc sb t3 (member_id a) ReadyForTransition tid r2 [] b1 =
      (b2, Inr \<lparr>of_to = member_id a, of_wire = wire2\<rparr>)"
    "on_wire fc cc sa t4 wire2 a1 = (a2, [ControlEv (member_id b) ReadyForTransition tid r2 []])"
    using ready_step [OF codecs B1(1) A1(1,2,3) tid0 A1(5) seals(2) [folded c], of t3 "member_id a" t4]
    unfolding a2_def b2_def k B1(8) by metis
  have ka: "ctl_key a2 = ctl_key a" by (simp add: a2_def a1_def member_stream_id_def)
  have member_a2: "member_id a2 = member_id a" by (simp add: a2_def a1_def)
  have A2: "state a2 = Active" "pending_transition_id b2 = tid" "execute_deadline a2 = None" "events b2 = []"
    using A1(4,6) B1(2,3) by (simp_all add: a2_def b2_def saw_def mirror_control_def)
  have E2: "group_id a2 = group_id a" "current_epoch a2 = current_epoch a"
    "last_transition_id a2 = last_transition_id a" "group_id b2 = group_id b"
    "current_epoch b2 = current_epoch b" "last_transition_id b2 = last_transition_id b"
    using B1(6,7,9) by (simp_all add: a2_def a1_def b2_def)
  have I2: "in_step a2 b2" using E2 eq by (simp add: in_step_def)
  have W2: "window_open (ctl_key a2) (Suc 0) a2 b2"
    using next_counter(2) [OF w2] w2 B1(5) unfolding ka
    by (simp add: window_open_def a2_def a1_def b2_def)
  have b2: "state b2 = Active" using B1(1) by (simp add: b2_def)
  show ?thesis
    by (rule that [of a1 "\<lparr>of_to = member_id b, of_wire = wire1\<rparr>" b1 b2
          "\<lparr>of_to = member_id a, of_wire = wire2\<rparr>" a2])
      (simp_all add: s1 s2 b2 A2 member_a2 ka E2 I2 W2 [unfolded ka])
qed

text \<open>
  C3. The transition completes. Let a coordinator and a member be active and in step, with open
  windows in both directions. PREPARE, READY and EXECUTE for a new transition id are then all sent
  and accepted; after the coordinator applies the transition, both are at the next epoch with the new
  id as the last one, nothing pending, empty counters and windows, and still active and in step; the
  member saw exactly the control messages and one epoch change.
\<close>

theorem transition_completes:
  assumes codecs: "reads_back fc" "reads_back cc"
    and states: "state a = Active" "state b = Active" "events a = []" "events b = []" "in_step a b"
    and new_id: "pending_transition_id b = 0" "last_transition_id b < tid"
    and windows: "window_open (ctl_key a) 2 a b" "window_open (ctl_key b) 1 b a"
    and args: "length commit < 2 ^ 32"
    and seals: "seals_to sa sb Control (control_to_cbor cc (ctl a PrepareTransition tid r1 commit))"
      "seals_to sb sa Control (control_to_cbor cc (ctl b ReadyForTransition tid r2 []))"
      "seals_to sa sb Control (control_to_cbor cc (ctl a ExecuteTransition tid r3 []))"
  shows "\<exists>a1 w1 b1 b2 w2 a2 a3 w3 b3.
      send_control fc cc sa t1 (member_id b) PrepareTransition tid r1 commit a = (a1, Inr w1)
    \<and> on_wire fc cc sb t2 (of_wire w1) b = (b1, [ControlEv (member_id a) PrepareTransition tid r1 commit])
    \<and> send_control fc cc sb t3 (member_id a) ReadyForTransition tid r2 [] b1 = (b2, Inr w2)
    \<and> on_wire fc cc sa t4 (of_wire w2) a1 = (a2, [ControlEv (member_id b) ReadyForTransition tid r2 []])
    \<and> send_control fc cc sa t5 (member_id b) ExecuteTransition tid r3 [] a2 = (a3, Inr w3)
    \<and> on_wire fc cc sb t6 (of_wire w3) b2 =
        (b3, [EpochAdvanced (current_epoch b + 1) tid, ControlEv (member_id a) ExecuteTransition tid r3 []])
    \<and> (\<forall>n\<in>{apply_transition tid a3, b3}. current_epoch n = current_epoch a + 1 \<and> last_transition_id n = tid
        \<and> pending_transition_id n = 0 \<and> transition_state n = TExecuted \<and> state n = Active
        \<and> out_seq n = Map.empty \<and> in_hw n = Map.empty \<and> execute_deadline n = None)
    \<and> in_step (apply_transition tid a3) b3"
proof -
  have tid0: "tid \<noteq> 0" using new_id(2) by auto
  have eq: "group_id a = group_id b" "length (group_id b) = 16" "current_epoch a = current_epoch b"
    using states(5) by (auto simp: in_step_def)
  obtain a1 w1 b1 b2 w2 a2 where
    S: "send_control fc cc sa t1 (member_id b) PrepareTransition tid r1 commit a = (a1, Inr w1)"
      "on_wire fc cc sb t2 (of_wire w1) b = (b1, [ControlEv (member_id a) PrepareTransition tid r1 commit])"
      "send_control fc cc sb t3 (member_id a) ReadyForTransition tid r2 [] b1 = (b2, Inr w2)"
      "on_wire fc cc sa t4 (of_wire w2) a1 = (a2, [ControlEv (member_id b) ReadyForTransition tid r2 []])"
    and A2: "state a2 = Active" "state b2 = Active" "pending_transition_id b2 = tid"
      "execute_deadline a2 = None" "events b2 = []" "member_id a2 = member_id a"
    and ka: "ctl_key a2 = ctl_key a"
    and E2: "group_id a2 = group_id a" "current_epoch a2 = current_epoch a" "group_id b2 = group_id b"
      "current_epoch b2 = current_epoch b"
    and I2: "in_step a2 b2" and W2: "window_open (ctl_key a2) (Suc 0) a2 b2"
    by (rule prepare_ready_steps [OF codecs states new_id windows args seals(1,2)])
  have c2: "ctl a2 ExecuteTransition tid r3 [] = ctl a ExecuteTransition tid r3 []"
    using A2(6) by (simp add: ctl_def)
  define a3 where "a3 = bump (ctl_key a2) (mirror_control t5 ExecuteTransition tid a2)"
  obtain wire3 b3 where
    s3: "send_control fc cc sa t5 (member_id b) ExecuteTransition tid r3 [] a2 =
      (a3, Inr \<lparr>of_to = member_id b, of_wire = wire3\<rparr>)"
    "on_wire fc cc sb t6 wire3 b2 =
      (b3, [EpochAdvanced (current_epoch b2 + 1) tid, ControlEv (member_id a2) ExecuteTransition tid r3 []])"
    and B3: "state b3 = state b2" "current_epoch b3 = current_epoch b2 + 1" "last_transition_id b3 = tid"
    "pending_transition_id b3 = 0" "transition_state b3 = TExecuted" "out_seq b3 = Map.empty"
    "in_hw b3 = Map.empty" "execute_deadline b3 = None" "group_id b3 = group_id b2"
    unfolding a3_def
    by (rule execute_step [OF codecs A2(1) I2 A2(5,3) tid0 W2 seals(3) [folded c2], of t5 "member_id b" t6])
  have A3: "state a3 = Active" "execute_deadline a3 = None" "group_id a3 = group_id a"
    "current_epoch a3 = current_epoch a"
    using A2(1,4) E2 by (simp_all add: a3_def bump_def mirror_control_def)
  show ?thesis
    by (rule exI [where x = a1], rule exI [where x = w1], rule exI [where x = b1],
        rule exI [where x = b2], rule exI [where x = w2], rule exI [where x = a2],
        rule exI [where x = a3], rule exI [where x = "\<lparr>of_to = member_id b, of_wire = wire3\<rparr>"],
        rule exI [where x = b3])
      (simp add: S s3 [unfolded E2 A2(6)] A2 A3 B3 E2 eq in_step_def)
qed

theorem transition_completes_witness:
  "\<exists>a1 w1 b1. send_control toy_frame_codec toy_control_codec plain_sealer 0 2 PrepareTransition 5 1 [7]
      (active_node 1) = (a1, Inr w1)
    \<and> on_wire toy_frame_codec toy_control_codec plain_sealer 0 (of_wire w1) (active_node 2)
        = (b1, [ControlEv 1 PrepareTransition 5 1 [7]])"
proof -
  have short: "seals_to plain_sealer plain_sealer Control
      (control_to_cbor toy_control_codec (ctl (active_node m) oc 5 r args))"
    if "length args < 10" for m oc r args
    using that
    by (intro plain_sealer_seals)
      (simp add: control_to_cbor_def toy_control_codec_def field_codec_def put_fields_def
        bits_of_def)
  show ?thesis
    using transition_completes [of toy_frame_codec toy_control_codec "active_node 1" "active_node 2" 5
        "[7]" plain_sealer plain_sealer 1 1 1 0 0 0 0 0 0] short
    by (simp add: window_open_def) blast
qed

end
