(* ===== verification/Gbp_Node_Control.thy ===== *)
theory Gbp_Node_Control
  imports Gbp_Node_Exchange
begin

section \<open>Contested roles, timeouts and restarts\<close>

text \<open>
  The parts of the control plane where members compete or fail: two commits prepared for the same
  transition, two coordinators claiming the role, deadlines that expire, a node rebuilt from its
  exported counters, and what a frame that does not open does to the replay window.
\<close>

subsection \<open>Contested preparations\<close>

text \<open>A sequence of PREPARE messages for one transition id: clock, sender, request id, arguments.\<close>

definition receive_prepare_msg ::
    "control_message serialiser \<Rightarrow> u32 \<Rightarrow> instant \<times> u32 \<times> u32 \<times> bytes \<Rightarrow> group_node \<Rightarrow> group_node" where
  "receive_prepare_msg cc tid p n =
     (case p of (now, sender, rid, args) \<Rightarrow>
        handle_control cc now
          (control_to_cbor cc (control_with_args (opcode_as_u16 PrepareTransition) rid sender tid args)) n)"

definition prepare_sender :: "instant \<times> u32 \<times> u32 \<times> bytes \<Rightarrow> u32" where
  "prepare_sender p = fst (snd p)"

definition prepare_args :: "instant \<times> u32 \<times> u32 \<times> bytes \<Rightarrow> bytes" where
  "prepare_args p = snd (snd (snd p))"

lemma receive_prepare_msg_eq:
  assumes "reads_back cc" "length (prepare_args p) < 2 ^ 32" "last_transition_id n < tid"
    "pending_transition_id n = 0 \<or> pending_transition_id n = tid"
  shows "pending_transition_id (receive_prepare_msg cc tid p n) = tid"
    and "last_transition_id (receive_prepare_msg cc tid p n) = last_transition_id n"
    and "pending_commit_sender (receive_prepare_msg cc tid p n) =
      (if pending_transition_id n = tid \<and> opt_or (pending_commit_sender n) (- 1) \<le> prepare_sender p
       then pending_commit_sender n else Some (prepare_sender p))"
proof -
  obtain now sender rid args where p: "p = (now, sender, rid, args)" by (cases p)
  have "tid_ok PrepareTransition tid n" using assms(3,4) by (auto simp: tid_ok_def)
  then have "receive_prepare_msg cc tid p n =
      push_event (ControlEv sender PrepareTransition tid rid args)
        (apply_control now (control_with_args (opcode_as_u16 PrepareTransition) rid sender tid args)
          PrepareTransition n)"
    using control_with_args_round_trip [OF assms(1)] assms(2) p
    by (simp add: receive_prepare_msg_def handle_control_def control_event_def prepare_args_def
        del: opcode_as_u16.simps)
  then show "pending_transition_id (receive_prepare_msg cc tid p n) = tid"
    and "last_transition_id (receive_prepare_msg cc tid p n) = last_transition_id n"
    and "pending_commit_sender (receive_prepare_msg cc tid p n) =
      (if pending_transition_id n = tid \<and> opt_or (pending_commit_sender n) (- 1) \<le> prepare_sender p
       then pending_commit_sender n else Some (prepare_sender p))"
    by (auto simp: push_event_def apply_control_def Let_def note_coordinator_activity_def p
        prepare_sender_def)
qed

lemma contested_fold:
  assumes "reads_back cc" "\<forall>p\<in>set ps. length (prepare_args p) < 2 ^ 32"
    "last_transition_id n < tid" "pending_transition_id n = tid" "pending_commit_sender n = Some w"
  shows "pending_commit_sender (fold (receive_prepare_msg cc tid) ps n)
      = Some (Min (insert w (prepare_sender ` set ps)))
    \<and> pending_transition_id (fold (receive_prepare_msg cc tid) ps n) = tid"
  using assms
proof (induction ps arbitrary: n w)
  case (Cons p ps)
  have "length (prepare_args p) < 2 ^ 32" using Cons.prems(2) by simp
  note r = receive_prepare_msg_eq [OF Cons.prems(1) this Cons.prems(3) disjI2 [OF Cons.prems(4)]]
  have min: "pending_commit_sender (receive_prepare_msg cc tid p n) = Some (min w (prepare_sender p))"
    using r(3) Cons.prems(4,5) by (auto simp: min_def)
  have "Min (insert (min w (prepare_sender p)) (prepare_sender ` set ps))
      = Min (insert w (insert (prepare_sender p) (prepare_sender ` set ps)))"
    by (cases "set ps = {}") (simp_all add: min.assoc)
  then show ?case using Cons.IH [OF Cons.prems(1) _ _ r(1) min] Cons.prems(2,3) r(2) by simp
qed simp

text \<open>
  C22. Contested preparations converge. When several members prepare the same new transition, the
  node ends with the member of lowest id as the winner, whatever the order in which the messages
  arrive and however often each is repeated; so all members that receive the same set of PREPAREs
  agree. (The protocol document prefers the first valid commit by receive order and uses the lowest id only to break
  ties; the code compares ids only.)
\<close>

theorem lowest_preparer_wins:
  assumes "reads_back cc" and "ps \<noteq> []" and "\<forall>p\<in>set ps. length (prepare_args p) < 2 ^ 32"
    and "pending_transition_id n = 0" and "last_transition_id n < tid"
  shows "pending_commit_sender (fold (receive_prepare_msg cc tid) ps n) = Some (Min (prepare_sender ` set ps))
    \<and> pending_transition_id (fold (receive_prepare_msg cc tid) ps n) = tid"
proof -
  obtain p qs where ps: "ps = p # qs" using assms(2) by (cases ps) auto
  have "length (prepare_args p) < 2 ^ 32" using assms(3) ps by simp
  note r = receive_prepare_msg_eq [OF assms(1) this assms(5) disjI1 [OF assms(4)]]
  have "tid \<noteq> 0" using assms(5) by auto
  then have "pending_commit_sender (receive_prepare_msg cc tid p n) = Some (prepare_sender p)"
    using r(3) assms(4) by auto
  from contested_fold [OF assms(1) _ _ r(1) this, of qs] assms(3,5) ps r(2) show ?thesis by simp
qed

theorem lowest_preparer_wins_witness:
  "pending_commit_sender (fold (receive_prepare_msg toy_control_codec 1)
      [(0, 30, 1, []), (1, 10, 2, [5]), (2, 20, 3, [])] (active_node 7)) = Some 10"
  using lowest_preparer_wins [of toy_control_codec "[(0, 30, 1, []), (1, 10, 2, [5]), (2, 20, 3, [])]"
      "active_node 7" 1]
  by (simp add: prepare_args_def prepare_sender_def)

text \<open>
  The issuer's own preparation does not take part in that comparison: a node that sends a
  PREPARE records no winner, so a competing PREPARE for the same id from any other member, even one
  with a higher id, replaces the node's own (only the largest id of all does not).
\<close>

theorem own_preparation_unprotected:
  assumes "reads_back cc" and "pending_commit_sender n = None" and "last_transition_id n < tid"
    and "sender < - 1" and "length args < 2 ^ 32"
  shows "pending_commit_sender
      (receive_prepare_msg cc tid (now', sender, rid', args)
        (fst (send_control fc cc s now to PrepareTransition tid rid args' n))) = Some sender"
proof -
  let ?n1 = "fst (send_control fc cc s now to PrepareTransition tid rid args' n)"
  have "pending_commit_sender ?n1 = None" "pending_transition_id ?n1 = tid" "last_transition_id ?n1 = last_transition_id n"
    using assms(2)
    by (auto simp: send_control_def send_payload_def mirror_control_def next_seq_def Let_def split: sum.split)
  then show ?thesis
    using receive_prepare_msg_eq(3) [OF assms(1), of "(now', sender, rid', args)" ?n1 tid] assms(3,4,5)
    by (simp add: prepare_args_def prepare_sender_def)
qed

theorem own_preparation_unprotected_witness:
  "pending_commit_sender
     (receive_prepare_msg toy_control_codec 1 (0, 900, 1, [])
       (fst (send_control toy_frame_codec toy_control_codec plain_sealer 0 2 PrepareTransition 1 1 [] (active_node 1))))
   = Some 900"
  by (rule own_preparation_unprotected) simp_all

subsection \<open>Contested coordinator claims\<close>

lemma has_window_claim_args [simp]: "is_coordinator_claim claim_args"
  by (simp add: is_coordinator_claim_def)

lemma claim_as_control:
  "claim_coordinator fc cc s now to n =
     send_control fc cc s now to CapabilitiesAdvertise (last_transition_id n) 0 claim_args
       (push_event BecameCoordinator (n\<lparr>is_coordinator := True, coordinator_last_seen := Some now\<rparr>))"
  by (simp add: claim_coordinator_def push_event_def)

definition claimed :: "instant \<Rightarrow> group_node \<Rightarrow> group_node" where
  "claimed now n = push_event BecameCoordinator (n\<lparr>is_coordinator := True, coordinator_last_seen := Some now\<rparr>)"

lemma claimed_sel [simp]:
  "state (claimed t n) = state n" "member_id (claimed t n) = member_id n" "is_coordinator (claimed t n)"
  "out_seq (claimed t n) = out_seq n" "in_hw (claimed t n) = in_hw n"
  "in_step (claimed t a) b = in_step a b" "in_step a (claimed t b) = in_step a b"
  "member_stream_id (claimed t n) base = member_stream_id n base"
  "last_transition_id (claimed t n) = last_transition_id n"
  "window_open k c (claimed t a) b = window_open k c a b"
  "window_open k c a (claimed t b) = window_open k c a b"
  by (simp_all add: claimed_def push_event_def in_step_def member_stream_id_def window_open_def)

lemma claim_step:
  assumes "reads_back fc" "reads_back cc" "state a = Active" "in_step a b" "window_open (ctl_key a) 1 a b"
    "seals_to sa sb Control (control_to_cbor cc (ctl a CapabilitiesAdvertise (last_transition_id a) 0 claim_args))"
  obtains w where
    "claim_coordinator fc cc sa t to a = (bump (ctl_key a) (claimed t a), Inr \<lparr>of_to = to, of_wire = w\<rparr>)"
    "is_coordinator (fst (on_wire fc cc sb t' w b)) \<longleftrightarrow> is_coordinator b \<and> member_id b \<le> member_id a"
    "CoordinatorClaim (member_id a) \<in> set (snd (on_wire fc cc sb t' w b))"
proof -
  let ?a = "claimed t a"
  have ctl: "ctl ?a oc tid r args = ctl a oc tid r args" for oc tid r args by (simp add: ctl_def)
  have "assert_can_send ?a = Inr ()" using assms(3) by (simp add: can_send_Active)
  moreover have "in_step ?a b" "window_open (ctl_key ?a) (Suc 0) ?a b" using assms(4,5) by simp_all
  moreover have "tid_ok CapabilitiesAdvertise (last_transition_id a) b" by (simp add: tid_ok_def)
  ultimately obtain w where
    s: "send_control fc cc sa t to CapabilitiesAdvertise (last_transition_id a) 0 claim_args ?a =
      (bump (ctl_key a) (mirror_control t CapabilitiesAdvertise (last_transition_id a) ?a),
       Inr \<lparr>of_to = to, of_wire = w\<rparr>)" and
    o: "on_wire fc cc sb t' w b =
      drain_events (push_event (ControlEv (member_id a) CapabilitiesAdvertise (last_transition_id a) 0 claim_args)
        (apply_control t' (ctl a CapabilitiesAdvertise (last_transition_id a) 0 claim_args)
          CapabilitiesAdvertise (saw (ctl_key a) (opt_or (out_seq a (ctl_key a)) 0 + 1) b)))"
    using control_exchange [OF assms(1,2) _ _ _ _ assms(6) [folded ctl [of _ _ _ _]], of b 0 t to t']
    by (auto simp: ctl claim_args_def)
  have m: "mirror_control t CapabilitiesAdvertise x ?a = ?a" for x by (simp add: mirror_control_def)
  show ?thesis
  proof (rule that [of w])
    show "claim_coordinator fc cc sa t to a = (bump (ctl_key a) (claimed t a), Inr \<lparr>of_to = to, of_wire = w\<rparr>)"
      using s m by (simp add: claim_as_control claimed_def)
    show "is_coordinator (fst (on_wire fc cc sb t' w b)) \<longleftrightarrow> is_coordinator b \<and> member_id b \<le> member_id a"
      "CoordinatorClaim (member_id a) \<in> set (snd (on_wire fc cc sb t' w b))"
      unfolding o by (auto simp: drain_events_def push_event_def apply_control_def Let_def
          note_coordinator_activity_def not_le)
  qed
qed

lemma bump_receiver [simp]:
  "in_step a (bump k b) = in_step a b" "window_open k' c a (bump k b) = window_open k' c a b"
  "is_coordinator (bump k b) = is_coordinator b"
  by (simp_all add: in_step_def window_open_def bump_def)

text \<open>
  One coordinator remains. When two active members claim the role at the same time and then
  receive each other's claim, the one with the lower id keeps it and the other yields.
\<close>

theorem lowest_claimant_remains:
  assumes "reads_back fc" "reads_back cc" "state a = Active" "state b = Active" "in_step a b"
    and "member_id a \<noteq> member_id b"
    and "window_open (ctl_key a) 1 a b" "window_open (ctl_key b) 1 b a"
    and "seals_to sa sb Control
        (control_to_cbor cc (ctl a CapabilitiesAdvertise (last_transition_id a) 0 claim_args))"
    and "seals_to sb sa Control
        (control_to_cbor cc (ctl b CapabilitiesAdvertise (last_transition_id b) 0 claim_args))"
  shows "\<exists>a1 wa b1 wb. claim_coordinator fc cc sa t to_b a = (a1, Inr wa)
    \<and> claim_coordinator fc cc sb t' to_a b = (b1, Inr wb)
    \<and> (is_coordinator (fst (on_wire fc cc sa u (of_wire wb) a1)) \<longleftrightarrow> member_id a < member_id b)
    \<and> (is_coordinator (fst (on_wire fc cc sb u' (of_wire wa) b1)) \<longleftrightarrow> member_id b < member_id a)"
proof -
  have in': "in_step b a" using assms(5) by (auto simp: in_step_def)
  obtain wa where a: "claim_coordinator fc cc sa t to_b a = (bump (ctl_key a) (claimed t a), Inr \<lparr>of_to = to_b, of_wire = wa\<rparr>)"
    and ra: "is_coordinator (fst (on_wire fc cc sb u' wa (bump (ctl_key b) (claimed t' b))))
      \<longleftrightarrow> member_id b \<le> member_id a"
    using claim_step [OF assms(1,2,3) _ _ assms(9), of "bump (ctl_key b) (claimed t' b)" t to_b u'] assms(5,7)
    by auto
  obtain wb where b: "claim_coordinator fc cc sb t' to_a b = (bump (ctl_key b) (claimed t' b), Inr \<lparr>of_to = to_a, of_wire = wb\<rparr>)"
    and rb: "is_coordinator (fst (on_wire fc cc sa u wb (bump (ctl_key a) (claimed t a))))
      \<longleftrightarrow> member_id a \<le> member_id b"
    using claim_step [OF assms(1,2,4) _ _ assms(10), of "bump (ctl_key a) (claimed t a)" t' to_a u] in' assms(8)
    by auto
  show ?thesis using a b ra rb assms(6) by (auto simp: order.order_iff_strict)
qed

lemma toy_control_short:
  "length (c_args c) < 1000 \<Longrightarrow> length (control_to_cbor toy_control_codec c) < 2 ^ 32"
  by (simp add: control_to_cbor_def toy_control_codec_def field_codec_def put_fields_def bits_of_def)

theorem lowest_claimant_remains_witness:
  "\<exists>b1 wb a1 wa. claim_coordinator toy_frame_codec toy_control_codec plain_sealer 0 2 (active_node 1) = (a1, Inr wa)
    \<and> claim_coordinator toy_frame_codec toy_control_codec plain_sealer 0 1 (active_node 2) = (b1, Inr wb)
    \<and> is_coordinator (fst (on_wire toy_frame_codec toy_control_codec plain_sealer 0 (of_wire wb) a1))
    \<and> \<not> is_coordinator (fst (on_wire toy_frame_codec toy_control_codec plain_sealer 0 (of_wire wa) b1))"
proof -
  have "seals_to plain_sealer plain_sealer Control
      (control_to_cbor toy_control_codec (ctl (active_node m) CapabilitiesAdvertise 0 0 claim_args))" for m
    by (intro plain_sealer_seals toy_control_short) (simp add: claim_args_def)
  then show ?thesis
    using lowest_claimant_remains [of toy_frame_codec toy_control_codec "active_node 1" "active_node 2"
        plain_sealer plain_sealer 0 2 0 1 0 0]
    by (simp add: window_open_def) blast
qed

subsection \<open>Timeouts\<close>

definition due :: "instant option \<Rightarrow> instant \<Rightarrow> bool" where
  "due d now \<longleftrightarrow> (case d of None \<Rightarrow> False | Some t \<Rightarrow> t \<le> now)"

definition silent :: "instant option \<Rightarrow> instant \<Rightarrow> bool" where
  "silent d now \<longleftrightarrow> (case d of None \<Rightarrow> False | Some t \<Rightarrow> now - t \<ge> T_COORDINATOR_GRACE_MS)"

lemma timeout_errors:
  "emit_err_spec PREPARE_TIMEOUT r n = push_event (ErrorEv PREPARE_TIMEOUT State True False r) n"
  "emit_err_spec EXECUTE_TIMEOUT r n = push_event (ErrorEv EXECUTE_TIMEOUT State True False r) n"
  "emit_err_spec COORDINATOR_GONE r n = push_event (ErrorEv COORDINATOR_GONE State True False r) n"
  by (simp_all add: emit_err_spec_def emit_err_named_def lookup_def)

text \<open>The specification: the deadlines that are due are reported and disarmed.\<close>

definition after_timeouts :: "instant \<Rightarrow> group_node \<Rightarrow> group_node" where
  "after_timeouts now n =
     n\<lparr>events := [],
       pending_transition_id := (if due (prepare_deadline n) now then 0 else pending_transition_id n),
       transition_state := (if due (prepare_deadline n) now then TAborted else transition_state n),
       prepare_deadline := (if due (prepare_deadline n) now then None else prepare_deadline n),
       execute_deadline := (if due (prepare_deadline n) now \<or> due (execute_deadline n) now then None
                            else execute_deadline n),
       coordinator_last_seen := (if silent (coordinator_last_seen n) now then None else coordinator_last_seen n),
       is_coordinator := (is_coordinator n \<and> \<not> silent (coordinator_last_seen n) now)\<rparr>"

definition timeout_events :: "instant \<Rightarrow> group_node \<Rightarrow> event list" where
  "timeout_events now n =
     (if due (prepare_deadline n) now
      then [ErrorEv PREPARE_TIMEOUT State True False ''T_prepare_max exceeded''] else [])
     @ (if \<not> due (prepare_deadline n) now \<and> due (execute_deadline n) now
        then [ErrorEv EXECUTE_TIMEOUT State True False ''T_execute_max exceeded''] else [])
     @ (if silent (coordinator_last_seen n) now
        then [ErrorEv COORDINATOR_GONE State True False ''coordinator silence exceeded T_coordinator_grace'',
              CoordinatorElectionNeeded] else [])"

lemma check_timeouts_eq: "check_timeouts now n = (after_timeouts now n, events n @ timeout_events now n)"
  unfolding after_timeouts_def timeout_events_def check_timeouts_def timeout_errors
  by (cases n; cases "prepare_deadline n"; cases "execute_deadline n"; cases "coordinator_last_seen n")
    (simp_all add: due_def silent_def drain_events_def push_event_def Let_def)

lemma after_timeouts_sel:
  "\<not> due (prepare_deadline (after_timeouts now n)) now"
  "\<not> due (execute_deadline (after_timeouts now n)) now"
  "\<not> silent (coordinator_last_seen (after_timeouts now n)) now" "events (after_timeouts now n) = []"
  by (auto simp: after_timeouts_def due_def silent_def)

text \<open>
  C36. What a timeout check does. It reports, in this order, an expired preparation (which also
  aborts the pending transition and disarms the execution deadline, so that the two are never
  reported together), an expired execution, and a silent coordinator (which also gives up the
  coordinator role); every expired deadline is disarmed, nothing else changes, and no timeout is
  fatal. A second check at the same time therefore reports nothing. (The protocol document asks for more: resynchronisation
  when the execution expires, and an abort of the preparation that is sent to the members, and only after the grace time.)
\<close>

theorem check_timeouts_effect:
  "check_timeouts now n = (after_timeouts now n, events n @ timeout_events now n)
   \<and> check_timeouts now (after_timeouts now n) = (after_timeouts now n, [])"
proof -
  have "timeout_events now (after_timeouts now n) = []"
    using after_timeouts_sel [of now n] by (simp add: timeout_events_def)
  moreover have "after_timeouts now m = m"
    if "\<not> due (prepare_deadline m) now" "\<not> due (execute_deadline m) now"
      "\<not> silent (coordinator_last_seen m) now" "events m = []" for m
    using that by (cases m) (simp add: after_timeouts_def)
  ultimately show ?thesis using after_timeouts_sel [of now n] by (simp add: check_timeouts_eq)
qed

subsection \<open>Restored counters\<close>

lemma put_counter_unfold:
  "put_counter ((st, sid), sq) =
     [stream_as_u8 st, ucast sid, ucast (drop_bit 8 sid), ucast (drop_bit 16 sid), ucast (drop_bit 24 sid),
      ucast sq, ucast (drop_bit 8 sq), ucast (drop_bit 16 sq), ucast (drop_bit 24 sq)]"
  by (simp add: put_counter_def le_bytes32_def)

lemma restore_loop_write:
  "restore_loop (length es) (concat (map put_counter es)) m = m ++ map_of (rev es)"
proof (induction es arbitrary: m)
  case (Cons e es)
  obtain st sid sq where e: "e = ((st, sid), sq)" by (metis surj_pair)
  have "stream_try_from_u8 (stream_as_u8 st) = Inr st"
    using stream_wire.dec_enc [of st] by simp
  then show ?case using Cons.IH by (simp add: e put_counter_unfold del: fun_upd_apply)
qed simp

text \<open>
  A rebuilt node resumes its counters. Restoring the exported counters of a node into a fresh one
  gives exactly the same counters, in whatever order the hash map was iterated; so the next frame on
  every stream carries the number after the last one used, and peers do not take it for a replay.
\<close>

theorem restore_export_out_seq:
  assumes "hash_iter (out_seq n) es" and "length es < 2 ^ 32" and "out_seq fresh = Map.empty"
  shows "out_seq (restore_out_seq (export_out_seq es) fresh) = out_seq n
    \<and> snd (next_seq st sid (restore_out_seq (export_out_seq es) fresh)) = snd (next_seq st sid n)
    \<and> in_hw (restore_out_seq (export_out_seq es) fresh) = in_hw fresh"
proof -
  have "out_seq (restore_out_seq (export_out_seq es) fresh) = map_of (rev es)"
    using assms(2,3) by (simp add: restore_out_seq_def export_out_seq_def restore_loop_write)
  also have "\<dots> = out_seq n" using assms(1) by (simp add: hash_iter_def map_of_rev_distinct)
  finally have "out_seq (restore_out_seq (export_out_seq es) fresh) = out_seq n" .
  then show ?thesis
    by (simp add: next_seq_def Let_def) (simp add: restore_out_seq_def split: option.split)
qed

theorem restore_export_out_seq_witness:
  "out_seq (restore_out_seq (export_out_seq [((Text, 100), 7), ((Control, 4), 2)]) (node_new 1 gid0))
     (Text, 100) = Some 7"
proof -
  let ?es = "[((Text, 100 :: u32), 7 :: u32), ((Control, 4), 2)]"
  let ?n = "(node_new 1 gid0)\<lparr>out_seq := map_of ?es\<rparr>"
  have "hash_iter (out_seq ?n) ?es" by (simp add: hash_iter_def)
  from restore_export_out_seq [OF this, of "node_new 1 gid0"] show ?thesis by (simp add: node_new_def)
qed

subsection \<open>Frames that do not open\<close>

lemma unopened_frame:
  assumes "frame_verdict f n = Accept st" "openf s st (f_sequence_no f) (f_encrypted_payload f) = Inl e"
  shows "in_hw (deliver_frame cc s now f n) = (in_hw n)((st, f_stream_id f) \<mapsto> f_sequence_no f)"
    and "payload_in p (deliver_frame cc s now f n) = payload_in p n"
  using assms by (simp_all add: deliver_frame_verdict accept_frame_def Let_def)
    (simp add: emit_err_named_def lookup_def push_event_def)

text \<open>A window stays closed up to a number for as long as the log shows no change of epoch.\<close>

lemma window_stays:
  assumes "in_hw n k = Some sq" "events n = []" "\<forall>e t. EpochAdvanced e t \<notin> set (run_log fc cc cs n)"
  shows "sq \<le> opt_or (in_hw (fst (exec_all fc cc cs n)) k) 0"
proof -
  have "window_covers n [k \<mapsto> sq]" using assms(1) by (simp add: window_covers_def)
  from replay.run_log_accepted [OF this _ assms(2), of fc cc cs] obtain h where
    h: "run_mon replay_mon [k \<mapsto> sq] (run_log fc cc cs n) = Some h" "window_covers (fst (exec_all fc cc cs n)) h" by auto
  have "sq \<le> opt_or (h k) 0" using replay_mon_grows [OF h(1) assms(3), of k] by simp
  also have "\<dots> \<le> opt_or (in_hw (fst (exec_all fc cc cs n)) k) 0" using h(2) unfolding window_covers_def by blast
  finally show ?thesis .
qed

text \<open>
  C40. The replay window is advanced before a frame is authenticated. A frame that passes the checks but does not open
  delivers nothing and still moves the window of its stream to its sequence number. From then on, whatever methods
  are called on the node, up to the next change of epoch it refuses every frame of that stream that is not numbered higher,
  whoever sealed it; after a forged frame with the largest number that is every frame of the stream.
\<close>

theorem unauthenticated_frame_closes_window:
  assumes "frame_decode fc wire = Inr f" and "frame_verdict f n = Accept st" and "events n = []"
    and "openf s st (f_sequence_no f) (f_encrypted_payload f) = Inl err"
    and "on_wire fc cc s now wire n = (n', evs)"
    and "\<forall>e t. EpochAdvanced e t \<notin> set (run_log fc cc cs n')"
    and "f_stream_type g = stream_as_u8 st" and "f_stream_id g = f_stream_id f"
    and "f_sequence_no g \<le> f_sequence_no f \<or> f_sequence_no f = - 1"
  shows "(\<forall>p. PayloadReceived p \<notin> set evs) \<and> in_hw n' = (in_hw n)((st, f_stream_id f) \<mapsto> f_sequence_no f)
    \<and> frame_verdict g (fst (exec_all fc cc cs n')) \<noteq> Accept st'"
proof -
  let ?n = "deliver_frame cc s now f n"
  have w: "n' = ?n\<lparr>events := []\<rparr>" "evs = events ?n" using assms(1,5) by (auto simp: on_wire_def drain_events_def)
  have "PayloadReceived p \<notin> set evs" for p
    using unopened_frame(2) [OF assms(2,4), of p cc now] assms(3) w(2) by (simp add: payload_in_def)
  moreover have hw: "in_hw n' = (in_hw n)((st, f_stream_id f) \<mapsto> f_sequence_no f)"
    using unopened_frame(1) [OF assms(2,4)] w(1) by simp
  moreover have "frame_verdict g (fst (exec_all fc cc cs n')) \<noteq> Accept st'"
  proof
    assume a: "frame_verdict g (fst (exec_all fc cc cs n')) = Accept st'"
    have "st' = st" using frame_verdict_Accept(5) [OF a] assms(7) stream_wire.enc_inj by simp
    then have "opt_or (in_hw (fst (exec_all fc cc cs n')) (st, f_stream_id f)) 0 < f_sequence_no g"
      using frame_verdict_Accept(7) [OF a] assms(8) by simp
    moreover have "f_sequence_no f \<le> opt_or (in_hw (fst (exec_all fc cc cs n')) (st, f_stream_id f)) 0"
    proof (rule window_stays [OF _ _ assms(6)])
      show "in_hw n' (st, f_stream_id f) = Some (f_sequence_no f)" using hw by simp
      show "events n' = []" using w(1) by simp
    qed
    ultimately have "f_sequence_no f < f_sequence_no g" by simp
    then show False using assms(9) by auto
  qed
  ultimately show ?thesis by blast
qed

theorem unauthenticated_frame_closes_window_witness:
  "let bad = plain_sealer\<lparr>openf := (\<lambda>_ _ _. Inl (Aead ''aead::Error''))\<rparr>;
       n' = fst (on_wire toy_frame_codec toy_control_codec bad 0 (frame_to_cbor toy_frame_codec (text_frame (- 1))) (active_node 1))
   in in_hw n' (Text, 1) = Some (- 1)
      \<and> frame_verdict (text_frame 8) (fst (exec_all toy_frame_codec toy_control_codec [TriggerResync] n')) \<noteq> Accept Text"
proof -
  let ?bad = "plain_sealer\<lparr>openf := (\<lambda>_ _ _. Inl (Aead ''aead::Error''))\<rparr>"
  let ?w = "frame_to_cbor toy_frame_codec (text_frame (- 1))"
  obtain n' evs where o: "on_wire toy_frame_codec toy_control_codec ?bad 0 ?w (active_node 1) = (n', evs)" by force
  have d: "frame_decode toy_frame_codec ?w = Inr (text_frame (- 1))" by (simp add: frame_decode_def frame_to_cbor_def)
  have v: "frame_verdict (text_frame (- 1)) (active_node 1) = Accept Text"
    by (simp add: frame_verdict_def text_frame_def group_id_array_exact gid0_def active_node_def node_new_def flags_has_def)
  have "events n' = []" using o by (auto simp: on_wire_def drain_events_def split: sum.splits)
  then have l: "\<forall>e t. EpochAdvanced e t \<notin> set (run_log toy_frame_codec toy_control_codec [TriggerResync] n')"
    by (auto simp: run_log_def trigger_resync_def transition_def push_event_def)
  have "in_hw n' = (in_hw (active_node 1))((Text, f_stream_id (text_frame (- 1))) \<mapsto> f_sequence_no (text_frame (- 1)))
      \<and> frame_verdict (text_frame 8) (fst (exec_all toy_frame_codec toy_control_codec [TriggerResync] n')) \<noteq> Accept Text"
    using unauthenticated_frame_closes_window [OF d v _ _ o l, of "Aead ''aead::Error''" "text_frame 8" Text]
    by (simp add: text_frame_def)
  then show ?thesis using o by (simp add: Let_def text_frame_def)
qed

end
