(* ===== verification/Gtp_Message.thy ===== *)
theory Gtp_Message
  imports Gbp_Instances
begin

section \<open>Text messages (\<^verbatim>\<open>gtp-protocol\<close>)\<close>

text \<open>
  The message of \<^verbatim>\<open>crates/gtp/src/message.rs\<close> and its three encodings. The Protobuf message is the struct
  of \<^verbatim>\<open>gbp-proto\<close>; the FlatBuffers structs are generated by \<^verbatim>\<open>planus\<close>: a table that is written, and a
  reference whose accessors can each fail (\<open>None\<close>), with an absent vector as \<open>Some None\<close>.

  A \<^verbatim>\<open>&str\<close> is its UTF-8 bytes.
\<close>

datatype gtp_content_type = Plain | Markdown | Binary | AttachmentRef

fun content_type_as_u8 :: "gtp_content_type \<Rightarrow> u8" where
  "content_type_as_u8 Plain = 0"
| "content_type_as_u8 Markdown = 1"
| "content_type_as_u8 Binary = 2"
| "content_type_as_u8 AttachmentRef = 3"

record gtp_message =
  g_message_id :: u64
  g_sender_id :: u32
  g_timestamp_ms :: u64
  g_request_id :: u32
  g_flags :: u8
  g_content_type :: u8
  g_content_length :: u32
  g_content :: bytes

record proto_gtp_message =
  pg_message_id :: u64
  pg_sender_id :: u32
  pg_timestamp_ms :: u64
  pg_request_id :: u32
  pg_flags :: u32
  pg_content_type :: u32
  pg_content_length :: u32
  pg_content :: bytes

record flat_gtp_message =
  fg_message_id :: u64
  fg_sender_id :: u32
  fg_timestamp_ms :: u64
  fg_request_id :: u32
  fg_flags :: u32
  fg_content_type :: u32
  fg_content_length :: u32
  fg_content :: "bytes option"

record flat_gtp_ref =
  rg_message_id :: "u64 option"
  rg_sender_id :: "u32 option"
  rg_timestamp_ms :: "u64 option"
  rg_request_id :: "u32 option"
  rg_flags :: "u32 option"
  rg_content_type :: "u32 option"
  rg_content_length :: "u32 option"
  rg_content :: "bytes option option"

text \<open>The libraries: serde and ciborium, prost, and planus with its generated code.\<close>

record gtp_codecs =
  gc_cbor :: "gtp_message serialiser"
  gc_proto :: "proto_gtp_message serialiser"
  gc_flat_write :: "flat_gtp_message \<Rightarrow> bytes"
  gc_flat_read :: "bytes \<Rightarrow> string + flat_gtp_ref"

definition flat_gtp_whole :: "flat_gtp_message \<Rightarrow> flat_gtp_ref" where
  "flat_gtp_whole f =
     \<lparr>rg_message_id = Some (fg_message_id f), rg_sender_id = Some (fg_sender_id f),
      rg_timestamp_ms = Some (fg_timestamp_ms f), rg_request_id = Some (fg_request_id f),
      rg_flags = Some (fg_flags f), rg_content_type = Some (fg_content_type f),
      rg_content_length = Some (fg_content_length f), rg_content = Some (fg_content f)\<rparr>"

definition gtp_codecs_ok :: "gtp_codecs \<Rightarrow> bool" where
  "gtp_codecs_ok cs \<longleftrightarrow> reads_back (gc_cbor cs) \<and> reads_back (gc_proto cs)
     \<and> (\<forall>f. gc_flat_read cs (gc_flat_write cs f) = Inr (flat_gtp_whole f))"

definition gtp_plain :: "u32 \<Rightarrow> u64 \<Rightarrow> bytes \<Rightarrow> gtp_message" where
  "gtp_plain sender_id message_id text =
     \<lparr>g_message_id = message_id, g_sender_id = sender_id, g_timestamp_ms = 0, g_request_id = 0,
      g_flags = 0x01, g_content_type = content_type_as_u8 Plain,
      g_content_length = word_of_nat (length text), g_content = text\<rparr>"

definition gtp_to_cbor :: "gtp_message serialiser \<Rightarrow> gtp_message \<Rightarrow> bytes" where
  "gtp_to_cbor c m = into_writer c m"

definition gtp_from_cbor :: "gtp_message serialiser \<Rightarrow> bytes \<Rightarrow> codec_error + gtp_message" where
  "gtp_from_cbor c data =
     (case decode_err (from_reader c data) of Inl e \<Rightarrow> Inl e
      | Inr m \<Rightarrow> if unat (g_content_length m) \<noteq> length (g_content m) then Inl PayloadSizeMismatch else Inr m)"

text \<open>Well-formed UTF-8 (Unicode, table 3-7), as \<^verbatim>\<open>std::str::from_utf8\<close> checks it.\<close>

definition cont :: "u8 \<Rightarrow> bool" where
  "cont b \<longleftrightarrow> 0x80 \<le> b \<and> b \<le> 0xBF"

definition second3 :: "u8 \<Rightarrow> u8 \<Rightarrow> bool" where
  "second3 a b \<longleftrightarrow> (if a = 0xE0 then 0xA0 \<le> b \<and> b \<le> 0xBF
     else if a = 0xED then 0x80 \<le> b \<and> b \<le> 0x9F else cont b)"

definition second4 :: "u8 \<Rightarrow> u8 \<Rightarrow> bool" where
  "second4 a b \<longleftrightarrow> (if a = 0xF0 then 0x90 \<le> b \<and> b \<le> 0xBF
     else if a = 0xF4 then 0x80 \<le> b \<and> b \<le> 0x8F else cont b)"

fun utf8_valid :: "bytes \<Rightarrow> bool" where
  "utf8_valid [] = True"
| "utf8_valid (a # r) =
     (if a < 0x80 then utf8_valid r
      else case r of [] \<Rightarrow> False | b # r1 \<Rightarrow>
        if 0xC2 \<le> a \<and> a \<le> 0xDF then cont b \<and> utf8_valid r1
        else case r1 of [] \<Rightarrow> False | c # r2 \<Rightarrow>
          if 0xE0 \<le> a \<and> a \<le> 0xEF
          then second3 a b \<and> cont c \<and> utf8_valid r2
          else case r2 of [] \<Rightarrow> False | d # r3 \<Rightarrow>
            0xF0 \<le> a \<and> a \<le> 0xF4 \<and> second4 a b \<and> cont c \<and> cont d \<and> utf8_valid r3)"

definition gtp_text :: "gtp_message \<Rightarrow> bytes option" where
  "gtp_text m = (if utf8_valid (g_content m) then Some (g_content m) else None)"

definition gtp_to_proto :: "gtp_message \<Rightarrow> proto_gtp_message" where
  "gtp_to_proto m =
     \<lparr>pg_message_id = g_message_id m, pg_sender_id = g_sender_id m,
      pg_timestamp_ms = g_timestamp_ms m, pg_request_id = g_request_id m,
      pg_flags = ucast (g_flags m), pg_content_type = ucast (g_content_type m),
      pg_content_length = g_content_length m, pg_content = g_content m\<rparr>"

definition gtp_of_proto :: "proto_gtp_message \<Rightarrow> unit + gtp_message" where
  "gtp_of_proto p =
     (if unat (pg_content_length p) \<noteq> length (pg_content p) then Inl ()
      else Inr \<lparr>g_message_id = pg_message_id p, g_sender_id = pg_sender_id p,
        g_timestamp_ms = pg_timestamp_ms p, g_request_id = pg_request_id p,
        g_flags = ucast (pg_flags p), g_content_type = ucast (pg_content_type p),
        g_content_length = pg_content_length p, g_content = pg_content p\<rparr>)"

definition gtp_to_flat :: "gtp_message \<Rightarrow> flat_gtp_message" where
  "gtp_to_flat m =
     \<lparr>fg_message_id = g_message_id m, fg_sender_id = g_sender_id m,
      fg_timestamp_ms = g_timestamp_ms m, fg_request_id = g_request_id m,
      fg_flags = ucast (g_flags m), fg_content_type = ucast (g_content_type m),
      fg_content_length = g_content_length m, fg_content = Some (g_content m)\<rparr>"

definition gtp_of_flat :: "flat_gtp_ref \<Rightarrow> unit + gtp_message" where
  "gtp_of_flat r =
     (case rg_content r of None \<Rightarrow> Inl () | Some content_opt \<Rightarrow>
      (let content = opt_or content_opt [] in
       case rg_content_length r of None \<Rightarrow> Inl () | Some content_length \<Rightarrow>
       (if unat content_length \<noteq> length content then Inl ()
        else case rg_message_id r of None \<Rightarrow> Inl () | Some mid \<Rightarrow>
        (case rg_sender_id r of None \<Rightarrow> Inl () | Some sid \<Rightarrow>
        (case rg_timestamp_ms r of None \<Rightarrow> Inl () | Some ts \<Rightarrow>
        (case rg_request_id r of None \<Rightarrow> Inl () | Some rid \<Rightarrow>
        (case rg_flags r of None \<Rightarrow> Inl () | Some fl \<Rightarrow>
        (case rg_content_type r of None \<Rightarrow> Inl () | Some ct \<Rightarrow>
          Inr \<lparr>g_message_id = mid, g_sender_id = sid, g_timestamp_ms = ts, g_request_id = rid,
               g_flags = ucast fl, g_content_type = ucast ct,
               g_content_length = content_length, g_content = content\<rparr>))))))))"

definition size_err :: "unit + 'a \<Rightarrow> codec_error + 'a" where
  "size_err r = (case r of Inl _ \<Rightarrow> Inl PayloadSizeMismatch | Inr x \<Rightarrow> Inr x)"

definition gtp_to_bytes :: "gtp_codecs \<Rightarrow> gtp_message \<Rightarrow> payload_codec \<Rightarrow> bytes" where
  "gtp_to_bytes cs m codec =
     (case codec of
        Cbor \<Rightarrow> gtp_to_cbor (gc_cbor cs) m
      | Protobuf \<Rightarrow> into_writer (gc_proto cs) (gtp_to_proto m)
      | FlatBuffers \<Rightarrow> gc_flat_write cs (gtp_to_flat m))"

definition gtp_from_bytes :: "gtp_codecs \<Rightarrow> bytes \<Rightarrow> payload_codec \<Rightarrow> codec_error + gtp_message" where
  "gtp_from_bytes cs data codec =
     (case codec of
        Cbor \<Rightarrow> gtp_from_cbor (gc_cbor cs) data
      | Protobuf \<Rightarrow>
          (case decode_err (from_reader (gc_proto cs) data) of Inl e \<Rightarrow> Inl e
           | Inr p \<Rightarrow> size_err (gtp_of_proto p))
      | FlatBuffers \<Rightarrow>
          (case decode_err (gc_flat_read cs data) of Inl e \<Rightarrow> Inl e
           | Inr r \<Rightarrow> size_err (gtp_of_flat r)))"

subsection \<open>Decoding\<close>

definition gtp_fits :: "gtp_message \<Rightarrow> bool" where
  "gtp_fits m \<longleftrightarrow> unat (g_content_length m) = length (g_content m)"

interpretation gtp_len: length_checked gtp_to_cbor gtp_from_cbor g_content_length g_content
  by unfold_locales (auto simp: gtp_to_cbor_def gtp_from_cbor_def)

lemma ucast_u8_u32_u8 [simp]: "(ucast (ucast (b :: u8) :: u32) :: u8) = b"
  by (rule bit_word_eqI) (auto simp: bit_simps)

lemma gtp_of_to_proto: "gtp_fits m \<Longrightarrow> gtp_of_proto (gtp_to_proto m) = Inr m"
  by (simp add: gtp_of_proto_def gtp_to_proto_def gtp_fits_def)

lemma gtp_of_to_flat: "gtp_fits m \<Longrightarrow> gtp_of_flat (flat_gtp_whole (gtp_to_flat m)) = Inr m"
  by (simp add: gtp_of_flat_def flat_gtp_whole_def gtp_to_flat_def gtp_fits_def)

interpretation gtp_format: payload_format gtp_to_bytes gtp_from_bytes gtp_codecs_ok gtp_fits
proof
  fix cs m cd assume "gtp_codecs_ok cs" "gtp_fits m"
  then show "gtp_from_bytes cs (gtp_to_bytes cs m cd) cd = Inr m"
    using gtp_len.round_trip [of "gc_cbor cs" m]
    by (cases cd) (simp_all add: gtp_from_bytes_def gtp_to_bytes_def gtp_codecs_ok_def size_err_def
        gtp_of_to_proto gtp_of_to_flat, simp add: gtp_fits_def)
qed

lemma gtp_plain_fits: "length text < 2 ^ 32 \<Longrightarrow> gtp_fits (gtp_plain s mid text)"
  by (simp add: gtp_fits_def gtp_plain_def)

lemma gtp_plain_sel [simp]:
  "g_sender_id (gtp_plain s mid text) = s" "g_message_id (gtp_plain s mid text) = mid"
  "g_content (gtp_plain s mid text) = text"
  by (simp_all add: gtp_plain_def)

text \<open>Whatever the codec, a decoded message declares its true length.\<close>

lemma gtp_decoded_fits: "gtp_from_bytes cs data cd = Inr m \<Longrightarrow> gtp_fits m"
proof (cases cd)
  case Cbor
  then show "gtp_from_bytes cs data cd = Inr m \<Longrightarrow> gtp_fits m"
    by (simp add: gtp_from_bytes_def gtp_fits_def gtp_len.decode_iff)
next
  case Protobuf
  then show "gtp_from_bytes cs data cd = Inr m \<Longrightarrow> gtp_fits m"
    by (auto simp: gtp_from_bytes_def gtp_fits_def size_err_def gtp_of_proto_def split: sum.splits if_splits)
next
  case FlatBuffers
  then show "gtp_from_bytes cs data cd = Inr m \<Longrightarrow> gtp_fits m"
    by (auto simp: gtp_from_bytes_def gtp_fits_def size_err_def gtp_of_flat_def Let_def
        split: sum.splits if_splits option.splits)
qed

subsection \<open>A concrete instance\<close>

definition toy_gtp_cbor :: "gtp_message serialiser" where
  "toy_gtp_cbor = field_codec 8
     (\<lambda>m. [bits_of (g_message_id m), bits_of (g_sender_id m), bits_of (g_timestamp_ms m),
       bits_of (g_request_id m), bits_of (g_flags m), bits_of (g_content_type m),
       bits_of (g_content_length m), g_content m])
     (\<lambda>fs. \<lparr>g_message_id = of_bits (fs ! 0), g_sender_id = of_bits (fs ! 1),
       g_timestamp_ms = of_bits (fs ! 2), g_request_id = of_bits (fs ! 3), g_flags = of_bits (fs ! 4),
       g_content_type = of_bits (fs ! 5), g_content_length = of_bits (fs ! 6), g_content = fs ! 7\<rparr>)"

definition toy_gtp_proto :: "proto_gtp_message serialiser" where
  "toy_gtp_proto = field_codec 8
     (\<lambda>m. [bits_of (pg_message_id m), bits_of (pg_sender_id m), bits_of (pg_timestamp_ms m),
       bits_of (pg_request_id m), bits_of (pg_flags m), bits_of (pg_content_type m),
       bits_of (pg_content_length m), pg_content m])
     (\<lambda>fs. \<lparr>pg_message_id = of_bits (fs ! 0), pg_sender_id = of_bits (fs ! 1),
       pg_timestamp_ms = of_bits (fs ! 2), pg_request_id = of_bits (fs ! 3), pg_flags = of_bits (fs ! 4),
       pg_content_type = of_bits (fs ! 5), pg_content_length = of_bits (fs ! 6), pg_content = fs ! 7\<rparr>)"

definition toy_gtp_flat :: "flat_gtp_message serialiser" where
  "toy_gtp_flat = field_codec 8
     (\<lambda>m. [bits_of (fg_message_id m), bits_of (fg_sender_id m), bits_of (fg_timestamp_ms m),
       bits_of (fg_request_id m), bits_of (fg_flags m), bits_of (fg_content_type m),
       bits_of (fg_content_length m), opt_field (fg_content m)])
     (\<lambda>fs. \<lparr>fg_message_id = of_bits (fs ! 0), fg_sender_id = of_bits (fs ! 1),
       fg_timestamp_ms = of_bits (fs ! 2), fg_request_id = of_bits (fs ! 3), fg_flags = of_bits (fs ! 4),
       fg_content_type = of_bits (fs ! 5), fg_content_length = of_bits (fs ! 6),
       fg_content = field_opt (fs ! 7)\<rparr>)"

lemma toy_gtp_reads_back [simp]: "reads_back toy_gtp_cbor" "reads_back toy_gtp_proto" "reads_back toy_gtp_flat"
  unfolding toy_gtp_cbor_def toy_gtp_proto_def toy_gtp_flat_def
  by (rule field_codec_reads_back; simp add: eval_nat_numeral)+

definition toy_gtp_codecs :: gtp_codecs where
  "toy_gtp_codecs =
     \<lparr>gc_cbor = toy_gtp_cbor, gc_proto = toy_gtp_proto, gc_flat_write = into_writer toy_gtp_flat,
      gc_flat_read = (\<lambda>bs. case from_reader toy_gtp_flat bs of Inl e \<Rightarrow> Inl e
        | Inr f \<Rightarrow> Inr (flat_gtp_whole f))\<rparr>"

lemma toy_gtp_codecs_ok [simp]: "gtp_codecs_ok toy_gtp_codecs"
  by (simp add: gtp_codecs_ok_def toy_gtp_codecs_def)

subsection \<open>Properties\<close>

text \<open>
  Text messages survive all three codecs: encoding a plain message and decoding it with the same
  codec gives the message back, with its text readable if it is well-formed UTF-8; and whatever bytes
  arrive, in whichever codec, a message is only ever accepted if its declared length is the length of
  its body.
\<close>

theorem gtp_codecs_round_trip:
  assumes "gtp_codecs_ok cs" and "length text < 2 ^ 32"
  shows "gtp_from_bytes cs (gtp_to_bytes cs (gtp_plain sender mid text) cd) cd = Inr (gtp_plain sender mid text)
    \<and> (utf8_valid text \<longrightarrow> gtp_text (gtp_plain sender mid text) = Some text)
    \<and> (\<forall>data cd' m. gtp_from_bytes cs data cd' = Inr m \<longrightarrow> unat (g_content_length m) = length (g_content m))"
  using gtp_format.decode_encode [OF assms(1) gtp_plain_fits [OF assms(2)]] gtp_decoded_fits
  by (auto simp: gtp_text_def gtp_fits_def)

theorem gtp_codecs_round_trip_witness:
  "gtp_from_bytes toy_gtp_codecs (gtp_to_bytes toy_gtp_codecs (gtp_plain 3 9 [72, 105]) FlatBuffers) FlatBuffers
     = Inr (gtp_plain 3 9 [72, 105]) \<and> gtp_text (gtp_plain 3 9 [72, 105]) = Some [72, 105]"
  using gtp_codecs_round_trip [OF toy_gtp_codecs_ok, of "[72, 105]" 3 9 FlatBuffers] by simp

end
