(* ===== verification/Gbp_Bounded.thy ===== *)
theory Gbp_Bounded
  imports Gbp_Prelude
begin

section \<open>Bounded deduplication set (\<^verbatim>\<open>gbp-core/bounded.rs\<close>)\<close>

text \<open>
  \<^verbatim>\<open>BoundedSeen\<close> is a hash set paired with a queue of its elements in insertion order; the text
  and signalling clients deduplicate message and request ids with it. Its abstract
  specification is a list of at most \<open>cap\<close> distinct items, oldest first, on which an insertion
  of a fresh item appends it and drops the surplus at the front. The interface \<open>dedup\<close> states
  that contract; what its clients need (no item is accepted twice among the last \<open>cap\<close>
  acceptances, nothing else is refused) is proved once from it.
\<close>

subsection \<open>The interface of a deduplication window\<close>

definition keep_last :: "nat \<Rightarrow> 'a list \<Rightarrow> 'a list" where
  "keep_last n xs = drop (length xs - n) xs"

lemma length_keep_last [simp]: "length (keep_last n xs) = min n (length xs)"
  by (simp add: keep_last_def)

lemma keep_last_all: "length xs \<le> n \<Longrightarrow> keep_last n xs = xs"
  by (simp add: keep_last_def)

lemma keep_last_append: "keep_last n (keep_last n xs @ ys) = keep_last n (xs @ ys)"
proof (cases "length xs \<le> n")
  case False
  then have "length xs - n + length ys = length xs + length ys - n" by simp
  moreover have "keep_last n xs @ ys = drop (length xs - n) (xs @ ys)"
    by (simp add: keep_last_def)
  ultimately show ?thesis using False
    by (simp add: keep_last_def add.commute [of "length ys"] del: drop_append)
qed (simp add: keep_last_all)

lemma keep_last_last: "0 < n \<Longrightarrow> x \<in> set (keep_last n (xs @ [x]))"
  by (simp add: keep_last_def)

lemma map_keep_last: "map f (keep_last n xs) = keep_last n (map f xs)"
  by (simp add: keep_last_def drop_map)

lemma distinct_keep_last: "distinct xs \<Longrightarrow> distinct (keep_last n xs)"
  by (simp add: keep_last_def)

locale dedup =
  fixes ins :: "'x \<Rightarrow> 's \<Rightarrow> bool \<times> 's"
    and key :: "'x \<Rightarrow> 'a"
    and recent :: "'s \<Rightarrow> 'a list"
    and limit :: "'s \<Rightarrow> nat"
    and ok :: "'s \<Rightarrow> bool"
  assumes ins_flag: "ok s \<Longrightarrow> fst (ins x s) \<longleftrightarrow> key x \<notin> set (recent s)"
    and ins_known: "ok s \<Longrightarrow> key x \<in> set (recent s) \<Longrightarrow> snd (ins x s) = s"
    and ins_fresh: "ok s \<Longrightarrow> key x \<notin> set (recent s) \<Longrightarrow>
      recent (snd (ins x s)) = keep_last (limit s) (recent s @ [key x])"
    and ins_limit: "limit (snd (ins x s)) = limit s"
    and ins_ok: "ok s \<Longrightarrow> ok (snd (ins x s))"
    and ok_bound: "ok s \<Longrightarrow> length (recent s) \<le> limit s"
    and ok_distinct: "ok s \<Longrightarrow> distinct (recent s)"
begin

text \<open>A sequence of insertions: the items accepted, in order, and the final state.\<close>

fun ins_all :: "'x list \<Rightarrow> 's \<Rightarrow> 'x list \<times> 's" where
  "ins_all [] s = ([], s)"
| "ins_all (x # xs) s =
     (case ins x s of (b, s') \<Rightarrow> case ins_all xs s' of (acc, t) \<Rightarrow> (if b then x # acc else acc, t))"

lemma ins_all_inv:
  "ok s \<Longrightarrow> ok (snd (ins_all xs s)) \<and> limit (snd (ins_all xs s)) = limit s"
proof (induction xs arbitrary: s)
  case (Cons x xs)
  then show ?case
    using ins_ok [of s x] ins_limit [of x s] by (simp add: case_prod_beta)
qed simp

lemma ins_all_recent:
  "ok s \<Longrightarrow> recent (snd (ins_all xs s)) = keep_last (limit s) (recent s @ map key (fst (ins_all xs s)))"
proof (induction xs arbitrary: s)
  case Nil
  then show ?case by (simp add: keep_last_all ok_bound)
next
  case (Cons x xs)
  obtain b s' where s': "ins x s = (b, s')" by force
  have ok': "ok s'" and lim: "limit s' = limit s"
    using ins_ok [OF Cons.prems, of x] ins_limit [of x s] s' by simp_all
  have b: "b \<longleftrightarrow> key x \<notin> set (recent s)" using ins_flag [OF Cons.prems, of x] s' by simp
  show ?case
  proof (cases b)
    case True
    then have "recent s' = keep_last (limit s) (recent s @ [key x])"
      using ins_fresh [OF Cons.prems, of x] b s' by simp
    then show ?thesis
      using True s' Cons.IH [OF ok'] lim
      by (simp add: case_prod_beta keep_last_append [of "limit s" "recent s @ [key x]", simplified])
  next
    case False
    then have "s' = s" using ins_known [OF Cons.prems, of x] b s' by simp
    then show ?thesis using False s' Cons.IH [OF Cons.prems] by (simp split: prod.splits)
  qed
qed

text \<open>
  As long as everything fits, an item is accepted exactly when its key is new: the accepted keys are
  distinct, none was known, and together with the known ones they are all keys offered.
\<close>

lemma ins_all_roomy:
  assumes "ok s" and "length (recent s) + length (fst (ins_all xs s)) \<le> limit s"
  shows "distinct (recent s @ map key (fst (ins_all xs s)))
    \<and> set (recent s @ map key (fst (ins_all xs s))) = set (recent s) \<union> key ` set xs"
  using assms
proof (induction xs arbitrary: s)
  case Nil
  then show ?case by (simp add: ok_distinct)
next
  case (Cons x xs)
  obtain b s' where s': "ins x s = (b, s')" by force
  have ok': "ok s'" and lim: "limit s' = limit s"
    using ins_ok [OF Cons.prems(1), of x] ins_limit [of x s] s' by simp_all
  have b: "b \<longleftrightarrow> key x \<notin> set (recent s)" using ins_flag [OF Cons.prems(1), of x] s' by simp
  show ?case
  proof (cases b)
    case True
    then have "recent s' = recent s @ [key x]"
      using ins_fresh [OF Cons.prems(1), of x] b s' Cons.prems(2)
      by (simp add: keep_last_all split: prod.splits)
    then show ?thesis
      using True s' Cons.IH [OF ok'] lim Cons.prems(2) by (simp split: prod.splits)
  next
    case False
    then have "s' = s" using ins_known [OF Cons.prems(1), of x] b s' by simp
    then show ?thesis
      using False b s' Cons.IH [OF Cons.prems(1)] Cons.prems(2)
      by (auto split: prod.splits)
  qed
qed

text \<open>A key that was accepted among the last \<open>limit\<close> acceptances is refused.\<close>

lemma ins_all_refused:
  assumes "ok s" and "key x \<in> set (keep_last (limit s) (recent s @ map key (fst (ins_all xs s))))"
  shows "ins x (snd (ins_all xs s)) = (False, snd (ins_all xs s))"
proof -
  have "ok (snd (ins_all xs s))" "key x \<in> set (recent (snd (ins_all xs s)))"
    using assms ins_all_inv ins_all_recent by auto
  then show ?thesis using ins_flag ins_known by (metis prod.collapse)
qed

end

subsection \<open>The data structure\<close>

record 'a bounded_seen =
  bs_set :: "'a set"
  bs_order :: "'a list"
  bs_cap :: nat

definition seen_new :: "nat \<Rightarrow> 'a bounded_seen" where
  "seen_new cap = \<lparr>bs_set = {}, bs_order = [], bs_cap = cap\<rparr>"

definition seen_insert :: "'a \<Rightarrow> 'a bounded_seen \<Rightarrow> bool \<times> 'a bounded_seen" where
  "seen_insert item b =
     (if item \<in> bs_set b then (False, b)
      else let set' = insert item (bs_set b); order' = bs_order b @ [item]
        in if length order' > bs_cap b
           then (case order' of
               [] \<Rightarrow> (True, b\<lparr>bs_set := set', bs_order := order'\<rparr>)
             | old # rest \<Rightarrow> (True, b\<lparr>bs_set := set' - {old}, bs_order := rest\<rparr>))
           else (True, b\<lparr>bs_set := set', bs_order := order'\<rparr>))"

definition seen_len :: "'a bounded_seen \<Rightarrow> nat" where
  "seen_len b = card (bs_set b)"

definition seen_is_empty :: "'a bounded_seen \<Rightarrow> bool" where
  "seen_is_empty b \<longleftrightarrow> bs_set b = {}"

definition seen_clear :: "'a bounded_seen \<Rightarrow> 'a bounded_seen" where
  "seen_clear b = b\<lparr>bs_set := {}, bs_order := []\<rparr>"

text \<open>The invariant that ties the set to the queue.\<close>

definition seen_wf :: "'a bounded_seen \<Rightarrow> bool" where
  "seen_wf b \<longleftrightarrow> distinct (bs_order b) \<and> bs_set b = set (bs_order b) \<and> length (bs_order b) \<le> bs_cap b"

lemma seen_wf_new [simp]: "seen_wf (seen_new cap)" "bs_cap (seen_new cap) = cap"
  by (simp_all add: seen_wf_def seen_new_def)

lemma seen_wf_clear [simp]: "seen_wf (seen_clear b)" "bs_cap (seen_clear b) = bs_cap b"
  "bs_order (seen_clear b) = []" "bs_set (seen_clear b) = {}"
  by (simp_all add: seen_wf_def seen_clear_def)

lemma bs_order_new [simp]: "bs_order (seen_new cap) = []" "bs_set (seen_new cap) = {}"
  by (simp_all add: seen_new_def)

text \<open>The refinement: on the queue, an insertion is the one of the specification.\<close>

lemma seen_insert_known: "item \<in> bs_set b \<Longrightarrow> seen_insert item b = (False, b)"
  by (simp add: seen_insert_def)

lemma seen_insert_fresh:
  assumes "seen_wf b" "item \<notin> bs_set b"
  shows "fst (seen_insert item b)"
    and "bs_order (snd (seen_insert item b)) = keep_last (bs_cap b) (bs_order b @ [item])"
    and "seen_wf (snd (seen_insert item b))"
proof -
  have len: "length (bs_order b) \<le> bs_cap b" and d: "distinct (bs_order b)"
    and st: "bs_set b = set (bs_order b)"
    using assms(1) by (auto simp: seen_wf_def)
  have nd: "item \<notin> set (bs_order b)" using assms(2) st by simp
  have "fst (seen_insert item b)
    \<and> bs_order (snd (seen_insert item b)) = keep_last (bs_cap b) (bs_order b @ [item])
    \<and> seen_wf (snd (seen_insert item b))"
  proof (cases "length (bs_order b) < bs_cap b")
    case True
    then show ?thesis using nd d st
      by (simp add: seen_insert_def Let_def keep_last_def seen_wf_def)
  next
    case False
    then have cap: "length (bs_order b) = bs_cap b" using len by simp
    show ?thesis
    proof (cases "bs_order b")
      case Nil
      then show ?thesis using cap st
        by (simp add: seen_insert_def Let_def keep_last_def seen_wf_def)
    next
      case (Cons old rest)
      have "insert item (insert old (set rest)) - {old} = insert item (set rest)"
        using nd d Cons by auto
      then show ?thesis using nd d st Cons cap [symmetric]
        by (simp add: seen_insert_def Let_def keep_last_def seen_wf_def)
    qed
  qed
  then show "fst (seen_insert item b)"
    and "bs_order (snd (seen_insert item b)) = keep_last (bs_cap b) (bs_order b @ [item])"
    and "seen_wf (snd (seen_insert item b))" by (fast+)
qed

lemma seen_insert_cap [simp]: "bs_cap (snd (seen_insert item b)) = bs_cap b"
  by (auto simp: seen_insert_def Let_def split: list.splits)

lemma seen_insert_wf: "seen_wf b \<Longrightarrow> seen_wf (snd (seen_insert item b))"
  by (cases "item \<in> bs_set b") (simp_all add: seen_insert_known seen_insert_fresh(3))

lemma seen_insert_flag: "seen_wf b \<Longrightarrow> fst (seen_insert item b) \<longleftrightarrow> item \<notin> bs_set b"
  by (cases "item \<in> bs_set b") (simp_all add: seen_insert_known seen_insert_fresh(1))

interpretation seen: dedup seen_insert "\<lambda>x. x" bs_order bs_cap seen_wf
proof
  fix s :: "'a bounded_seen" and x
  assume ok: "seen_wf s"
  then have st: "bs_set s = set (bs_order s)" by (simp add: seen_wf_def)
  show "fst (seen_insert x s) \<longleftrightarrow> x \<notin> set (bs_order s)" using seen_insert_flag [OF ok] st by simp
  show "x \<in> set (bs_order s) \<Longrightarrow> snd (seen_insert x s) = s" using st by (simp add: seen_insert_known)
  show "x \<notin> set (bs_order s) \<Longrightarrow>
      bs_order (snd (seen_insert x s)) = keep_last (bs_cap s) (bs_order s @ [x])"
    using seen_insert_fresh(2) [OF ok] st by simp
  show "seen_wf (snd (seen_insert x s))" by (rule seen_insert_wf [OF ok])
  show "length (bs_order s) \<le> bs_cap s" using ok by (simp add: seen_wf_def)
  show "distinct (bs_order s)" using ok by (simp add: seen_wf_def)
qed simp

end
