(* ===== verification/Gtp_Client.thy ===== *)
theory Gtp_Client
  imports Gtp_Message Gbp_Bounded Gbp_Node
begin

section \<open>Text client, history and watermark (\<^verbatim>\<open>gtp-protocol\<close>)\<close>

text \<open>
  The stateful client of \<^verbatim>\<open>crates/gtp/src/client.rs\<close>, which deduplicates messages within an epoch with
  a bounded set, and the message log and watermark of \<^verbatim>\<open>history.rs\<close> with which a member that rejoins
  catches up. The log is a second instance of the deduplication interface, keyed by sender and
  message id.
\<close>

subsection \<open>The client\<close>

datatype gtp_error = GtpDecode codec_error | GtpDuplicateErr u32 u64 | GtpNode node_error

fun gtp_error_display :: "gtp_error \<Rightarrow> string" where
  "gtp_error_display (GtpDecode e) = ''decode: '' @ codec_error_display e"
| "gtp_error_display (GtpDuplicateErr s m) =
     ''duplicate (sender='' @ dec_word s @ '', mid=0x'' @ hex_nat True (unat m) @ '')''"
| "gtp_error_display (GtpNode e) = ''node: '' @ node_error_display e"

datatype gtp_accept_result = GtpNew gtp_message | GtpDuplicate gtp_message

definition GTP_SEEN_CAP :: nat where
  "GTP_SEEN_CAP = 10000"

record gtp_client =
  gtp_seen :: "(u32 \<times> u64) bounded_seen"
  gtp_epoch :: "u64 option"

definition gtp_client_new :: gtp_client where
  "gtp_client_new = \<lparr>gtp_seen = seen_new GTP_SEEN_CAP, gtp_epoch = None\<rparr>"

definition gtp_sync_epoch :: "u64 \<Rightarrow> gtp_client \<Rightarrow> gtp_client" where
  "gtp_sync_epoch epoch c =
     (if Some epoch \<noteq> gtp_epoch c then c\<lparr>gtp_seen := seen_clear (gtp_seen c), gtp_epoch := Some epoch\<rparr> else c)"

definition gtp_reset :: "gtp_client \<Rightarrow> gtp_client" where
  "gtp_reset c = c\<lparr>gtp_seen := seen_clear (gtp_seen c), gtp_epoch := None\<rparr>"

definition gtp_send ::
    "gtp_codecs \<Rightarrow> gbp_frame serialiser \<Rightarrow> sealer \<Rightarrow> u32 \<Rightarrow> u64 \<Rightarrow> bytes \<Rightarrow> payload_codec \<Rightarrow>
      gtp_client \<Rightarrow> group_node \<Rightarrow> gtp_client \<times> group_node \<times> (gtp_error + outbound_frame)" where
  "gtp_send cs fc s target message_id text codec c n =
     (let c1 = gtp_sync_epoch (current_epoch n) c;
          msg = gtp_plain (member_id n) message_id text;
          stream_id = member_stream_id n 1
      in case send_payload fc s target Text stream_id ordered_reliable_ack (gtp_to_bytes cs msg codec) codec n of
           (n1, Inl e) \<Rightarrow> (c1, n1, Inl (GtpNode e))
         | (n1, Inr of_) \<Rightarrow> (c1, n1, Inr of_))"

definition gtp_accept ::
    "gtp_codecs \<Rightarrow> bytes \<Rightarrow> u64 \<Rightarrow> payload_codec \<Rightarrow> gtp_client \<Rightarrow> gtp_client \<times> (gtp_error + gtp_accept_result)" where
  "gtp_accept cs plaintext epoch codec c =
     (let c1 = gtp_sync_epoch epoch c in
      case gtp_from_bytes cs plaintext codec of Inl e \<Rightarrow> (c1, Inl (GtpDecode e))
      | Inr m \<Rightarrow>
        (case seen_insert (g_sender_id m, g_message_id m) (gtp_seen c1) of
           (fresh, seen') \<Rightarrow>
             (let c2 = c1\<lparr>gtp_seen := seen'\<rparr> in
              if \<not> fresh then (c2, Inr (GtpDuplicate m)) else (c2, Inr (GtpNew m)))))"

subsection \<open>History and watermark\<close>

record message_history =
  mh_capacity :: nat
  mh_buffer :: "gtp_message list"

text \<open>Construction panics (\<open>None\<close>) on capacity zero.\<close>

definition history_with_capacity :: "nat \<Rightarrow> message_history option" where
  "history_with_capacity capacity =
     (if capacity > 0 then Some \<lparr>mh_capacity = capacity, mh_buffer = []\<rparr> else None)"

definition history_contains :: "u32 \<Rightarrow> u64 \<Rightarrow> message_history \<Rightarrow> bool" where
  "history_contains sender_id message_id h \<longleftrightarrow>
     (\<exists>m\<in>set (mh_buffer h). g_sender_id m = sender_id \<and> g_message_id m = message_id)"

definition history_push :: "gtp_message \<Rightarrow> message_history \<Rightarrow> bool \<times> message_history" where
  "history_push msg h =
     (if history_contains (g_sender_id msg) (g_message_id msg) h then (False, h)
      else let b = (if length (mh_buffer h) = mh_capacity h then tl (mh_buffer h) else mh_buffer h)
           in (True, h\<lparr>mh_buffer := b @ [msg]\<rparr>))"

definition history_len :: "message_history \<Rightarrow> nat" where
  "history_len h = length (mh_buffer h)"

definition history_is_empty :: "message_history \<Rightarrow> bool" where
  "history_is_empty h \<longleftrightarrow> mh_buffer h = []"

type_synonym watermark = "u32 \<rightharpoonup> u64"

definition history_since :: "watermark \<Rightarrow> message_history \<Rightarrow> gtp_message list" where
  "history_since w h =
     filter (\<lambda>m. case w (g_sender_id m) of Some hw \<Rightarrow> g_message_id m > hw | None \<Rightarrow> True) (mh_buffer h)"

definition history_since_for_sender :: "u32 \<Rightarrow> u64 \<Rightarrow> message_history \<Rightarrow> gtp_message list" where
  "history_since_for_sender sender_id since_message_id h =
     filter (\<lambda>m. g_sender_id m = sender_id \<and> g_message_id m > since_message_id) (mh_buffer h)"

definition history_clear :: "message_history \<Rightarrow> message_history" where
  "history_clear h = h\<lparr>mh_buffer := []\<rparr>"

definition watermark_new :: watermark where
  "watermark_new = Map.empty"

definition observe :: "u32 \<Rightarrow> u64 \<Rightarrow> watermark \<Rightarrow> watermark" where
  "observe sender_id message_id w =
     (let entry = opt_or (w sender_id) 0
      in w(sender_id \<mapsto> (if message_id > entry then message_id else entry)))"

definition last_seen :: "u32 \<Rightarrow> watermark \<Rightarrow> u64 option" where
  "last_seen sender_id w = w sender_id"

definition watermark_len :: "watermark \<Rightarrow> nat" where
  "watermark_len w = card (dom w)"

definition watermark_clear :: "watermark \<Rightarrow> watermark" where
  "watermark_clear w = Map.empty"

subsection \<open>Deduplication\<close>

definition gtp_key :: "gtp_message \<Rightarrow> u32 \<times> u64" where
  "gtp_key m = (g_sender_id m, g_message_id m)"

definition history_wf :: "message_history \<Rightarrow> bool" where
  "history_wf h \<longleftrightarrow> 0 < mh_capacity h \<and> length (mh_buffer h) \<le> mh_capacity h
     \<and> distinct (map gtp_key (mh_buffer h))"

lemma history_contains_key: "history_contains s i h \<longleftrightarrow> (s, i) \<in> gtp_key ` set (mh_buffer h)"
  by (auto simp: history_contains_def gtp_key_def image_iff)

lemma history_push_buffer:
  assumes "history_wf h" "gtp_key m \<notin> gtp_key ` set (mh_buffer h)"
  shows "history_push m h = (True, h\<lparr>mh_buffer := keep_last (mh_capacity h) (mh_buffer h @ [m])\<rparr>)"
  using assms
  by (cases "mh_buffer h")
    (auto simp: history_push_def history_contains_key gtp_key_def history_wf_def keep_last_def Let_def
      le_Suc_eq Suc_le_eq)

interpretation history: dedup history_push gtp_key "\<lambda>h. map gtp_key (mh_buffer h)" mh_capacity history_wf
proof
  fix h :: message_history and m
  assume wf: "history_wf h"
  have known: "history_push m h = (False, h)" if "gtp_key m \<in> gtp_key ` set (mh_buffer h)"
    using that by (simp add: history_push_def history_contains_key) (simp add: gtp_key_def)
  show "fst (history_push m h) \<longleftrightarrow> gtp_key m \<notin> set (map gtp_key (mh_buffer h))"
    using known history_push_buffer [OF wf] by fastforce
  show "gtp_key m \<in> set (map gtp_key (mh_buffer h)) \<Longrightarrow> snd (history_push m h) = h"
    using known by simp
  show "gtp_key m \<notin> set (map gtp_key (mh_buffer h)) \<Longrightarrow>
      map gtp_key (mh_buffer (snd (history_push m h)))
        = keep_last (mh_capacity h) (map gtp_key (mh_buffer h) @ [gtp_key m])"
    using history_push_buffer [OF wf] by (simp add: map_keep_last)
  show "history_wf (snd (history_push m h))"
  proof (cases "gtp_key m \<in> gtp_key ` set (mh_buffer h)")
    case True
    then show ?thesis using known wf by simp
  next
    case False
    have "distinct (map gtp_key (keep_last k (mh_buffer h @ [m])))" for k
      using wf False by (simp add: map_keep_last distinct_keep_last history_wf_def)
    then show ?thesis using wf history_push_buffer [OF wf False] by (simp add: history_wf_def)
  qed
  show "length (map gtp_key (mh_buffer h)) \<le> mh_capacity h" "distinct (map gtp_key (mh_buffer h))"
    using wf by (simp_all add: history_wf_def)
next
  fix h :: message_history and m
  show "mh_capacity (snd (history_push m h)) = mh_capacity h" by (simp add: history_push_def Let_def)
qed

definition gtp_wf :: "gtp_client \<Rightarrow> bool" where
  "gtp_wf c \<longleftrightarrow> seen_wf (gtp_seen c) \<and> bs_cap (gtp_seen c) = GTP_SEEN_CAP"

lemma gtp_wf_new [simp]: "gtp_wf gtp_client_new"
  by (simp add: gtp_wf_def gtp_client_new_def)

lemma gtp_wf_sync [simp]: "gtp_wf c \<Longrightarrow> gtp_wf (gtp_sync_epoch e c)"
  by (simp add: gtp_wf_def gtp_sync_epoch_def)

lemma gtp_sync_sync [simp]: "gtp_sync_epoch e (gtp_sync_epoch e c) = gtp_sync_epoch e c"
  by (simp add: gtp_sync_epoch_def)

lemma gtp_epoch_sync [simp]: "gtp_epoch (gtp_sync_epoch e c) = Some e"
  by (simp add: gtp_sync_epoch_def)

lemma gtp_sync_same: "gtp_epoch c = Some e \<Longrightarrow> gtp_sync_epoch e c = c"
  by (simp add: gtp_sync_epoch_def)

text \<open>Accepting a sequence of payloads in one epoch; the decodable messages and the new ones in it.\<close>

fun gtp_accept_all ::
    "gtp_codecs \<Rightarrow> u64 \<Rightarrow> (bytes \<times> payload_codec) list \<Rightarrow> gtp_client \<Rightarrow>
      gtp_client \<times> (gtp_error + gtp_accept_result) list" where
  "gtp_accept_all cs e [] c = (c, [])"
| "gtp_accept_all cs e ((pt, cd) # ps) c =
     (case gtp_accept cs pt e cd c of (c1, r) \<Rightarrow>
        case gtp_accept_all cs e ps c1 of (c2, rs) \<Rightarrow> (c2, r # rs))"

definition gtp_messages :: "gtp_codecs \<Rightarrow> (bytes \<times> payload_codec) list \<Rightarrow> gtp_message list" where
  "gtp_messages cs ps = concat (map (\<lambda>(pt, cd). case gtp_from_bytes cs pt cd of Inl _ \<Rightarrow> [] | Inr m \<Rightarrow> [m]) ps)"

definition gtp_new_messages :: "(gtp_error + gtp_accept_result) list \<Rightarrow> gtp_message list" where
  "gtp_new_messages rs = concat (map (\<lambda>r. case r of Inr (GtpNew m) \<Rightarrow> [m] | _ \<Rightarrow> []) rs)"

lemma gtp_accept_all_seen:
  assumes "gtp_epoch c = Some e"
  shows "map gtp_key (gtp_new_messages (snd (gtp_accept_all cs e ps c)))
      = fst (seen.ins_all (map gtp_key (gtp_messages cs ps)) (gtp_seen c))
    \<and> gtp_seen (fst (gtp_accept_all cs e ps c))
      = snd (seen.ins_all (map gtp_key (gtp_messages cs ps)) (gtp_seen c))"
  using assms
proof (induction ps arbitrary: c)
  case (Cons p ps)
  obtain pt cd where p: "p = (pt, cd)" by force
  show ?case
  proof (cases "gtp_from_bytes cs pt cd")
    case (Inl err)
    then show ?thesis using Cons p
      by (simp add: gtp_accept_def gtp_messages_def gtp_new_messages_def gtp_sync_same case_prod_beta Let_def)
  next
    case (Inr m)
    obtain b s' where s': "seen_insert (gtp_key m) (gtp_seen c) = (b, s')" by force
    then have acc: "gtp_accept cs pt e cd c = (c\<lparr>gtp_seen := s'\<rparr>, Inr (if b then GtpNew m else GtpDuplicate m))"
      using Inr Cons.prems by (simp add: gtp_accept_def gtp_sync_same Let_def gtp_key_def)
    show ?thesis
      using Cons.IH [of "c\<lparr>gtp_seen := s'\<rparr>"] Cons.prems acc s' Inr p
      by (simp add: gtp_messages_def gtp_new_messages_def case_prod_beta)
  qed
qed (simp add: gtp_messages_def gtp_new_messages_def)

lemma gtp_accept_all_sync:
  "snd (gtp_accept_all cs e ps c) = snd (gtp_accept_all cs e ps (gtp_sync_epoch e c))"
  by (cases ps) (auto simp: gtp_accept_def Let_def case_prod_beta)

text \<open>
  C24. Each text message is delivered once per epoch. However the payloads of an epoch are ordered,
  repeated or corrupted, as long as at most \<^verbatim>\<open>GTP_SEEN_CAP\<close> of them are new, the messages reported as
  new have pairwise different (sender, message id), and every decodable payload's message is among
  them exactly once.
\<close>

theorem gtp_exactly_once_per_epoch:
  assumes "gtp_wf c" and "gtp_epoch c \<noteq> Some e"
    and "gtp_accept_all cs e ps c = (c', rs)" and "length (gtp_new_messages rs) \<le> GTP_SEEN_CAP"
  shows "distinct (map gtp_key (gtp_new_messages rs))
    \<and> gtp_key ` set (gtp_new_messages rs) = gtp_key ` set (gtp_messages cs ps)"
proof -
  let ?c = "gtp_sync_epoch e c"
  have rs: "rs = snd (gtp_accept_all cs e ps ?c)" using assms(3) gtp_accept_all_sync [of cs e ps c] by simp
  have seen: "bs_order (gtp_seen ?c) = []" "seen_wf (gtp_seen ?c)" "bs_cap (gtp_seen ?c) = GTP_SEEN_CAP"
    using assms(1,2) gtp_wf_sync [OF assms(1), of e] by (auto simp: gtp_sync_epoch_def gtp_wf_def)
  have keys: "map gtp_key (gtp_new_messages rs)
      = fst (seen.ins_all (map gtp_key (gtp_messages cs ps)) (gtp_seen ?c))"
    using gtp_accept_all_seen [of ?c e cs ps] rs by simp
  from seen.ins_all_roomy [OF seen(2), of "map gtp_key (gtp_messages cs ps)"] assms(4) seen
  show ?thesis by (simp add: keys [symmetric] image_image)
qed

theorem gtp_exactly_once_per_epoch_witness:
  "\<exists>rs. snd (gtp_accept_all toy_gtp_codecs 4
        [(gtp_to_bytes toy_gtp_codecs (gtp_plain 1 7 [65]) Cbor, Cbor),
         (gtp_to_bytes toy_gtp_codecs (gtp_plain 2 7 [66]) Protobuf, Protobuf),
         (gtp_to_bytes toy_gtp_codecs (gtp_plain 1 7 [65]) FlatBuffers, FlatBuffers)] gtp_client_new) = rs
     \<and> distinct (map gtp_key (gtp_new_messages rs))
     \<and> gtp_key ` set (gtp_new_messages rs) = {(1, 7), (2, 7)}"
proof -
  let ?ps = "[(gtp_to_bytes toy_gtp_codecs (gtp_plain 1 7 [65]) Cbor, Cbor),
     (gtp_to_bytes toy_gtp_codecs (gtp_plain 2 7 [66]) Protobuf, Protobuf),
     (gtp_to_bytes toy_gtp_codecs (gtp_plain 1 7 [65]) FlatBuffers, FlatBuffers)]"
  have "gtp_messages toy_gtp_codecs ?ps = [gtp_plain 1 7 [65], gtp_plain 2 7 [66], gtp_plain 1 7 [65]]"
    by (simp add: gtp_messages_def gtp_format.decode_encode gtp_plain_fits)
  moreover obtain c' rs where rs: "gtp_accept_all toy_gtp_codecs 4 ?ps gtp_client_new = (c', rs)" by force
  moreover have "length (gtp_new_messages rs) \<le> GTP_SEEN_CAP"
    using rs by (auto simp: gtp_new_messages_def GTP_SEEN_CAP_def case_prod_beta split: sum.splits gtp_accept_result.splits)
  ultimately show ?thesis
    using gtp_exactly_once_per_epoch [OF gtp_wf_new _ rs] by (auto simp: gtp_client_new_def gtp_key_def)
qed

subsection \<open>Resynchronisation\<close>

definition observe_all :: "(u32 \<times> u64) list \<Rightarrow> watermark \<Rightarrow> watermark" where
  "observe_all obs w = fold (\<lambda>(s, i) w. observe s i w) obs w"

definition above :: "watermark \<Rightarrow> u32 \<Rightarrow> u64 \<Rightarrow> bool" where
  "above w s i \<longleftrightarrow> (case w s of Some hw \<Rightarrow> hw < i | None \<Rightarrow> True)"

lemma above_observe: "above (observe s' j w) s i \<longleftrightarrow> above w s i \<and> (s' = s \<longrightarrow> j < i)"
  by (auto simp: above_def observe_def Let_def word_gt_0 split: option.splits)

lemma above_observe_all:
  "above (observe_all obs w) s i \<longleftrightarrow> above w s i \<and> (\<forall>j. (s, j) \<in> set obs \<longrightarrow> j < i)"
  unfolding observe_all_def
  by (induction obs arbitrary: w) (auto simp: above_observe)

lemma history_since_above: "history_since w h = filter (\<lambda>m. above w (g_sender_id m) (g_message_id m)) (mh_buffer h)"
  by (simp add: history_since_def above_def)

text \<open>
  C29. Resynchronisation is exact. A member that has observed some messages and asks a history for
  what it missed gets, in order, exactly the retained messages whose id is above every id it observed
  from their sender; once it has observed those, the next request returns nothing.
\<close>

theorem resync_exact:
  "history_since (observe_all obs watermark_new) h =
     filter (\<lambda>m. \<forall>i. (g_sender_id m, i) \<in> set obs \<longrightarrow> i < g_message_id m) (mh_buffer h)
   \<and> history_since
       (observe_all (map gtp_key (history_since (observe_all obs watermark_new) h)) (observe_all obs watermark_new)) h
     = []"
proof -
  let ?w = "observe_all obs watermark_new"
  have "above watermark_new s i" for s i by (simp add: above_def watermark_new_def)
  then have 1: "history_since ?w h =
      filter (\<lambda>m. \<forall>i. (g_sender_id m, i) \<in> set obs \<longrightarrow> i < g_message_id m) (mh_buffer h)"
    by (simp add: history_since_above above_observe_all)
  have "\<not> above (observe_all (map gtp_key (history_since ?w h)) ?w) (g_sender_id m) (g_message_id m)"
    if m: "m \<in> set (mh_buffer h)" for m
  proof
    assume a: "above (observe_all (map gtp_key (history_since ?w h)) ?w) (g_sender_id m) (g_message_id m)"
    then have "above ?w (g_sender_id m) (g_message_id m)" by (simp add: above_observe_all [of _ ?w])
    then have "gtp_key m \<in> set (map gtp_key (history_since ?w h))"
      using m by (auto simp: history_since_above)
    then show False using a by (auto simp: above_observe_all [of _ ?w] gtp_key_def)
  qed
  then show ?thesis using 1 by (simp add: history_since_above [of "observe_all (map _ _) _"])
qed

theorem resync_exact_witness:
  "map g_message_id (history_since (observe_all [(1, 4), (1, 2)] watermark_new)
      \<lparr>mh_capacity = 8, mh_buffer = [gtp_plain 1 3 [], gtp_plain 1 5 [], gtp_plain 2 1 []]\<rparr>) = [5, 1]"
  using resync_exact [of "[(1, 4), (1, 2)]"
      "\<lparr>mh_capacity = 8, mh_buffer = [gtp_plain 1 3 [], gtp_plain 1 5 [], gtp_plain 2 1 []]\<rparr>"]
  by (auto simp: gtp_plain_def)

end
