(* ===== verification/Gsp_Signal.thy ===== *)
theory Gsp_Signal
  imports Gbp_Instances
begin

section \<open>Signals and their arguments (\<^verbatim>\<open>gsp-protocol/signal.rs\<close>, \<^verbatim>\<open>args.rs\<close>)\<close>

text \<open>
  The signal envelope with its three encodings, in the same form as the text messages and the audio
  payloads, and the per-signal schema of the argument bytes. The arguments are CBOR whatever the
  codec of the envelope is; the reader of dynamically typed CBOR values is a parameter.
\<close>

record gsp_signal =
  s_signal_type :: u32
  s_request_id :: u32
  s_sender_id :: u32
  s_role_claim :: u32
  s_args_length :: u32
  s_args :: bytes

record proto_gsp_signal =
  ps_signal_type :: u32
  ps_request_id :: u32
  ps_sender_id :: u32
  ps_role_claim :: u32
  ps_args_length :: u32
  ps_args :: bytes

record flat_gsp_signal =
  fs_signal_type :: u32
  fs_request_id :: u32
  fs_sender_id :: u32
  fs_role_claim :: u32
  fs_args_length :: u32
  fs_args :: "bytes option"

record flat_gsp_ref =
  rs_signal_type :: "u32 option"
  rs_request_id :: "u32 option"
  rs_sender_id :: "u32 option"
  rs_role_claim :: "u32 option"
  rs_args_length :: "u32 option"
  rs_args :: "bytes option option"

record gsp_codecs =
  sc_cbor :: "gsp_signal serialiser"
  sc_proto :: "proto_gsp_signal serialiser"
  sc_flat_write :: "flat_gsp_signal \<Rightarrow> bytes"
  sc_flat_read :: "bytes \<Rightarrow> string + flat_gsp_ref"

definition flat_gsp_whole :: "flat_gsp_signal \<Rightarrow> flat_gsp_ref" where
  "flat_gsp_whole f =
     \<lparr>rs_signal_type = Some (fs_signal_type f), rs_request_id = Some (fs_request_id f),
      rs_sender_id = Some (fs_sender_id f), rs_role_claim = Some (fs_role_claim f),
      rs_args_length = Some (fs_args_length f), rs_args = Some (fs_args f)\<rparr>"

definition gsp_codecs_ok :: "gsp_codecs \<Rightarrow> bool" where
  "gsp_codecs_ok cs \<longleftrightarrow> reads_back (sc_cbor cs) \<and> reads_back (sc_proto cs)
     \<and> (\<forall>f. sc_flat_read cs (sc_flat_write cs f) = Inr (flat_gsp_whole f))"

definition gsp_bare :: "u32 \<Rightarrow> u32 \<Rightarrow> u32 \<Rightarrow> gsp_signal" where
  "gsp_bare signal_type request_id sender_id =
     \<lparr>s_signal_type = signal_type, s_request_id = request_id, s_sender_id = sender_id,
      s_role_claim = 0, s_args_length = 0, s_args = []\<rparr>"

definition gsp_to_cbor :: "gsp_signal serialiser \<Rightarrow> gsp_signal \<Rightarrow> bytes" where
  "gsp_to_cbor c s = into_writer c s"

definition gsp_from_cbor :: "gsp_signal serialiser \<Rightarrow> bytes \<Rightarrow> codec_error + gsp_signal" where
  "gsp_from_cbor c data =
     (case decode_err (from_reader c data) of Inl e \<Rightarrow> Inl e
      | Inr s \<Rightarrow> (if unat (s_args_length s) \<noteq> length (s_args s) then Inl PayloadSizeMismatch else Inr s))"

definition gsp_to_proto :: "gsp_signal \<Rightarrow> proto_gsp_signal" where
  "gsp_to_proto s =
     \<lparr>ps_signal_type = s_signal_type s, ps_request_id = s_request_id s, ps_sender_id = s_sender_id s,
      ps_role_claim = s_role_claim s, ps_args_length = s_args_length s, ps_args = s_args s\<rparr>"

definition gsp_of_proto :: "proto_gsp_signal \<Rightarrow> unit + gsp_signal" where
  "gsp_of_proto p =
     (if unat (ps_args_length p) \<noteq> length (ps_args p) then Inl ()
      else Inr \<lparr>s_signal_type = ps_signal_type p, s_request_id = ps_request_id p,
        s_sender_id = ps_sender_id p, s_role_claim = ps_role_claim p,
        s_args_length = ps_args_length p, s_args = ps_args p\<rparr>)"

definition gsp_to_flat :: "gsp_signal \<Rightarrow> flat_gsp_signal" where
  "gsp_to_flat s =
     \<lparr>fs_signal_type = s_signal_type s, fs_request_id = s_request_id s, fs_sender_id = s_sender_id s,
      fs_role_claim = s_role_claim s, fs_args_length = s_args_length s,
      fs_args = (if s_args s = [] then None else Some (s_args s))\<rparr>"

definition gsp_of_flat :: "flat_gsp_ref \<Rightarrow> unit + gsp_signal" where
  "gsp_of_flat r =
     (case rs_args r of None \<Rightarrow> Inl () | Some args_opt \<Rightarrow>
      (let args = opt_or args_opt [] in
      (case rs_args_length r of None \<Rightarrow> Inl () | Some args_length \<Rightarrow>
      (if unat args_length \<noteq> length args then Inl () else
      (case rs_signal_type r of None \<Rightarrow> Inl () | Some st \<Rightarrow>
      (case rs_request_id r of None \<Rightarrow> Inl () | Some rid \<Rightarrow>
      (case rs_sender_id r of None \<Rightarrow> Inl () | Some sid \<Rightarrow>
      (case rs_role_claim r of None \<Rightarrow> Inl () | Some rc \<Rightarrow>
        Inr \<lparr>s_signal_type = st, s_request_id = rid, s_sender_id = sid, s_role_claim = rc,
             s_args_length = args_length, s_args = args\<rparr>))))))))"

definition gsp_size_err :: "unit + gsp_signal \<Rightarrow> codec_error + gsp_signal" where
  "gsp_size_err r = (case r of Inl _ \<Rightarrow> Inl PayloadSizeMismatch | Inr s \<Rightarrow> Inr s)"

definition gsp_to_bytes :: "gsp_codecs \<Rightarrow> gsp_signal \<Rightarrow> payload_codec \<Rightarrow> bytes" where
  "gsp_to_bytes cs s codec =
     (case codec of
        Cbor \<Rightarrow> gsp_to_cbor (sc_cbor cs) s
      | Protobuf \<Rightarrow> into_writer (sc_proto cs) (gsp_to_proto s)
      | FlatBuffers \<Rightarrow> sc_flat_write cs (gsp_to_flat s))"

definition gsp_from_bytes :: "gsp_codecs \<Rightarrow> bytes \<Rightarrow> payload_codec \<Rightarrow> codec_error + gsp_signal" where
  "gsp_from_bytes cs data codec =
     (case codec of
        Cbor \<Rightarrow> gsp_from_cbor (sc_cbor cs) data
      | Protobuf \<Rightarrow>
          (case decode_err (from_reader (sc_proto cs) data) of Inl e \<Rightarrow> Inl e
           | Inr p \<Rightarrow> gsp_size_err (gsp_of_proto p))
      | FlatBuffers \<Rightarrow>
          (case decode_err (sc_flat_read cs data) of Inl e \<Rightarrow> Inl e
           | Inr r \<Rightarrow> gsp_size_err (gsp_of_flat r)))"

definition gsp_fits :: "gsp_signal \<Rightarrow> bool" where
  "gsp_fits s \<longleftrightarrow> unat (s_args_length s) = length (s_args s)"

interpretation gsp_len: length_checked gsp_to_cbor gsp_from_cbor s_args_length s_args
  by unfold_locales (auto simp: gsp_to_cbor_def gsp_from_cbor_def)

interpretation gsp_format: payload_format gsp_to_bytes gsp_from_bytes gsp_codecs_ok gsp_fits
proof
  fix cs s cd assume ok: "gsp_codecs_ok cs" "gsp_fits s"
  then have len: "unat (s_args_length s) = length (s_args s)" by (simp add: gsp_fits_def)
  show "gsp_from_bytes cs (gsp_to_bytes cs s cd) cd = Inr s"
  proof (cases cd)
    case Cbor
    then show ?thesis using ok len
      by (simp add: gsp_from_bytes_def gsp_to_bytes_def gsp_to_cbor_def gsp_from_cbor_def gsp_codecs_ok_def)
  next
    case Protobuf
    then show ?thesis using ok len
      by (simp add: gsp_from_bytes_def gsp_to_bytes_def gsp_codecs_ok_def gsp_of_proto_def gsp_to_proto_def
          gsp_size_err_def)
  next
    case FlatBuffers
    then show ?thesis using ok len
      by (simp add: gsp_from_bytes_def gsp_to_bytes_def gsp_codecs_ok_def gsp_of_flat_def gsp_to_flat_def
          flat_gsp_whole_def gsp_size_err_def)
  qed
qed

text \<open>Whatever the codec, a decoded signal declares the length its arguments have.\<close>

lemma gsp_from_bytes_fits: "gsp_from_bytes cs data cd = Inr s \<Longrightarrow> gsp_fits s"
  by (cases cd)
    (auto simp: gsp_from_bytes_def gsp_from_cbor_def gsp_of_proto_def gsp_of_flat_def gsp_size_err_def
      gsp_fits_def Let_def split: sum.splits option.splits if_splits)

subsection \<open>Argument schemas (\<^verbatim>\<open>args.rs\<close>)\<close>

text \<open>
  The dynamically typed value of ciborium. Its integers range over $[-2^{64}, 2^{64})$; a float is its
  bit pattern.
\<close>

datatype cbor_value =
    CInteger int | CBytes bytes | CFloat u64 | CText bytes | CBool bool | CNull
  | CTag u64 cbor_value | CArray "cbor_value list" | CMap "(cbor_value \<times> cbor_value) list"

type_synonym value_reader = "bytes \<Rightarrow> string + cbor_value"

definition u64_try_from :: "int \<Rightarrow> u64 option" where
  "u64_try_from i = (if 0 \<le> i \<and> i < 2 ^ 64 then Some (word_of_int i) else None)"

fun into_map :: "cbor_value \<Rightarrow> (cbor_value \<times> cbor_value) list option" where
  "into_map (CMap pairs) = Some pairs"
| "into_map _ = None"

text \<open>The loop over the pairs: every key must be an integer that fits \<^verbatim>\<open>u64\<close>.\<close>

fun key_pairs :: "(cbor_value \<times> cbor_value) list \<Rightarrow> (u64 \<times> cbor_value) list option" where
  "key_pairs [] = Some []"
| "key_pairs ((k, v) # rest) =
     (case k of
        CInteger i \<Rightarrow>
          (case u64_try_from i of None \<Rightarrow> None
           | Some key \<Rightarrow> (case key_pairs rest of None \<Rightarrow> None | Some out \<Rightarrow> Some ((key, v) # out)))
      | _ \<Rightarrow> None)"

definition decode_map :: "value_reader \<Rightarrow> bytes \<Rightarrow> (u64 \<times> cbor_value) list option" where
  "decode_map rd args =
     (if args = [] then None
      else case rd args of Inl _ \<Rightarrow> None
        | Inr v \<Rightarrow> (case into_map v of None \<Rightarrow> None | Some pairs \<Rightarrow> key_pairs pairs))"

definition require_uint_key :: "(u64 \<times> cbor_value) list \<Rightarrow> u64 \<Rightarrow> u64 option" where
  "require_uint_key m k =
     (case find (\<lambda>(key, _). key = k) m of None \<Rightarrow> None
      | Some (_, v) \<Rightarrow> (case v of CInteger i \<Rightarrow> u64_try_from i | _ \<Rightarrow> None))"

definition ok_or :: "'e \<Rightarrow> 'a option \<Rightarrow> 'e + 'a" where
  "ok_or e x = (case x of None \<Rightarrow> Inl e | Some v \<Rightarrow> Inr v)"

text \<open>A map with one required key, and its two error messages.\<close>

definition validate_key0 :: "value_reader \<Rightarrow> bytes \<Rightarrow> string \<Rightarrow> string \<Rightarrow> string + unit" where
  "validate_key0 rd args not_map missing0 =
     (case ok_or not_map (decode_map rd args) of Inl e \<Rightarrow> Inl e
      | Inr m \<Rightarrow> (case ok_or missing0 (require_uint_key m 0) of Inl e \<Rightarrow> Inl e | Inr _ \<Rightarrow> Inr ()))"

fun validate_args :: "value_reader \<Rightarrow> signal_type \<Rightarrow> bytes \<Rightarrow> string + unit" where
  "validate_args rd Join args = Inr ()"
| "validate_args rd Leave args = Inr ()"
| "validate_args rd RoleChange args =
     (case ok_or ''ROLE_CHANGE: args must be a CBOR map'' (decode_map rd args) of Inl e \<Rightarrow> Inl e
      | Inr m \<Rightarrow>
        (case ok_or ''ROLE_CHANGE: missing key 0 (target_member_id)'' (require_uint_key m 0) of Inl e \<Rightarrow> Inl e
         | Inr _ \<Rightarrow>
           (case ok_or ''ROLE_CHANGE: missing key 1 (new_role)'' (require_uint_key m 1) of Inl e \<Rightarrow> Inl e
            | Inr _ \<Rightarrow> Inr ())))"
| "validate_args rd Mute args =
     validate_key0 rd args ''MUTE/UNMUTE: args must be a CBOR map''
       ''MUTE/UNMUTE: missing key 0 (target_member_id)''"
| "validate_args rd Unmute args =
     validate_key0 rd args ''MUTE/UNMUTE: args must be a CBOR map''
       ''MUTE/UNMUTE: missing key 0 (target_member_id)''"
| "validate_args rd StreamStart args =
     validate_key0 rd args ''STREAM_START/STOP: args must be a CBOR map''
       ''STREAM_START/STOP: missing key 0 (stream_type)''"
| "validate_args rd StreamStop args =
     validate_key0 rd args ''STREAM_START/STOP: args must be a CBOR map''
       ''STREAM_START/STOP: missing key 0 (stream_type)''"
| "validate_args rd CodecUpdate args =
     validate_key0 rd args ''CODEC_UPDATE: args must be a CBOR map''
       ''CODEC_UPDATE: missing key 0 (codec_id)''"

text \<open>
  The schema, stated on the value: the keys a signal requires, and a map all of whose keys are
  unsigned and whose first binding of each required key is an unsigned integer.
\<close>

fun required_keys :: "signal_type \<Rightarrow> int list option" where
  "required_keys Join = None"
| "required_keys Leave = None"
| "required_keys RoleChange = Some [0, 1]"
| "required_keys _ = Some [0]"

definition is_u64 :: "int \<Rightarrow> bool" where
  "is_u64 i \<longleftrightarrow> 0 \<le> i \<and> i < 2 ^ 64"

definition uint_keyed :: "(cbor_value \<times> cbor_value) list \<Rightarrow> bool" where
  "uint_keyed pairs \<longleftrightarrow> (\<forall>p\<in>set pairs. \<exists>i. fst p = CInteger i \<and> is_u64 i)"

definition binds_uint :: "(cbor_value \<times> cbor_value) list \<Rightarrow> int \<Rightarrow> bool" where
  "binds_uint pairs k \<longleftrightarrow> (\<exists>i. map_of pairs (CInteger k) = Some (CInteger i) \<and> is_u64 i)"

definition schema_ok :: "value_reader \<Rightarrow> signal_type \<Rightarrow> bytes \<Rightarrow> bool" where
  "schema_ok rd sig args \<longleftrightarrow>
     (case required_keys sig of None \<Rightarrow> True
      | Some ks \<Rightarrow> args \<noteq> [] \<and> (\<exists>pairs. rd args = Inr (CMap pairs) \<and> uint_keyed pairs
          \<and> (\<forall>k\<in>set ks. binds_uint pairs k)))"

lemma u64_try_from_Some: "u64_try_from i = Some w \<longleftrightarrow> is_u64 i \<and> w = word_of_int i"
  by (auto simp: u64_try_from_def is_u64_def)

lemma word_of_int_u64_inj: "is_u64 i \<Longrightarrow> is_u64 j \<Longrightarrow> (word_of_int i :: u64) = word_of_int j \<longleftrightarrow> i = j"
proof -
  assume a: "is_u64 i" "is_u64 j"
  have "uint (word_of_int i :: u64) = i" if "is_u64 i" for i
    using that by (simp add: is_u64_def uint_word_of_int)
  then show ?thesis using a by metis
qed

lemma key_pairs_uint: "(\<exists>out. key_pairs pairs = Some out) \<longleftrightarrow> uint_keyed pairs"
proof (induction pairs)
  case (Cons p pairs)
  obtain k v where p: "p = (k, v)" by force
  show ?case
  proof (cases "\<exists>i. k = CInteger i \<and> is_u64 i")
    case True
    then have "(\<exists>out. key_pairs (p # pairs) = Some out) \<longleftrightarrow> (\<exists>out. key_pairs pairs = Some out)"
      using p by (auto simp: u64_try_from_def is_u64_def split: option.splits)
    then show ?thesis using Cons True p by (simp add: uint_keyed_def)
  next
    case False
    then have "key_pairs (p # pairs) = None"
      using p by (auto simp: u64_try_from_def is_u64_def split: cbor_value.splits)
    then show ?thesis using False p by (simp add: uint_keyed_def)
  qed
qed (simp add: uint_keyed_def)

lemma key_pairs_find:
  assumes "key_pairs pairs = Some out" and "is_u64 k"
  shows "map_option (\<lambda>p. snd p) (find (\<lambda>(key, _). key = word_of_int k) out) = map_of pairs (CInteger k)"
  using assms(1)
proof (induction pairs arbitrary: out rule: key_pairs.induct)
  case (2 a v rest)
  obtain i key out' where a: "a = CInteger i" "u64_try_from i = Some key" "key_pairs rest = Some out'"
    "out = (key, v) # out'"
    using "2.prems" by (auto split: cbor_value.splits option.splits)
  have "key = word_of_int k \<longleftrightarrow> i = k"
    using a(2) assms(2) by (auto simp: u64_try_from_Some word_of_int_u64_inj)
  then show ?case using "2.IH" [OF a(1,2,3)] a by simp
qed simp

lemma require_uint_key_binds:
  assumes "key_pairs pairs = Some out" and "is_u64 k"
  shows "require_uint_key out (word_of_int k) \<noteq> None \<longleftrightarrow> binds_uint pairs k"
  unfolding binds_uint_def key_pairs_find [OF assms, symmetric]
  by (auto simp: require_uint_key_def u64_try_from_def is_u64_def split: option.splits cbor_value.splits)

lemma decode_map_Some:
  "decode_map rd args = Some m \<longleftrightarrow> args \<noteq> [] \<and> (\<exists>pairs. rd args = Inr (CMap pairs) \<and> key_pairs pairs = Some m)"
  by (auto simp: decode_map_def split: sum.splits option.splits elim: into_map.elims)

lemma key_pairs_require:
  assumes "key_pairs pairs = Some m"
  shows "require_uint_key m 0 \<noteq> None \<longleftrightarrow> binds_uint pairs 0"
    and "require_uint_key m 1 \<noteq> None \<longleftrightarrow> binds_uint pairs 1"
  using require_uint_key_binds [OF assms, of 0] require_uint_key_binds [OF assms, of 1]
  by (simp_all add: is_u64_def)

lemma decode_map_cases:
  obtains (none) "decode_map rd args = None"
      "\<And>P. \<not> (args \<noteq> [] \<and> (\<exists>pairs. rd args = Inr (CMap pairs) \<and> uint_keyed pairs \<and> P pairs))"
  | (some) m pairs where "decode_map rd args = Some m" "args \<noteq> []" "rd args = Inr (CMap pairs)"
      "uint_keyed pairs" "key_pairs pairs = Some m"
proof (cases "decode_map rd args")
  case None
  then show thesis using decode_map_Some [of rd args] by (intro none) (auto simp: key_pairs_uint [symmetric])
next
  case (Some m)
  then obtain pairs where "args \<noteq> []" "rd args = Inr (CMap pairs)" "key_pairs pairs = Some m"
    by (auto simp: decode_map_Some)
  then show thesis using Some key_pairs_uint by (intro some) auto
qed

lemma validate_args_iff: "validate_args rd sig args = Inr () \<longleftrightarrow> schema_ok rd sig args"
proof -
  have one: "validate_key0 rd args e1 e2 = Inr () \<longleftrightarrow>
      args \<noteq> [] \<and> (\<exists>pairs. rd args = Inr (CMap pairs) \<and> uint_keyed pairs \<and> binds_uint pairs 0)" for e1 e2
    by (rule decode_map_cases [of rd args])
      (auto simp: validate_key0_def ok_or_def key_pairs_require [symmetric] split: option.splits)
  have two: "validate_args rd RoleChange args = Inr () \<longleftrightarrow>
      args \<noteq> [] \<and> (\<exists>pairs. rd args = Inr (CMap pairs) \<and> uint_keyed pairs
        \<and> binds_uint pairs 0 \<and> binds_uint pairs 1)"
    by (rule decode_map_cases [of rd args])
      (auto simp: ok_or_def key_pairs_require [symmetric] split: option.splits)
  show ?thesis
    using two by (cases sig) (simp_all add: schema_ok_def one)
qed

text \<open>
  The argument check is the schema of the signal registry. \<^verbatim>\<open>validate_args\<close> accepts the argument
  bytes of a signal exactly when the signal has no schema (JOIN, LEAVE), or the bytes are a CBOR map
  all of whose keys are unsigned integers and in which every key the signal requires is bound to an
  unsigned integer (keys 0 and 1 for ROLE_CHANGE, key 0 for the others).
\<close>

theorem validate_args_schema: "validate_args rd sig args = Inr () \<longleftrightarrow> schema_ok rd sig args"
  by (rule validate_args_iff)

subsection \<open>A concrete instance\<close>

definition toy_gsp_cbor :: "gsp_signal serialiser" where
  "toy_gsp_cbor = field_codec 6
     (\<lambda>s. [bits_of (s_signal_type s), bits_of (s_request_id s), bits_of (s_sender_id s),
       bits_of (s_role_claim s), bits_of (s_args_length s), s_args s])
     (\<lambda>fs. \<lparr>s_signal_type = of_bits (fs ! 0), s_request_id = of_bits (fs ! 1), s_sender_id = of_bits (fs ! 2),
       s_role_claim = of_bits (fs ! 3), s_args_length = of_bits (fs ! 4), s_args = fs ! 5\<rparr>)"

definition toy_gsp_proto :: "proto_gsp_signal serialiser" where
  "toy_gsp_proto = field_codec 6
     (\<lambda>s. [bits_of (ps_signal_type s), bits_of (ps_request_id s), bits_of (ps_sender_id s),
       bits_of (ps_role_claim s), bits_of (ps_args_length s), ps_args s])
     (\<lambda>fs. \<lparr>ps_signal_type = of_bits (fs ! 0), ps_request_id = of_bits (fs ! 1), ps_sender_id = of_bits (fs ! 2),
       ps_role_claim = of_bits (fs ! 3), ps_args_length = of_bits (fs ! 4), ps_args = fs ! 5\<rparr>)"

definition toy_gsp_flat :: "flat_gsp_signal serialiser" where
  "toy_gsp_flat = field_codec 6
     (\<lambda>s. [bits_of (fs_signal_type s), bits_of (fs_request_id s), bits_of (fs_sender_id s),
       bits_of (fs_role_claim s), bits_of (fs_args_length s), opt_field (fs_args s)])
     (\<lambda>fs. \<lparr>fs_signal_type = of_bits (fs ! 0), fs_request_id = of_bits (fs ! 1), fs_sender_id = of_bits (fs ! 2),
       fs_role_claim = of_bits (fs ! 3), fs_args_length = of_bits (fs ! 4), fs_args = field_opt (fs ! 5)\<rparr>)"

lemma toy_gsp_reads_back [simp]: "reads_back toy_gsp_cbor" "reads_back toy_gsp_proto" "reads_back toy_gsp_flat"
  unfolding toy_gsp_cbor_def toy_gsp_proto_def toy_gsp_flat_def
  by (rule field_codec_reads_back; simp add: eval_nat_numeral)+

definition toy_gsp_codecs :: gsp_codecs where
  "toy_gsp_codecs =
     \<lparr>sc_cbor = toy_gsp_cbor, sc_proto = toy_gsp_proto, sc_flat_write = into_writer toy_gsp_flat,
      sc_flat_read = (\<lambda>bs. case from_reader toy_gsp_flat bs of Inl e \<Rightarrow> Inl e
        | Inr f \<Rightarrow> Inr (flat_gsp_whole f))\<rparr>"

lemma toy_gsp_codecs_ok [simp]: "gsp_codecs_ok toy_gsp_codecs"
  by (simp add: gsp_codecs_ok_def toy_gsp_codecs_def)

text \<open>A reader of one-entry CBOR maps from a small integer to a small integer.\<close>

fun tiny_cbor :: value_reader where
  "tiny_cbor [h, k, v] =
     (if h = 161 \<and> k < 24 \<and> v < 24 then Inr (CMap [(CInteger (uint k), CInteger (uint v))]) else Inl ''syntax'')"
| "tiny_cbor _ = Inl ''syntax''"

end
