(* ===== verification/Gsp_Client.thy ===== *)
theory Gsp_Client
  imports Gsp_Signal Gbp_Bounded Gbp_Node
begin

section \<open>Signalling client (\<^verbatim>\<open>gsp-protocol/client.rs\<close>)\<close>

text \<open>
  The client deduplicates signals by request id within an epoch and maintains the membership set and
  the mute list. Its abstract specification is a replay: of the valid signals of an epoch the first
  with each request id counts, and the roster is what those signals, applied in order, make of it.
\<close>

datatype gsp_error =
    GspDecode codec_error | UnknownSignal u32 | DuplicateRequest u32 | BadSchema string | GspNode node_error

fun gsp_error_display :: "gsp_error \<Rightarrow> string" where
  "gsp_error_display (GspDecode e) = ''decode: '' @ codec_error_display e"
| "gsp_error_display (UnknownSignal v) = ''unknown signal_type: '' @ dec_word v"
| "gsp_error_display (DuplicateRequest r) = ''duplicate request_id: '' @ dec_word r"
| "gsp_error_display (BadSchema msg) = ''bad args schema: '' @ msg"
| "gsp_error_display (GspNode e) = ''node: '' @ node_error_display e"

record gsp_accept_result =
  acc_signal :: signal_type
  acc_sender_id :: u32
  acc_role_claim :: u32
  acc_request_id :: u32

definition GSP_SEEN_CAP :: nat where
  "GSP_SEEN_CAP = 10000"

record gsp_client =
  seen_requests :: "u32 bounded_seen"
  muted :: "u32 set"
  members :: "u32 set"
  gsp_epoch :: "u64 option"

definition gsp_client_new :: gsp_client where
  "gsp_client_new =
     \<lparr>seen_requests = seen_new GSP_SEEN_CAP, muted = {}, members = {}, gsp_epoch = None\<rparr>"

definition gsp_sync_epoch :: "u64 \<Rightarrow> gsp_client \<Rightarrow> gsp_client" where
  "gsp_sync_epoch epoch c =
     (if Some epoch \<noteq> gsp_epoch c
      then c\<lparr>seen_requests := seen_clear (seen_requests c), gsp_epoch := Some epoch\<rparr> else c)"

definition gsp_reset :: "gsp_client \<Rightarrow> gsp_client" where
  "gsp_reset c = c\<lparr>seen_requests := seen_clear (seen_requests c), gsp_epoch := None\<rparr>"

definition gsp_send_with_args ::
    "gsp_codecs \<Rightarrow> gbp_frame serialiser \<Rightarrow> sealer \<Rightarrow> u32 \<Rightarrow> signal_type \<Rightarrow> u32 \<Rightarrow> u32 \<Rightarrow> bytes \<Rightarrow>
      payload_codec \<Rightarrow> gsp_client \<Rightarrow> group_node \<Rightarrow> gsp_client \<times> group_node \<times> (gsp_error + outbound_frame)" where
  "gsp_send_with_args cs fc sl target signal role_claim request_id args codec c n =
     (let c1 = gsp_sync_epoch (current_epoch n) c;
          sig0 = gsp_bare (signal_as_u32 signal) request_id (member_id n);
          sig1 = sig0\<lparr>s_role_claim := role_claim, s_args := args, s_args_length := word_of_nat (length args)\<rparr>;
          stream_id = member_stream_id n 3
      in case send_payload fc sl target Signal stream_id ordered_reliable_ack
                (gsp_to_bytes cs sig1 codec) codec n of
           (n1, Inl e) \<Rightarrow> (c1, n1, Inl (GspNode e))
         | (n1, Inr out) \<Rightarrow> (c1, n1, Inr out))"

definition gsp_send ::
    "gsp_codecs \<Rightarrow> gbp_frame serialiser \<Rightarrow> sealer \<Rightarrow> u32 \<Rightarrow> signal_type \<Rightarrow> u32 \<Rightarrow> u32 \<Rightarrow>
      payload_codec \<Rightarrow> gsp_client \<Rightarrow> group_node \<Rightarrow> gsp_client \<times> group_node \<times> (gsp_error + outbound_frame)" where
  "gsp_send cs fc sl target signal role_claim request_id codec c n =
     gsp_send_with_args cs fc sl target signal role_claim request_id [] codec c n"

definition apply_signal :: "signal_type \<Rightarrow> u32 \<Rightarrow> gsp_client \<Rightarrow> gsp_client" where
  "apply_signal signal sender_id c =
     (case signal of
        Join \<Rightarrow> c\<lparr>members := insert sender_id (members c)\<rparr>
      | Leave \<Rightarrow> c\<lparr>members := members c - {sender_id}, muted := muted c - {sender_id}\<rparr>
      | Mute \<Rightarrow> c\<lparr>muted := insert sender_id (muted c)\<rparr>
      | Unmute \<Rightarrow> c\<lparr>muted := muted c - {sender_id}\<rparr>
      | _ \<Rightarrow> c)"

definition gsp_accept ::
    "gsp_codecs \<Rightarrow> value_reader \<Rightarrow> bytes \<Rightarrow> u64 \<Rightarrow> payload_codec \<Rightarrow> gsp_client \<Rightarrow>
      gsp_client \<times> (gsp_error + gsp_accept_result)" where
  "gsp_accept cs rd plaintext epoch codec c =
     (let c1 = gsp_sync_epoch epoch c in
      case gsp_from_bytes cs plaintext codec of Inl e \<Rightarrow> (c1, Inl (GspDecode e))
      | Inr s \<Rightarrow>
        (case signal_try_from (s_signal_type s) of Inl v \<Rightarrow> (c1, Inl (UnknownSignal v))
         | Inr signal \<Rightarrow>
           (case validate_args rd signal (s_args s) of Inl msg \<Rightarrow> (c1, Inl (BadSchema msg))
            | Inr _ \<Rightarrow>
              (case seen_insert (s_request_id s) (seen_requests c1) of (fresh, seen') \<Rightarrow>
                 (let c2 = c1\<lparr>seen_requests := seen'\<rparr> in
                  if \<not> fresh then (c2, Inl (DuplicateRequest (s_request_id s)))
                  else (apply_signal signal (s_sender_id s) c2,
                        Inr \<lparr>acc_signal = signal, acc_sender_id = s_sender_id s,
                             acc_role_claim = s_role_claim s, acc_request_id = s_request_id s\<rparr>))))))"

subsection \<open>The replay specification\<close>

definition gsp_wf :: "gsp_client \<Rightarrow> bool" where
  "gsp_wf c \<longleftrightarrow> seen_wf (seen_requests c) \<and> bs_cap (seen_requests c) = GSP_SEEN_CAP"

definition valid_signal ::
    "gsp_codecs \<Rightarrow> value_reader \<Rightarrow> bytes \<times> payload_codec \<Rightarrow> gsp_accept_result option" where
  "valid_signal cs rd p =
     (case gsp_from_bytes cs (fst p) (snd p) of Inl _ \<Rightarrow> None
      | Inr s \<Rightarrow>
        (case signal_try_from (s_signal_type s) of Inl _ \<Rightarrow> None
         | Inr signal \<Rightarrow>
           (if schema_ok rd signal (s_args s)
            then Some \<lparr>acc_signal = signal, acc_sender_id = s_sender_id s,
                       acc_role_claim = s_role_claim s, acc_request_id = s_request_id s\<rparr>
            else None)))"

definition valid_signals ::
    "gsp_codecs \<Rightarrow> value_reader \<Rightarrow> (bytes \<times> payload_codec) list \<Rightarrow> gsp_accept_result list" where
  "valid_signals cs rd ps = List.map_filter (valid_signal cs rd) ps"

fun first_requests :: "u32 set \<Rightarrow> gsp_accept_result list \<Rightarrow> gsp_accept_result list" where
  "first_requests S [] = []"
| "first_requests S (a # as) =
     (if acc_request_id a \<in> S then first_requests S as
      else a # first_requests (insert (acc_request_id a) S) as)"

text \<open>The same with the memory of the client: only the last \<open>cap\<close> ids that were fresh are remembered.\<close>

fun recent_requests :: "nat \<Rightarrow> u32 list \<Rightarrow> gsp_accept_result list \<Rightarrow> gsp_accept_result list" where
  "recent_requests cap q [] = []"
| "recent_requests cap q (a # as) =
     (if acc_request_id a \<in> set q then recent_requests cap q as
      else a # recent_requests cap (keep_last cap (q @ [acc_request_id a])) as)"

definition roster_step :: "gsp_accept_result \<Rightarrow> u32 set \<times> u32 set \<Rightarrow> u32 set \<times> u32 set" where
  "roster_step a r =
     (case r of (mem, mut) \<Rightarrow>
        (case acc_signal a of
           Join \<Rightarrow> (insert (acc_sender_id a) mem, mut)
         | Leave \<Rightarrow> (mem - {acc_sender_id a}, mut - {acc_sender_id a})
         | Mute \<Rightarrow> (mem, insert (acc_sender_id a) mut)
         | Unmute \<Rightarrow> (mem, mut - {acc_sender_id a})
         | _ \<Rightarrow> (mem, mut)))"

definition roster :: "gsp_client \<Rightarrow> u32 set \<times> u32 set" where
  "roster c = (members c, muted c)"

fun gsp_accept_all ::
    "gsp_codecs \<Rightarrow> value_reader \<Rightarrow> u64 \<Rightarrow> (bytes \<times> payload_codec) list \<Rightarrow> gsp_client \<Rightarrow>
      gsp_client \<times> (gsp_error + gsp_accept_result) list" where
  "gsp_accept_all cs rd e [] c = (c, [])"
| "gsp_accept_all cs rd e ((pt, cd) # ps) c =
     (case gsp_accept cs rd pt e cd c of (c1, r) \<Rightarrow>
        case gsp_accept_all cs rd e ps c1 of (c2, rs) \<Rightarrow> (c2, r # rs))"

definition accepted_signals :: "(gsp_error + gsp_accept_result) list \<Rightarrow> gsp_accept_result list" where
  "accepted_signals rs = List.map_filter ok_of rs"

lemma gsp_wf_new [simp]: "gsp_wf gsp_client_new"
  by (simp add: gsp_wf_def gsp_client_new_def)

lemma gsp_sync_simps [simp]:
  "members (gsp_sync_epoch e c) = members c" "muted (gsp_sync_epoch e c) = muted c"
  "gsp_epoch (gsp_sync_epoch e c) = Some e" "gsp_sync_epoch e (gsp_sync_epoch e c) = gsp_sync_epoch e c"
  by (simp_all add: gsp_sync_epoch_def)

lemma gsp_wf_sync [simp]: "gsp_wf c \<Longrightarrow> gsp_wf (gsp_sync_epoch e c)"
  by (simp add: gsp_wf_def gsp_sync_epoch_def)

lemma gsp_sync_same: "gsp_epoch c = Some e \<Longrightarrow> gsp_sync_epoch e c = c"
  by (simp add: gsp_sync_epoch_def)

lemma apply_signal_simps [simp]:
  "seen_requests (apply_signal sig s c) = seen_requests c" "gsp_epoch (apply_signal sig s c) = gsp_epoch c"
  by (simp_all add: apply_signal_def split: signal_type.splits)

lemma roster_apply_signal: "roster (apply_signal (acc_signal a) (acc_sender_id a) c) = roster_step a (roster c)"
  by (simp add: apply_signal_def roster_def roster_step_def split: signal_type.splits)

lemma roster_seen [simp]: "roster (c\<lparr>seen_requests := s\<rparr>) = roster c"
  by (simp add: roster_def)

lemma roster_sync [simp]: "roster (gsp_sync_epoch e c) = roster c"
  by (simp add: roster_def)

text \<open>One call: an invalid payload changes nothing, a valid one goes through the bounded set.\<close>

lemma gsp_accept_invalid:
  assumes "gsp_epoch c = Some e" "valid_signal cs rd (pt, cd) = None"
  obtains err where "gsp_accept cs rd pt e cd c = (c, Inl err)"
proof -
  have "\<not> schema_ok rd signal args \<Longrightarrow> \<exists>msg. validate_args rd signal args = Inl msg" for signal args
    using validate_args_iff [of rd signal args] by (cases "validate_args rd signal args") auto
  then have "\<exists>err. gsp_accept cs rd pt e cd c = (c, Inl err)"
    using assms by (fastforce simp: valid_signal_def gsp_accept_def gsp_sync_same Let_def
        split: sum.splits if_splits)
  then show ?thesis using that by blast
qed

lemma gsp_accept_valid:
  assumes "gsp_epoch c = Some e" "valid_signal cs rd (pt, cd) = Some a"
  shows "gsp_accept cs rd pt e cd c =
    (case seen_insert (acc_request_id a) (seen_requests c) of (fresh, seen') \<Rightarrow>
       if fresh then (apply_signal (acc_signal a) (acc_sender_id a) (c\<lparr>seen_requests := seen'\<rparr>), Inr a)
       else (c\<lparr>seen_requests := seen'\<rparr>, Inl (DuplicateRequest (acc_request_id a))))"
  using assms
  by (auto simp: valid_signal_def gsp_accept_def gsp_sync_same Let_def validate_args_iff [symmetric]
      split: sum.splits if_splits prod.splits)

lemma seen_insert_cases:
  assumes "seen_wf b"
  shows "\<exists>b'. seen_insert x b = (x \<notin> set (bs_order b), b') \<and> seen_wf b' \<and> bs_cap b' = bs_cap b
    \<and> bs_order b' = (if x \<in> set (bs_order b) then bs_order b else keep_last (bs_cap b) (bs_order b @ [x]))"
  using seen.ins_flag [OF assms, of x] seen.ins_fresh [OF assms, of x] seen.ins_known [OF assms, of x]
    seen.ins_ok [OF assms, of x] seen_insert_cap [of x b]
  by (cases "seen_insert x b") auto

lemma gsp_accept_all_replay:
  assumes "gsp_epoch c = Some e" "seen_wf (seen_requests c)"
  shows "accepted_signals (snd (gsp_accept_all cs rd e ps c))
      = recent_requests (bs_cap (seen_requests c)) (bs_order (seen_requests c)) (valid_signals cs rd ps)
    \<and> roster (fst (gsp_accept_all cs rd e ps c))
      = fold roster_step (recent_requests (bs_cap (seen_requests c)) (bs_order (seen_requests c)) (valid_signals cs rd ps)) (roster c)"
  using assms
proof (induction ps arbitrary: c)
  case (Cons p ps)
  obtain pt cd where p: "p = (pt, cd)" by force
  note defs = p valid_signals_def accepted_signals_def map_filter_simps case_prod_beta
  let ?b = "seen_requests c"
  show ?case
  proof (cases "valid_signal cs rd (pt, cd)")
    case None
    from gsp_accept_invalid [OF Cons.prems(1) None]
    obtain err where "gsp_accept cs rd pt e cd c = (c, Inl err)" .
    then show ?thesis using Cons None by (simp add: defs)
  next
    case (Some a)
    obtain b' where b': "seen_insert (acc_request_id a) ?b = (acc_request_id a \<notin> set (bs_order ?b), b')" "seen_wf b'"
      "bs_cap b' = bs_cap ?b" "bs_order b' = (if acc_request_id a \<in> set (bs_order ?b) then bs_order ?b
         else keep_last (bs_cap ?b) (bs_order ?b @ [acc_request_id a]))"
      using seen_insert_cases [OF Cons.prems(2)] by blast
    let ?c = "c\<lparr>seen_requests := b'\<rparr>"
    have "gsp_accept cs rd pt e cd c = (if acc_request_id a \<in> set (bs_order ?b)
        then (?c, Inl (DuplicateRequest (acc_request_id a)))
        else (apply_signal (acc_signal a) (acc_sender_id a) ?c, Inr a))"
      using gsp_accept_valid [OF Cons.prems(1) Some] b'(1) by simp
    then show ?thesis
      using Cons.IH [of ?c] Cons.IH [of "apply_signal (acc_signal a) (acc_sender_id a) ?c"] Cons.prems Some b'(2-4)
      by (simp add: defs roster_apply_signal)
  qed
qed (simp add: valid_signals_def accepted_signals_def map_filter_simps)

lemma recent_is_first:
  assumes "length q + length (first_requests (set q) as) \<le> cap"
  shows "recent_requests cap q as = first_requests (set q) as"
  using assms by (induction as arbitrary: q) (auto simp: keep_last_all)

lemma gsp_accept_all_sync:
  "snd (gsp_accept_all cs rd e ps c) = snd (gsp_accept_all cs rd e ps (gsp_sync_epoch e c))
   \<and> roster (fst (gsp_accept_all cs rd e ps c)) = roster (fst (gsp_accept_all cs rd e ps (gsp_sync_epoch e c)))"
  by (cases ps) (auto simp: gsp_accept_def Let_def case_prod_beta)

text \<open>
  C23. The roster is the replay of the epoch's signals. Whatever payloads arrive in an epoch (malformed,
  with an unknown signal type, with arguments that violate the schema, or repeated), the signals the client accepts
  are, in order, the valid ones whose request id is not among the last \<^verbatim>\<open>GSP_SEEN_CAP\<close> ids accepted before, and the
  membership set and mute list are those signals applied in that order to the roster before. As long as at most
  \<^verbatim>\<open>GSP_SEEN_CAP\<close> ids occur, these are the first valid signal with each request id. This is what the code does and not all
  of it is what the protocol asks for: ids are compared without the sender, and MUTE and UNMUTE act on the sender.
\<close>

theorem gsp_roster_is_replay:
  assumes "gsp_wf c" and "gsp_epoch c \<noteq> Some e" and "gsp_accept_all cs rd e ps c = (c', rs)"
  shows "accepted_signals rs = recent_requests GSP_SEEN_CAP [] (valid_signals cs rd ps)
    \<and> roster c' = fold roster_step (recent_requests GSP_SEEN_CAP [] (valid_signals cs rd ps)) (roster c)
    \<and> (length (first_requests {} (valid_signals cs rd ps)) \<le> GSP_SEEN_CAP \<longrightarrow>
         accepted_signals rs = first_requests {} (valid_signals cs rd ps))"
proof -
  let ?c = "gsp_sync_epoch e c"
  have "bs_order (seen_requests ?c) = []" "seen_wf (seen_requests ?c)" "bs_cap (seen_requests ?c) = GSP_SEEN_CAP"
    using assms(1,2) gsp_wf_sync [OF assms(1), of e] by (auto simp: gsp_sync_epoch_def gsp_wf_def)
  then show ?thesis
    using gsp_accept_all_replay [of ?c e cs rd ps] gsp_accept_all_sync [of cs rd e ps c] assms(3)
      recent_is_first [of "[]" "valid_signals cs rd ps" GSP_SEEN_CAP] by simp
qed

definition toy_signal :: "signal_type \<Rightarrow> u32 \<Rightarrow> u32 \<Rightarrow> bytes \<Rightarrow> gsp_signal" where
  "toy_signal sig rid sid args =
     (gsp_bare (signal_as_u32 sig) rid sid)\<lparr>s_args := args, s_args_length := word_of_nat (length args)\<rparr>"

definition toy_accept :: "signal_type \<Rightarrow> u32 \<Rightarrow> u32 \<Rightarrow> gsp_accept_result" where
  "toy_accept sig rid sid =
     \<lparr>acc_signal = sig, acc_sender_id = sid, acc_role_claim = 0, acc_request_id = rid\<rparr>"

lemma toy_valid_signal:
  assumes "length args < 2 ^ 32" "schema_ok rd sig args"
  shows "valid_signal toy_gsp_codecs rd (gsp_to_bytes toy_gsp_codecs (toy_signal sig rid sid args) cd, cd)
    = Some (toy_accept sig rid sid)"
proof -
  have "gsp_fits (toy_signal sig rid sid args)"
    using assms(1) by (simp add: gsp_fits_def toy_signal_def)
  moreover have "signal_try_from (signal_as_u32 sig) = Inr sig"
    using signal_wire.dec_enc [of sig] by simp
  ultimately show ?thesis
    using assms(2)
    by (simp add: valid_signal_def gsp_format.decode_encode) (simp add: toy_signal_def gsp_bare_def toy_accept_def)
qed

lemma toy_mute_schema: "schema_ok tiny_cbor Mute [161, 0, 6]"
  by (simp add: schema_ok_def uint_keyed_def binds_uint_def is_u64_def)

lemma join_schema: "schema_ok rd Join args"
  by (simp add: schema_ok_def)

lemmas toy_valid_join = toy_valid_signal [OF _ join_schema, of "[]", simplified]
lemmas toy_valid_mute = toy_valid_signal [OF _ toy_mute_schema, simplified]

theorem gsp_roster_is_replay_witness:
  "roster (fst (gsp_accept_all toy_gsp_codecs tiny_cbor 3
      [(gsp_to_bytes toy_gsp_codecs (toy_signal Join 1 5 []) Cbor, Cbor),
       (gsp_to_bytes toy_gsp_codecs (toy_signal Join 1 6 []) Protobuf, Protobuf),
       (gsp_to_bytes toy_gsp_codecs (toy_signal Mute 2 5 [161, 0, 6]) FlatBuffers, FlatBuffers)] gsp_client_new))
   = ({5}, {5})"
proof -
  let ?ps = "[(gsp_to_bytes toy_gsp_codecs (toy_signal Join 1 5 []) Cbor, Cbor),
     (gsp_to_bytes toy_gsp_codecs (toy_signal Join 1 6 []) Protobuf, Protobuf),
     (gsp_to_bytes toy_gsp_codecs (toy_signal Mute 2 5 [161, 0, 6]) FlatBuffers, FlatBuffers)]"
  have v: "recent_requests GSP_SEEN_CAP [] (valid_signals toy_gsp_codecs tiny_cbor ?ps) = [toy_accept Join 1 5, toy_accept Mute 2 5]"
    by (simp add: valid_signals_def map_filter_simps toy_valid_join toy_valid_mute)
      (simp add: toy_accept_def GSP_SEEN_CAP_def keep_last_def)
  obtain c' rs where run: "gsp_accept_all toy_gsp_codecs tiny_cbor 3 ?ps gsp_client_new = (c', rs)" by force
  have "roster c' = ({5}, {5})"
    using gsp_roster_is_replay [OF gsp_wf_new _ run]
    unfolding v by (simp add: GSP_SEEN_CAP_def roster_step_def toy_accept_def)
      (simp add: gsp_client_new_def roster_def)
  then show ?thesis by (simp only: run fst_conv)
qed

subsection \<open>Where the client departs from the protocol\<close>

lemma gsp_accept_sync: "gsp_accept cs rd pt e cd c = gsp_accept cs rd pt e cd (gsp_sync_epoch e c)"
  by (simp add: gsp_accept_def)

lemma gsp_accept_fresh:
  assumes "gsp_accept cs rd pt e cd c = (c1, Inr r)" "valid_signal cs rd (pt, cd) = Some a"
  obtains b where "seen_insert (acc_request_id a) (seen_requests (gsp_sync_epoch e c)) = (True, b)"
    "c1 = apply_signal (acc_signal a) (acc_sender_id a) ((gsp_sync_epoch e c)\<lparr>seen_requests := b\<rparr>)" "r = a"
proof -
  have "gsp_epoch (gsp_sync_epoch e c) = Some e" by simp
  from gsp_accept_valid [OF this assms(2)] assms(1) that show ?thesis
    unfolding gsp_accept_sync [of cs rd pt e cd c] by (auto split: prod.splits if_splits)
qed

text \<open>
  Request ids are shared by all senders. Once a signal has been accepted, any other valid signal
  of the same epoch with the same request id is refused as a duplicate and leaves the client unchanged,
  also when it comes from a different member; the protocol makes request ids unique per sender only.
\<close>

theorem gsp_request_id_shared:
  assumes "gsp_wf c" and "gsp_accept cs rd pt e cd c = (c1, Inr a)"
    and "valid_signal cs rd (pt, cd) = Some a" and "valid_signal cs rd (qt, cd') = Some b"
    and "acc_request_id b = acc_request_id a"
  shows "gsp_accept cs rd qt e cd' c1 = (c1, Inl (DuplicateRequest (acc_request_id a)))"
proof -
  from gsp_accept_fresh [OF assms(2,3)] obtain s where
    s: "seen_insert (acc_request_id a) (seen_requests (gsp_sync_epoch e c)) = (True, s)"
      "c1 = apply_signal (acc_signal a) (acc_sender_id a) ((gsp_sync_epoch e c)\<lparr>seen_requests := s\<rparr>)" .
  have wf: "seen_wf (seen_requests (gsp_sync_epoch e c))" "0 < bs_cap (seen_requests (gsp_sync_epoch e c))"
    using gsp_wf_sync [OF assms(1), of e] by (simp_all add: gsp_wf_def GSP_SEEN_CAP_def)
  then have "bs_order s = keep_last (bs_cap (seen_requests (gsp_sync_epoch e c)))
      (bs_order (seen_requests (gsp_sync_epoch e c)) @ [acc_request_id a])"
    using seen.ins_fresh [OF wf(1), of "acc_request_id a"] seen.ins_flag [OF wf(1), of "acc_request_id a"] s(1)
    by simp
  then have "acc_request_id a \<in> set (bs_order s)"
    using wf(2) keep_last_last by metis
  moreover have "seen_wf s" using seen.ins_ok [OF wf(1), of "acc_request_id a"] s(1) by simp
  ultimately have "seen_insert (acc_request_id a) s = (False, s)"
    using seen.ins_flag seen.ins_known by (metis prod.collapse)
  moreover have "gsp_epoch c1 = Some e" "seen_requests c1 = s" using s(2) by simp_all
  ultimately show ?thesis using gsp_accept_valid [OF _ assms(4)] assms(5) by simp
qed

theorem gsp_request_id_shared_witness:
  "snd (gsp_accept toy_gsp_codecs tiny_cbor (gsp_to_bytes toy_gsp_codecs (toy_signal Join 1 6 []) Cbor) 3 Cbor
      (fst (gsp_accept toy_gsp_codecs tiny_cbor (gsp_to_bytes toy_gsp_codecs (toy_signal Join 1 5 []) Cbor) 3 Cbor
         gsp_client_new)))
   = Inl (DuplicateRequest 1)"
proof -
  let ?p = "gsp_to_bytes toy_gsp_codecs (toy_signal Join 1 5 []) Cbor"
  obtain c1 where c1: "gsp_accept toy_gsp_codecs tiny_cbor ?p 3 Cbor gsp_client_new = (c1, Inr (toy_accept Join 1 5))"
    unfolding gsp_accept_sync [of _ _ _ _ _ gsp_client_new]
    using gsp_accept_valid [where c = "gsp_sync_epoch 3 gsp_client_new" and e = 3,
        OF _ toy_valid_join [where rd = tiny_cbor and rid = 1 and sid = 5 and cd = Cbor]]
    by (simp add: toy_accept_def gsp_sync_epoch_def gsp_client_new_def seen_insert_def GSP_SEEN_CAP_def)
  show ?thesis
    using gsp_request_id_shared [OF gsp_wf_new c1 toy_valid_join
        toy_valid_join [where rid = 1 and sid = 6 and cd = Cbor]] c1
    by (simp add: toy_accept_def)
qed

text \<open>
  A MUTE takes effect on its sender. An accepted MUTE whose arguments name member \<open>t\<close> as its target
  puts the sender on the mute list; \<open>t\<close>, when it is another member, is muted afterwards only if it was
  before.
\<close>

theorem gsp_mute_hits_sender:
  assumes "gsp_from_bytes cs pt cd = Inr s" and "s_signal_type s = signal_as_u32 Mute"
    and "rd (s_args s) = Inr (CMap [(CInteger 0, CInteger (uint (t :: u32)))])"
    and "gsp_accept cs rd pt e cd c = (c1, Inr a)" and "t \<noteq> s_sender_id s"
  shows "s_sender_id s \<in> muted c1 \<and> (t \<in> muted c1 \<longleftrightarrow> t \<in> muted c)"
  using assms signal_wire.dec_enc [of Mute]
  by (auto simp: gsp_accept_def Let_def apply_signal_def simp del: signal_as_u32.simps
      split: sum.splits prod.splits if_splits)

theorem gsp_mute_hits_sender_witness:
  "5 \<in> muted (fst (gsp_accept toy_gsp_codecs tiny_cbor
       (gsp_to_bytes toy_gsp_codecs (toy_signal Mute 2 5 [161, 0, 6]) Cbor) 3 Cbor gsp_client_new))
   \<and> 6 \<notin> muted (fst (gsp_accept toy_gsp_codecs tiny_cbor
       (gsp_to_bytes toy_gsp_codecs (toy_signal Mute 2 5 [161, 0, 6]) Cbor) 3 Cbor gsp_client_new))"
proof -
  let ?p = "gsp_to_bytes toy_gsp_codecs (toy_signal Mute 2 5 [161, 0, 6]) Cbor"
  have dec: "gsp_from_bytes toy_gsp_codecs ?p Cbor = Inr (toy_signal Mute 2 5 [161, 0, 6])"
    by (rule gsp_format.decode_encode) (simp_all add: gsp_fits_def toy_signal_def)
  obtain c1 where c1: "gsp_accept toy_gsp_codecs tiny_cbor ?p 3 Cbor gsp_client_new = (c1, Inr (toy_accept Mute 2 5))"
    unfolding gsp_accept_sync [of _ _ _ _ _ gsp_client_new]
    using gsp_accept_valid [where c = "gsp_sync_epoch 3 gsp_client_new" and e = 3,
        OF _ toy_valid_mute [where rid = 2 and sid = 5 and cd = Cbor]]
    by (simp add: toy_accept_def gsp_sync_epoch_def gsp_client_new_def seen_insert_def GSP_SEEN_CAP_def)
  show ?thesis
    using gsp_mute_hits_sender [OF dec _ _ c1, of 6] c1
    by (simp add: toy_signal_def gsp_bare_def) (simp add: gsp_client_new_def)
qed

end
