(* ===== verification/Gap_Payload.thy ===== *)
theory Gap_Payload
  imports Gbp_Instances
begin

section \<open>Audio payloads (\<^verbatim>\<open>gap-protocol/payload.rs\<close>)\<close>

text \<open>
  The audio payload and its three encodings, in the same form as the text messages: the Protobuf
  struct of \<^verbatim>\<open>gbp-proto\<close>, and the written and the read side of the FlatBuffers table.
\<close>

record gap_payload =
  a_media_source_id :: u32
  a_rtp_sequence :: u32
  a_rtp_timestamp :: u64
  a_key_phase :: u32
  a_opus_frame :: bytes

record proto_gap_payload =
  pa_media_source_id :: u32
  pa_rtp_sequence :: u32
  pa_rtp_timestamp :: u64
  pa_key_phase :: u32
  pa_opus_frame :: bytes

record flat_gap_payload =
  fa_media_source_id :: u32
  fa_rtp_sequence :: u32
  fa_rtp_timestamp :: u64
  fa_key_phase :: u32
  fa_opus_frame :: "bytes option"

record flat_gap_ref =
  ra_media_source_id :: "u32 option"
  ra_rtp_sequence :: "u32 option"
  ra_rtp_timestamp :: "u64 option"
  ra_key_phase :: "u32 option"
  ra_opus_frame :: "bytes option option"

record gap_codecs =
  ac_cbor :: "gap_payload serialiser"
  ac_proto :: "proto_gap_payload serialiser"
  ac_flat_write :: "flat_gap_payload \<Rightarrow> bytes"
  ac_flat_read :: "bytes \<Rightarrow> string + flat_gap_ref"

definition flat_gap_whole :: "flat_gap_payload \<Rightarrow> flat_gap_ref" where
  "flat_gap_whole f =
     \<lparr>ra_media_source_id = Some (fa_media_source_id f), ra_rtp_sequence = Some (fa_rtp_sequence f),
      ra_rtp_timestamp = Some (fa_rtp_timestamp f), ra_key_phase = Some (fa_key_phase f),
      ra_opus_frame = Some (fa_opus_frame f)\<rparr>"

definition gap_codecs_ok :: "gap_codecs \<Rightarrow> bool" where
  "gap_codecs_ok cs \<longleftrightarrow> reads_back (ac_cbor cs) \<and> reads_back (ac_proto cs)
     \<and> (\<forall>f. ac_flat_read cs (ac_flat_write cs f) = Inr (flat_gap_whole f))"

definition opus_20ms :: "u32 \<Rightarrow> u16 \<Rightarrow> u32 \<Rightarrow> bytes \<Rightarrow> gap_payload" where
  "opus_20ms media_source_id rtp_sequence key_phase opus =
     \<lparr>a_media_source_id = media_source_id, a_rtp_sequence = ucast rtp_sequence,
      a_rtp_timestamp = 960, a_key_phase = key_phase, a_opus_frame = opus\<rparr>"

definition with_timestamp :: "u32 \<Rightarrow> u16 \<Rightarrow> u64 \<Rightarrow> u32 \<Rightarrow> bytes \<Rightarrow> gap_payload" where
  "with_timestamp media_source_id rtp_sequence rtp_timestamp key_phase opus =
     \<lparr>a_media_source_id = media_source_id, a_rtp_sequence = ucast rtp_sequence,
      a_rtp_timestamp = rtp_timestamp, a_key_phase = key_phase, a_opus_frame = opus\<rparr>"

definition gap_to_cbor :: "gap_payload serialiser \<Rightarrow> gap_payload \<Rightarrow> bytes" where
  "gap_to_cbor c p = into_writer c p"

definition gap_from_cbor :: "gap_payload serialiser \<Rightarrow> bytes \<Rightarrow> codec_error + gap_payload" where
  "gap_from_cbor c data = decode_err (from_reader c data)"

definition gap_to_proto :: "gap_payload \<Rightarrow> proto_gap_payload" where
  "gap_to_proto p =
     \<lparr>pa_media_source_id = a_media_source_id p, pa_rtp_sequence = a_rtp_sequence p,
      pa_rtp_timestamp = a_rtp_timestamp p, pa_key_phase = a_key_phase p,
      pa_opus_frame = a_opus_frame p\<rparr>"

definition gap_of_proto :: "proto_gap_payload \<Rightarrow> gap_payload" where
  "gap_of_proto p =
     \<lparr>a_media_source_id = pa_media_source_id p, a_rtp_sequence = pa_rtp_sequence p,
      a_rtp_timestamp = pa_rtp_timestamp p, a_key_phase = pa_key_phase p,
      a_opus_frame = pa_opus_frame p\<rparr>"

definition gap_to_flat :: "gap_payload \<Rightarrow> flat_gap_payload" where
  "gap_to_flat p =
     \<lparr>fa_media_source_id = a_media_source_id p, fa_rtp_sequence = a_rtp_sequence p,
      fa_rtp_timestamp = a_rtp_timestamp p, fa_key_phase = a_key_phase p,
      fa_opus_frame = Some (a_opus_frame p)\<rparr>"

definition gap_of_flat :: "flat_gap_ref \<Rightarrow> unit + gap_payload" where
  "gap_of_flat r =
     (case ra_opus_frame r of None \<Rightarrow> Inl () | Some opus_opt \<Rightarrow>
      (case ra_media_source_id r of None \<Rightarrow> Inl () | Some msid \<Rightarrow>
      (case ra_rtp_sequence r of None \<Rightarrow> Inl () | Some seq \<Rightarrow>
      (case ra_rtp_timestamp r of None \<Rightarrow> Inl () | Some ts \<Rightarrow>
      (case ra_key_phase r of None \<Rightarrow> Inl () | Some kp \<Rightarrow>
        Inr \<lparr>a_media_source_id = msid, a_rtp_sequence = seq, a_rtp_timestamp = ts, a_key_phase = kp,
             a_opus_frame = opt_or opus_opt []\<rparr>)))))"

definition gap_to_bytes :: "gap_codecs \<Rightarrow> gap_payload \<Rightarrow> payload_codec \<Rightarrow> bytes" where
  "gap_to_bytes cs p codec =
     (case codec of
        Cbor \<Rightarrow> gap_to_cbor (ac_cbor cs) p
      | Protobuf \<Rightarrow> into_writer (ac_proto cs) (gap_to_proto p)
      | FlatBuffers \<Rightarrow> ac_flat_write cs (gap_to_flat p))"

definition gap_from_bytes :: "gap_codecs \<Rightarrow> bytes \<Rightarrow> payload_codec \<Rightarrow> codec_error + gap_payload" where
  "gap_from_bytes cs data codec =
     (case codec of
        Cbor \<Rightarrow> gap_from_cbor (ac_cbor cs) data
      | Protobuf \<Rightarrow>
          (case decode_err (from_reader (ac_proto cs) data) of Inl e \<Rightarrow> Inl e
           | Inr p \<Rightarrow> Inr (gap_of_proto p))
      | FlatBuffers \<Rightarrow>
          (case decode_err (ac_flat_read cs data) of Inl e \<Rightarrow> Inl e
           | Inr r \<Rightarrow> (case gap_of_flat r of Inl _ \<Rightarrow> Inl (Decode ''flatbuffers field error'')
                      | Inr p \<Rightarrow> Inr p)))"

interpretation gap_format: payload_format gap_to_bytes gap_from_bytes gap_codecs_ok "\<lambda>_. True"
proof
  fix cs and p :: gap_payload and cd assume "gap_codecs_ok cs"
  then show "gap_from_bytes cs (gap_to_bytes cs p cd) cd = Inr p"
    by (cases cd) (simp_all add: gap_from_bytes_def gap_to_bytes_def gap_codecs_ok_def gap_to_cbor_def
        gap_from_cbor_def gap_of_proto_def gap_to_proto_def gap_of_flat_def flat_gap_whole_def gap_to_flat_def)
qed

subsection \<open>A concrete instance\<close>

definition toy_gap_cbor :: "gap_payload serialiser" where
  "toy_gap_cbor = field_codec 5
     (\<lambda>p. [bits_of (a_media_source_id p), bits_of (a_rtp_sequence p), bits_of (a_rtp_timestamp p),
       bits_of (a_key_phase p), a_opus_frame p])
     (\<lambda>fs. \<lparr>a_media_source_id = of_bits (fs ! 0), a_rtp_sequence = of_bits (fs ! 1),
       a_rtp_timestamp = of_bits (fs ! 2), a_key_phase = of_bits (fs ! 3), a_opus_frame = fs ! 4\<rparr>)"

definition toy_gap_proto :: "proto_gap_payload serialiser" where
  "toy_gap_proto = field_codec 5
     (\<lambda>p. [bits_of (pa_media_source_id p), bits_of (pa_rtp_sequence p), bits_of (pa_rtp_timestamp p),
       bits_of (pa_key_phase p), pa_opus_frame p])
     (\<lambda>fs. \<lparr>pa_media_source_id = of_bits (fs ! 0), pa_rtp_sequence = of_bits (fs ! 1),
       pa_rtp_timestamp = of_bits (fs ! 2), pa_key_phase = of_bits (fs ! 3), pa_opus_frame = fs ! 4\<rparr>)"

definition toy_gap_flat :: "flat_gap_payload serialiser" where
  "toy_gap_flat = field_codec 5
     (\<lambda>p. [bits_of (fa_media_source_id p), bits_of (fa_rtp_sequence p), bits_of (fa_rtp_timestamp p),
       bits_of (fa_key_phase p), opt_field (fa_opus_frame p)])
     (\<lambda>fs. \<lparr>fa_media_source_id = of_bits (fs ! 0), fa_rtp_sequence = of_bits (fs ! 1),
       fa_rtp_timestamp = of_bits (fs ! 2), fa_key_phase = of_bits (fs ! 3), fa_opus_frame = field_opt (fs ! 4)\<rparr>)"

lemma toy_gap_reads_back [simp]: "reads_back toy_gap_cbor" "reads_back toy_gap_proto" "reads_back toy_gap_flat"
  unfolding toy_gap_cbor_def toy_gap_proto_def toy_gap_flat_def
  by (rule field_codec_reads_back; simp add: eval_nat_numeral)+

definition toy_gap_codecs :: gap_codecs where
  "toy_gap_codecs =
     \<lparr>ac_cbor = toy_gap_cbor, ac_proto = toy_gap_proto, ac_flat_write = into_writer toy_gap_flat,
      ac_flat_read = (\<lambda>bs. case from_reader toy_gap_flat bs of Inl e \<Rightarrow> Inl e
        | Inr f \<Rightarrow> Inr (flat_gap_whole f))\<rparr>"

lemma toy_gap_codecs_ok [simp]: "gap_codecs_ok toy_gap_codecs"
  by (simp add: gap_codecs_ok_def toy_gap_codecs_def)

end
