(* ===== verification/Gap_Client.thy ===== *)
theory Gap_Client
  imports Gap_Payload Gbp_Node
begin

section \<open>Audio client (\<^verbatim>\<open>gap-protocol/client.rs\<close>)\<close>

text \<open>
  The stateful audio client: outbound RTP counters, the inbound window per source, and the windows of
  previous epochs kept for the overlap time. The clock is read once per call.
\<close>

datatype gap_error =
    GapDecode codec_error | EpochStale u32 u32 | RtpReplay u32 u32 u32 | GapNode node_error

fun gap_error_display :: "gap_error \<Rightarrow> string" where
  "gap_error_display (GapDecode e) = ''decode: '' @ codec_error_display e"
| "gap_error_display (EpochStale kp expected) =
     ''epoch stale: kp='' @ dec_word kp @ '', expected='' @ dec_word expected"
| "gap_error_display (RtpReplay src sq hw) =
     ''rtp replay: src='' @ dec_word src @ '', seq='' @ dec_word sq @ '', hw='' @ dec_word hw"
| "gap_error_display (GapNode e) = ''node: '' @ node_error_display e"

datatype gap_accept_result = GapNew gap_payload | GapLate gap_payload

record old_epoch_window =
  ow_epoch :: u64
  ow_in_hw :: "u32 \<rightharpoonup> u32"
  ow_expires :: instant

record gap_client =
  ga_out_rtp_seq :: "u32 \<rightharpoonup> u32"
  ga_in_hw :: "u32 \<rightharpoonup> u32"
  ga_epoch :: "u64 option"
  ga_old_windows :: "old_epoch_window list"

definition gap_client_new :: gap_client where
  "gap_client_new =
     \<lparr>ga_out_rtp_seq = Map.empty, ga_in_hw = Map.empty, ga_epoch = None, ga_old_windows = []\<rparr>"

definition gap_sync_epoch :: "instant \<Rightarrow> u64 \<Rightarrow> gap_client \<Rightarrow> gap_client" where
  "gap_sync_epoch now epoch c =
     (let c1 = c\<lparr>ga_old_windows := filter (\<lambda>w. ow_expires w > now) (ga_old_windows c)\<rparr> in
      if Some epoch \<noteq> ga_epoch c1
      then (let c2 = (case ga_epoch c1 of
                  Some old_epoch \<Rightarrow>
                    (if ga_in_hw c1 \<noteq> Map.empty
                     then c1\<lparr>ga_old_windows := ga_old_windows c1 @
                            [\<lparr>ow_epoch = old_epoch, ow_in_hw = ga_in_hw c1,
                              ow_expires = now + T_GAP_KEY_OVERLAP_MS\<rparr>]\<rparr>
                     else c1)
                | None \<Rightarrow> c1)
            in c2\<lparr>ga_out_rtp_seq := Map.empty, ga_in_hw := Map.empty, ga_epoch := Some epoch\<rparr>)
      else c1)"

definition gap_reset :: "gap_client \<Rightarrow> gap_client" where
  "gap_reset c =
     c\<lparr>ga_out_rtp_seq := Map.empty, ga_in_hw := Map.empty, ga_old_windows := [], ga_epoch := None\<rparr>"

text \<open>RTP sequence numbers have 16 bits.\<close>

definition rtp_next :: "u32 \<Rightarrow> u32" where
  "rtp_next s = (s + 1) AND 0xFFFF"

definition gap_send ::
    "gap_codecs \<Rightarrow> gbp_frame serialiser \<Rightarrow> sealer \<Rightarrow> instant \<Rightarrow> u32 \<Rightarrow> u32 \<Rightarrow> u64 \<Rightarrow> bytes \<Rightarrow> payload_codec \<Rightarrow>
      gap_client \<Rightarrow> group_node \<Rightarrow> gap_client \<times> group_node \<times> (gap_error + outbound_frame)" where
  "gap_send cs fc s now target media_source_id rtp_timestamp opus codec c n =
     (let c1 = gap_sync_epoch now (current_epoch n) c;
          seq = rtp_next (opt_or (ga_out_rtp_seq c1 media_source_id) 0);
          c2 = c1\<lparr>ga_out_rtp_seq := (ga_out_rtp_seq c1)(media_source_id \<mapsto> seq)\<rparr>;
          payload = \<lparr>a_media_source_id = media_source_id, a_rtp_sequence = seq,
                     a_rtp_timestamp = rtp_timestamp, a_key_phase = ucast (current_epoch n),
                     a_opus_frame = opus\<rparr>;
          stream_id = member_stream_id n 2
      in case send_payload fc s target Audio stream_id ordered_only (gap_to_bytes cs payload codec) codec n of
           (n1, Inl e) \<Rightarrow> (c2, n1, Inl (GapNode e))
         | (n1, Inr of_) \<Rightarrow> (c2, n1, Inr of_))"

text \<open>The window rule, shared by the current epoch and the overlap windows.\<close>

definition is_late :: "u32 \<Rightarrow> u32 \<Rightarrow> bool" where
  "is_late hw seq \<longleftrightarrow> seq \<le> hw \<and> hw - seq \<le> 0x7FFF"

text \<open>The first overlap window of the epoch that has not expired, updated in place.\<close>

fun old_window_accept ::
    "instant \<Rightarrow> gap_payload \<Rightarrow> old_epoch_window list \<Rightarrow> (old_epoch_window list \<times> gap_accept_result) option" where
  "old_window_accept now p [] = None"
| "old_window_accept now p (w # ws) =
     (if ow_epoch w = ucast (a_key_phase p) \<and> ow_expires w > now
      then let hw = opt_or (ow_in_hw w (a_media_source_id p)) 0 in
           if is_late hw (a_rtp_sequence p) then Some (w # ws, GapLate p)
           else Some (w\<lparr>ow_in_hw := (ow_in_hw w)(a_media_source_id p \<mapsto> a_rtp_sequence p)\<rparr> # ws, GapNew p)
      else map_option (\<lambda>(ws', r). (w # ws', r)) (old_window_accept now p ws))"

definition gap_accept ::
    "gap_codecs \<Rightarrow> instant \<Rightarrow> bytes \<Rightarrow> u64 \<Rightarrow> payload_codec \<Rightarrow> gap_client \<Rightarrow>
      gap_client \<times> (gap_error + gap_accept_result)" where
  "gap_accept cs now plaintext epoch codec c =
     (let c1 = gap_sync_epoch now epoch c in
      case gap_from_bytes cs plaintext codec of Inl e \<Rightarrow> (c1, Inl (GapDecode e))
      | Inr p \<Rightarrow>
        (if a_key_phase p = ucast epoch
         then (let hw = opt_or (ga_in_hw c1 (a_media_source_id p)) 0 in
               if is_late hw (a_rtp_sequence p) then (c1, Inr (GapLate p))
               else (c1\<lparr>ga_in_hw := (ga_in_hw c1)(a_media_source_id p \<mapsto> a_rtp_sequence p)\<rparr>, Inr (GapNew p)))
         else
         (case old_window_accept now p (ga_old_windows c1) of
            Some (ws, r) \<Rightarrow> (c1\<lparr>ga_old_windows := ws\<rparr>, Inr r)
          | None \<Rightarrow> (c1, Inl (EpochStale (a_key_phase p) (ucast epoch))))))"

subsection \<open>The window rule\<close>

lemma rtp_next_cases:
  assumes "s \<le> 0xFFFF"
  shows "rtp_next s = (if s = 0xFFFF then 0 else s + 1)"
proof (cases "s = 0xFFFF")
  case False
  then have "s < 0xFFFF" using assms by simp
  then have "unat s < 65535" by (simp add: word_less_nat_alt)
  then have u: "unat (s + 1) = unat s + 1" by (simp add: unat_word_ariths)
  have "(s + 1) AND 0xFFFF = take_bit 16 (s + 1)" by (simp add: take_bit_eq_mask mask_numeral)
  moreover have "unat (take_bit 16 (s + 1)) = unat (s + 1)"
    using u \<open>unat s < 65535\<close> by (simp add: unsigned_take_bit_eq take_bit_nat_eq_self)
  ultimately show ?thesis using False by (simp add: rtp_next_def word_unat_eq_iff)
qed (simp add: rtp_next_def)

lemma rtp_next_fresh:
  assumes "s \<le> 0xFFFF"
  shows "\<not> is_late s (rtp_next s)" and "rtp_next s \<le> 0xFFFF"
proof -
  show "\<not> is_late s (rtp_next s)"
  proof (cases "s = 0xFFFF")
    case False
    then have "s < 0xFFFF" using assms by simp
    then have "s < s + 1" by unat_arith simp
    then have "\<not> s + 1 \<le> s" by simp
    then show ?thesis using False assms by (simp add: rtp_next_cases is_late_def)
  qed (simp add: rtp_next_def is_late_def)
  show "rtp_next s \<le> 0xFFFF"
  proof (cases "s = 0xFFFF")
    case False
    then have "s < 0xFFFF" using assms by simp
    then have "s + 1 \<le> 0xFFFF" by unat_arith
    then show ?thesis using False assms by (simp add: rtp_next_cases)
  qed (simp add: rtp_next_def)
qed

lemma rtp_next_mod:
  assumes "unat s = k mod 65536"
  shows "rtp_next s = word_of_nat (Suc k mod 65536)" and "unat (rtp_next s) = Suc k mod 65536"
proof -
  have "(s + 1) AND 0xFFFF = take_bit 16 (s + 1)" by (simp add: take_bit_eq_mask mask_numeral)
  moreover have "unat (s + 1) = unat s + 1" using assms by (simp add: unat_word_ariths)
  ultimately have "unat (rtp_next s) = take_bit 16 (unat s + 1)" by (simp only: rtp_next_def unsigned_take_bit_eq)
  then show u: "unat (rtp_next s) = Suc k mod 65536" using assms by (simp add: take_bit_eq_mod mod_Suc_eq)
  have "Suc k mod 65536 < 2 ^ 32" by (rule less_trans [of _ 65536]) simp_all
  then show "rtp_next s = word_of_nat (Suc k mod 65536)" using u by (simp add: word_unat_eq_iff)
qed

lemma not_late_small: "a \<le> 0x7FFF \<Longrightarrow> b \<le> 0x7FFF \<Longrightarrow> \<not> is_late a b \<Longrightarrow> a < b"
  unfolding is_late_def by unat_arith

subsection \<open>Receiving\<close>

fun gap_accept_all ::
    "gap_codecs \<Rightarrow> u64 \<Rightarrow> (instant \<times> bytes \<times> payload_codec) list \<Rightarrow> gap_client \<Rightarrow>
      gap_client \<times> (gap_error + gap_accept_result) list" where
  "gap_accept_all cs e [] c = (c, [])"
| "gap_accept_all cs e ((now, pt, cd) # ps) c =
     (case gap_accept cs now pt e cd c of (c1, r) \<Rightarrow>
        case gap_accept_all cs e ps c1 of (c2, rs) \<Rightarrow> (c2, r # rs))"

lemma gap_sync_same:
  "ga_epoch c = Some e \<Longrightarrow>
     ga_in_hw (gap_sync_epoch now e c) = ga_in_hw c \<and> ga_epoch (gap_sync_epoch now e c) = Some e
     \<and> ga_out_rtp_seq (gap_sync_epoch now e c) = ga_out_rtp_seq c"
  by (simp add: gap_sync_epoch_def Let_def)

text \<open>The last number sent and received for a source in an epoch; a new epoch starts at 0.\<close>

definition rtp_sent :: "u64 \<Rightarrow> u32 \<Rightarrow> gap_client \<Rightarrow> u32" where
  "rtp_sent e src c = (if ga_epoch c = Some e then opt_or (ga_out_rtp_seq c src) 0 else 0)"

definition rtp_seen :: "u64 \<Rightarrow> u32 \<Rightarrow> gap_client \<Rightarrow> u32" where
  "rtp_seen e src c = (if ga_epoch c = Some e then opt_or (ga_in_hw c src) 0 else 0)"

lemma gap_sync_windows:
  "ga_epoch (gap_sync_epoch now e c) = Some e"
  "opt_or (ga_out_rtp_seq (gap_sync_epoch now e c) src) 0 = rtp_sent e src c"
  "opt_or (ga_in_hw (gap_sync_epoch now e c) src) 0 = rtp_seen e src c"
  by (auto simp: gap_sync_epoch_def Let_def rtp_sent_def rtp_seen_def split: option.splits)

lemma rtp_upd:
  "ga_epoch c = Some e \<Longrightarrow> rtp_sent e src (c\<lparr>ga_out_rtp_seq := m\<rparr>) = opt_or (m src) 0"
  "ga_epoch c = Some e \<Longrightarrow> rtp_seen e src (c\<lparr>ga_in_hw := m\<rparr>) = opt_or (m src) 0"
  by (simp_all add: rtp_sent_def rtp_seen_def)

lemma gap_accept_current:
  assumes "ga_epoch c = Some e" "gap_from_bytes cs pt cd = Inr p" "a_key_phase p = ucast e"
    "\<not> is_late (opt_or (ga_in_hw c (a_media_source_id p)) 0) (a_rtp_sequence p)"
  shows "snd (gap_accept cs now pt e cd c) = Inr (GapNew p)"
    and "ga_in_hw (fst (gap_accept cs now pt e cd c)) = (ga_in_hw c)(a_media_source_id p \<mapsto> a_rtp_sequence p)"
    and "ga_epoch (fst (gap_accept cs now pt e cd c)) = Some e"
  using assms gap_sync_same [OF assms(1), of now] by (simp_all add: gap_accept_def Let_def)

text \<open>The sequence numbers of the new frames of one source in the current epoch.\<close>

definition gap_news :: "u32 \<Rightarrow> u64 \<Rightarrow> (gap_error + gap_accept_result) list \<Rightarrow> u32 list" where
  "gap_news src e rs = concat (map (\<lambda>r. case r of
     Inr (GapNew p) \<Rightarrow> if a_media_source_id p = src \<and> a_key_phase p = ucast e then [a_rtp_sequence p] else []
   | _ \<Rightarrow> []) rs)"

lemma old_window_accept_key:
  "old_window_accept now p ws = Some (ws', r) \<Longrightarrow> r = GapNew p \<or> r = GapLate p"
  by (induction ws arbitrary: ws') (auto simp: Let_def split: if_splits)

lemma gap_accept_news:
  assumes "ga_epoch c = Some e" "gap_accept cs now pt e cd c = (c1, r)"
  shows "ga_epoch c1 = Some e
    \<and> (gap_news src e [r] = [] \<and> ga_in_hw c1 src = ga_in_hw c src
       \<or> (\<exists>sq. gap_news src e [r] = [sq] \<and> \<not> is_late (opt_or (ga_in_hw c src) 0) sq \<and> ga_in_hw c1 src = Some sq))"
proof (cases "gap_from_bytes cs pt cd")
  case (Inl err)
  then show ?thesis using assms gap_sync_same [OF assms(1), of now]
    by (auto simp: gap_accept_def Let_def gap_news_def)
next
  case (Inr p)
  show ?thesis
  proof (cases "a_key_phase p = ucast e")
    case True
    then show ?thesis using assms Inr gap_sync_same [OF assms(1), of now]
      by (auto simp: gap_accept_def Let_def gap_news_def split: if_splits)
  next
    case False
    then show ?thesis using assms Inr gap_sync_same [OF assms(1), of now]
      by (auto simp: gap_accept_def Let_def gap_news_def split: option.splits dest: old_window_accept_key)
  qed
qed

lemma gap_news_Cons: "gap_news src e (r # rs) = gap_news src e [r] @ gap_news src e rs"
  by (simp add: gap_news_def)

lemma gap_news_successive:
  assumes "ga_epoch c = Some e" "gap_accept_all cs e ps c = (c', rs)"
  shows "successively (\<lambda>a b. \<not> is_late a b) (opt_or (ga_in_hw c src) 0 # gap_news src e rs)"
  using assms
proof (induction ps arbitrary: c rs)
  case Nil
  then show ?case by (auto simp: gap_news_def)
next
  case (Cons q ps)
  obtain now pt cd where q: "q = (now, pt, cd)" by (cases q)
  obtain c1 r where a: "gap_accept cs now pt e cd c = (c1, r)" by force
  obtain rs' where rs': "gap_accept_all cs e ps c1 = (c', rs')" "rs = r # rs'"
    using Cons.prems(2) q a by (auto split: prod.splits)
  note step = gap_accept_news [OF Cons.prems(1) a, of src]
  have IH: "successively (\<lambda>a b. \<not> is_late a b) (opt_or (ga_in_hw c1 src) 0 # gap_news src e rs')"
    using Cons.IH [OF _ rs'(1)] step by simp
  show ?case using step IH rs'(2) gap_news_Cons [of src e r rs'] by auto
qed

text \<open>
  No audio frame is new twice before the wrap. Whatever payloads arrive in an epoch, in any
  order, codec or multiplicity, as long as the accepted numbers of a source stay below 0x8000, the
  frames reported as new for it have strictly increasing numbers; every other frame is late.
\<close>

theorem gap_news_increase:
  assumes "ga_epoch c = Some e" and "gap_accept_all cs e ps c = (c', rs)"
    and "opt_or (ga_in_hw c src) 0 \<le> 0x7FFF" and "\<forall>sq\<in>set (gap_news src e rs). sq \<le> 0x7FFF"
  shows "sorted_wrt (<) (opt_or (ga_in_hw c src) 0 # gap_news src e rs)"
proof -
  have "successively (<) xs" if "successively (\<lambda>a b. \<not> is_late a b) xs" "\<forall>x\<in>set xs. x \<le> 0x7FFF" for xs
    using that by (induction xs rule: induct_list012) (auto intro: not_late_small)
  from this [OF gap_news_successive [OF assms(1,2), of src]] assms(3,4)
  have "successively (<) (opt_or (ga_in_hw c src) 0 # gap_news src e rs)" by simp
  then show ?thesis by (subst (asm) successively_conv_sorted_wrt) (auto intro: transpI)
qed

theorem gap_news_increase_witness:
  "let c = gap_client_new\<lparr>ga_epoch := Some 6\<rparr>;
       p = (\<lambda>sq. opus_20ms 9 sq 6 [1]);
       rs = snd (gap_accept_all toy_gap_codecs 6
              (map (\<lambda>sq. (0, gap_to_bytes toy_gap_codecs (p sq) Cbor, Cbor)) [2, 5, 2, 5, 7]) c)
   in gap_news 9 6 rs = [2, 5, 7] \<and> sorted_wrt (<) (0 # gap_news 9 6 rs)"
proof -
  let ?c = "gap_client_new\<lparr>ga_epoch := Some 6\<rparr>"
  let ?ps = "map (\<lambda>sq. (0, gap_to_bytes toy_gap_codecs (opus_20ms 9 sq 6 [1]) Cbor, Cbor)) [2, 5, 2, 5, 7]"
  have ev: "gap_news 9 6 (snd (gap_accept_all toy_gap_codecs 6 ?ps ?c)) = [2, 5, 7]"
    by (simp add: gap_accept_def gap_sync_epoch_def Let_def gap_format.decode_encode gap_client_new_def
        opus_20ms_def is_late_def gap_news_def)
  obtain c' rs where rs: "gap_accept_all toy_gap_codecs 6 ?ps ?c = (c', rs)" by force
  have "sorted_wrt (<) (opt_or (ga_in_hw ?c 9) 0 # gap_news 9 6 rs)"
    by (rule gap_news_increase [OF _ rs]) (use rs ev in \<open>simp_all add: gap_client_new_def\<close>)
  then show ?thesis using rs ev by (simp add: Let_def gap_client_new_def)
qed

text \<open>
  Beyond the wrap the window forgets: once a stream has wrapped to a small number, a replayed
  frame from before the wrap (any number above the current one) is accepted as new again and sets the
  window back.
\<close>

theorem gap_replay_after_wrap:
  assumes "gap_codecs_ok cs" and "ga_epoch c = Some e" and "a_key_phase p = ucast e"
    and "opt_or (ga_in_hw c (a_media_source_id p)) 0 < a_rtp_sequence p"
  shows "snd (gap_accept cs now (gap_to_bytes cs p cd) e cd c) = Inr (GapNew p)
    \<and> ga_in_hw (fst (gap_accept cs now (gap_to_bytes cs p cd) e cd c)) (a_media_source_id p)
        = Some (a_rtp_sequence p)"
proof -
  have dec: "gap_from_bytes cs (gap_to_bytes cs p cd) cd = Inr p"
    by (rule gap_format.decode_encode [OF assms(1)]) simp
  have fresh: "\<not> is_late (opt_or (ga_in_hw c (a_media_source_id p)) 0) (a_rtp_sequence p)"
    using assms(4) by (auto simp: is_late_def)
  show ?thesis using gap_accept_current [OF assms(2) dec assms(3) fresh] by simp
qed

theorem gap_replay_after_wrap_witness:
  "let c = gap_client_new\<lparr>ga_epoch := Some 6, ga_in_hw := [9 \<mapsto> 0xFFFE]\<rparr>;
       stream = [opus_20ms 9 0xFFFF 6 [1], opus_20ms 9 0 6 [2]];
       c1 = fst (gap_accept_all toy_gap_codecs 6
              (map (\<lambda>p. (0, gap_to_bytes toy_gap_codecs p Cbor, Cbor)) stream) c)
   in snd (gap_accept toy_gap_codecs 1 (gap_to_bytes toy_gap_codecs (hd stream) Cbor) 6 Cbor c1)
        = Inr (GapNew (hd stream))"
proof -
  let ?c = "gap_client_new\<lparr>ga_epoch := Some 6, ga_in_hw := [9 \<mapsto> 0xFFFE]\<rparr>"
  let ?s = "[opus_20ms 9 0xFFFF 6 [1], opus_20ms 9 0 6 [2]]"
  let ?c1 = "fst (gap_accept_all toy_gap_codecs 6
              (map (\<lambda>p. (0, gap_to_bytes toy_gap_codecs p Cbor, Cbor)) ?s) ?c)"
  have "ga_epoch ?c1 = Some 6" "ga_in_hw ?c1 9 = Some 0"
    by (simp_all add: gap_accept_def gap_sync_epoch_def Let_def gap_format.decode_encode gap_client_new_def
        is_late_def opus_20ms_def)
  then show ?thesis
    using gap_replay_after_wrap [OF toy_gap_codecs_ok, of ?c1 6 "hd ?s" 1 Cbor]
    by (simp add: Let_def opus_20ms_def)
qed

subsection \<open>The overlap of epochs\<close>

lemma old_window_accept_append:
  "\<forall>w\<in>set ws. ow_epoch w \<noteq> ucast (a_key_phase p) \<Longrightarrow>
     old_window_accept now p (ws @ [w]) = map_option (\<lambda>(ws', r). (ws @ ws', r)) (old_window_accept now p [w])"
  by (induction ws) (auto simp: Let_def option.map_comp comp_def case_prod_beta)

lemma old_window_accept_None:
  "\<forall>w\<in>set ws. ow_epoch w = ucast (a_key_phase p) \<longrightarrow> ow_expires w \<le> now \<Longrightarrow> old_window_accept now p ws = None"
  by (induction ws) auto

lemma key_phase_epoch: "e < 2 ^ 32 \<Longrightarrow> (ucast (ucast (e :: u64) :: u32) :: u64) = e"
  by (simp add: word_unat_eq_iff unsigned_ucast_eq unsigned_take_bit_eq take_bit_nat_eq_self word_less_nat_alt)

lemma gap_sync_next:
  assumes "ga_epoch c = Some e" "e' \<noteq> e" "ga_in_hw c \<noteq> Map.empty"
  shows "ga_old_windows (gap_sync_epoch t e' c) = filter (\<lambda>w. t < ow_expires w) (ga_old_windows c)
      @ [\<lparr>ow_epoch = e, ow_in_hw = ga_in_hw c, ow_expires = t + T_GAP_KEY_OVERLAP_MS\<rparr>]"
    and "ga_epoch (gap_sync_epoch t e' c) = Some e'"
    and "ga_in_hw (gap_sync_epoch t e' c) = Map.empty"
  using assms by (simp_all add: gap_sync_epoch_def Let_def)

lemma gap_sync_prune:
  "ga_epoch c = Some e \<Longrightarrow>
     gap_sync_epoch t e c = c\<lparr>ga_old_windows := filter (\<lambda>w. t < ow_expires w) (ga_old_windows c)\<rparr>"
  by (simp add: gap_sync_epoch_def Let_def)

text \<open>
  Frames of the previous epoch are accepted exactly during the overlap. After a client that has
  received audio in an epoch moves to the next one at time \<open>t\<close>, a frame of the old epoch that arrives
  within \<^verbatim>\<open>T_GAP_KEY_OVERLAP_MS\<close> is judged by the old epoch's own window, and one that arrives later is
  refused as stale; the new epoch starts with empty windows.
\<close>

theorem gap_overlap:
  assumes "gap_codecs_ok cs" and "ga_epoch c = Some e" and "e < 2 ^ 32" and "ga_in_hw c \<noteq> Map.empty"
    and "(ucast e :: u32) \<noteq> ucast e'" and "\<forall>w\<in>set (ga_old_windows c). ow_epoch w \<noteq> e"
    and "a_key_phase p = ucast e"
  shows "ga_in_hw (gap_sync_epoch t e' c) = Map.empty
    \<and> snd (gap_accept cs t' (gap_to_bytes cs p cd) e' cd (gap_sync_epoch t e' c)) =
        (if t' < t + T_GAP_KEY_OVERLAP_MS
         then Inr (if is_late (opt_or (ga_in_hw c (a_media_source_id p)) 0) (a_rtp_sequence p)
                   then GapLate p else GapNew p)
         else Inl (EpochStale (a_key_phase p) (ucast e')))"
proof -
  let ?c1 = "gap_sync_epoch t e' c"
  let ?w = "\<lparr>ow_epoch = e, ow_in_hw = ga_in_hw c, ow_expires = t + T_GAP_KEY_OVERLAP_MS\<rparr>"
  have ne: "e' \<noteq> e" using assms(5) by auto
  note c1 = gap_sync_next [OF assms(2) ne assms(4), of t]
  have dec: "gap_from_bytes cs (gap_to_bytes cs p cd) cd = Inr p"
    by (rule gap_format.decode_encode [OF assms(1)]) simp
  let ?old = "filter (\<lambda>w. t' < ow_expires w) (filter (\<lambda>w. t < ow_expires w) (ga_old_windows c))"
  have key: "ucast (a_key_phase p) = e" using assms(3,7) by (simp add: key_phase_epoch)
  have none: "\<forall>w\<in>set ?old. ow_epoch w \<noteq> ucast (a_key_phase p)" using assms(6) key by auto
  have acc: "snd (gap_accept cs t' (gap_to_bytes cs p cd) e' cd ?c1) =
      (case old_window_accept t' p (ga_old_windows (gap_sync_epoch t' e' ?c1)) of
         Some (ws, r) \<Rightarrow> Inr r | None \<Rightarrow> Inl (EpochStale (a_key_phase p) (ucast e')))"
    using dec assms(5,7) by (simp add: gap_accept_def Let_def split: option.split)
  show ?thesis
  proof (cases "t' < t + T_GAP_KEY_OVERLAP_MS")
    case True
    then have "ga_old_windows (gap_sync_epoch t' e' ?c1) = ?old @ [?w]"
      using c1 by (simp add: gap_sync_prune)
    then show ?thesis using acc True key c1(3) old_window_accept_append [OF none, of t' ?w]
      by (simp add: Let_def)
  next
    case False
    then have "ga_old_windows (gap_sync_epoch t' e' ?c1) = ?old" using c1 by (simp add: gap_sync_prune)
    moreover have "old_window_accept t' p ?old = None"
      using none by (intro old_window_accept_None) auto
    ultimately show ?thesis using acc False c1(3) by simp
  qed
qed

theorem gap_overlap_witness:
  "let c = gap_client_new\<lparr>ga_epoch := Some 6, ga_in_hw := [9 \<mapsto> 3]\<rparr>; c1 = gap_sync_epoch 100 7 c;
       p = opus_20ms 9 4 6 [1]
   in snd (gap_accept toy_gap_codecs 200 (gap_to_bytes toy_gap_codecs p Cbor) 7 Cbor c1) = Inr (GapNew p)
      \<and> snd (gap_accept toy_gap_codecs 10100 (gap_to_bytes toy_gap_codecs p Cbor) 7 Cbor c1) = Inl (EpochStale 6 7)"
proof -
  have 1: "gap_codecs_ok toy_gap_codecs" by simp
  let ?c = "gap_client_new\<lparr>ga_epoch := Some 6, ga_in_hw := [9 \<mapsto> 3]\<rparr>"
  have 2: "ga_in_hw ?c \<noteq> Map.empty" by simp
  from gap_overlap [OF 1 _ _ 2, of 6 7 "opus_20ms 9 4 6 [1]" 100 200 Cbor]
    gap_overlap [OF 1 _ _ 2, of 6 7 "opus_20ms 9 4 6 [1]" 100 10100 Cbor]
  show ?thesis by (simp add: Let_def gap_client_new_def opus_20ms_def is_late_def)
qed

end
