(* ===== verification/Gbp_Transport.thy ===== *)
theory Gbp_Transport
  imports Gbp_Frame Gbp_Instances
begin

section \<open>Transport framing (\<^verbatim>\<open>gbp-transport\<close>)\<close>

text \<open>
  The length-prefixed framing of \<^verbatim>\<open>crates/gbp/transport/src\<close> over TCP (\<^verbatim>\<open>lib.rs\<close>) and QUIC
  (\<^verbatim>\<open>quic.rs\<close>). The sockets are not part of the repository. The sending half of a connection is the
  bytes it has taken and the number of bytes it will still take before it breaks with an error; the
  receiving half is the bytes that will still arrive before the end of the stream. \<^verbatim>\<open>write_all\<close> and
  \<^verbatim>\<open>read_exact\<close> behave as documented: a broken sink has taken a prefix, a short source is an error.
  \<^verbatim>\<open>flush\<close> has no effect on these.
\<close>

definition MAX_FRAME :: nat where
  "MAX_FRAME = 2 ^ 20"

datatype wire_error = Io string | Codec codec_error | TooLarge nat nat | Quic string

fun wire_error_display :: "wire_error \<Rightarrow> string" where
  "wire_error_display (Io e) = ''io: '' @ e"
| "wire_error_display (Codec e) = ''codec: '' @ codec_error_display e"
| "wire_error_display (TooLarge n m) =
     ''frame too large: '' @ dec_nat n @ '' bytes (max '' @ dec_nat m @ '')''"
| "wire_error_display (Quic e) = ''quic: '' @ e"

definition too_large :: "nat \<Rightarrow> wire_error" where
  "too_large n = TooLarge n MAX_FRAME"

record sink =
  sk_taken :: bytes
  sk_room :: nat
  sk_error :: string

definition write_all :: "bytes \<Rightarrow> sink \<Rightarrow> sink \<times> (string + unit)" where
  "write_all d s =
     (if length d \<le> sk_room s
      then (s\<lparr>sk_taken := sk_taken s @ d, sk_room := sk_room s - length d\<rparr>, Inr ())
      else (s\<lparr>sk_taken := sk_taken s @ take (sk_room s) d, sk_room := 0\<rparr>, Inl (sk_error s)))"

definition read_exact :: "nat \<Rightarrow> bytes \<Rightarrow> bytes \<times> (string + bytes)" where
  "read_exact n src =
     (if length src < n then ([], Inl ''early eof'') else (drop n src, Inr (take n src)))"

subsection \<open>TCP\<close>

definition write_blob :: "bytes \<Rightarrow> sink \<Rightarrow> sink \<times> (wire_error + unit)" where
  "write_blob data s =
     (if length data > MAX_FRAME then (s, Inl (too_large (length data)))
      else let len = le_bytes32 (word_of_nat (length data)) in
        case write_all len s of (s1, Inl e) \<Rightarrow> (s1, Inl (Io e))
        | (s1, Inr _) \<Rightarrow>
          (case write_all data s1 of (s2, Inl e) \<Rightarrow> (s2, Inl (Io e)) | (s2, Inr _) \<Rightarrow> (s2, Inr ())))"

definition read_blob :: "bytes \<Rightarrow> bytes \<times> (wire_error + bytes)" where
  "read_blob src =
     (case read_exact 4 src of (s1, Inl e) \<Rightarrow> (s1, Inl (Io e))
      | (s1, Inr len_buf) \<Rightarrow>
        (let len = unat (from_le_bytes32 (len_buf ! 0) (len_buf ! 1) (len_buf ! 2) (len_buf ! 3)) in
         if len > MAX_FRAME then (s1, Inl (too_large len))
         else case read_exact len s1 of (s2, Inl e) \<Rightarrow> (s2, Inl (Io e)) | (s2, Inr buf) \<Rightarrow> (s2, Inr buf)))"

definition write_frame :: "gbp_frame serialiser \<Rightarrow> gbp_frame \<Rightarrow> sink \<Rightarrow> sink \<times> (wire_error + unit)" where
  "write_frame fc f s = write_blob (frame_to_cbor fc f) s"

definition read_frame :: "gbp_frame serialiser \<Rightarrow> bytes \<Rightarrow> bytes \<times> (wire_error + gbp_frame)" where
  "read_frame fc src =
     (case read_blob src of (s1, Inl e) \<Rightarrow> (s1, Inl e)
      | (s1, Inr buf) \<Rightarrow>
        (case frame_from_cbor fc buf of Inl e \<Rightarrow> (s1, Inl (Codec e)) | Inr f \<Rightarrow> (s1, Inr f)))"

subsection \<open>QUIC\<close>

record quic_stream =
  qs_send :: sink
  qs_recv :: bytes

definition quic_write_blob :: "bytes \<Rightarrow> quic_stream \<Rightarrow> quic_stream \<times> (wire_error + unit)" where
  "quic_write_blob data q =
     (if length data > MAX_FRAME then (q, Inl (TooLarge (length data) MAX_FRAME))
      else let len = le_bytes32 (word_of_nat (length data)) in
        case write_all len (qs_send q) of (s1, Inl e) \<Rightarrow> (q\<lparr>qs_send := s1\<rparr>, Inl (Quic e))
        | (s1, Inr _) \<Rightarrow>
          (case write_all data s1 of (s2, Inl e) \<Rightarrow> (q\<lparr>qs_send := s2\<rparr>, Inl (Quic e))
           | (s2, Inr _) \<Rightarrow> (q\<lparr>qs_send := s2\<rparr>, Inr ())))"

definition quic_read_blob :: "quic_stream \<Rightarrow> quic_stream \<times> (wire_error + bytes)" where
  "quic_read_blob q =
     (case read_exact 4 (qs_recv q) of (s1, Inl e) \<Rightarrow> (q\<lparr>qs_recv := s1\<rparr>, Inl (Quic e))
      | (s1, Inr len_buf) \<Rightarrow>
        (let len = unat (from_le_bytes32 (len_buf ! 0) (len_buf ! 1) (len_buf ! 2) (len_buf ! 3)) in
         if len > MAX_FRAME then (q\<lparr>qs_recv := s1\<rparr>, Inl (TooLarge len MAX_FRAME))
         else case read_exact len s1 of (s2, Inl e) \<Rightarrow> (q\<lparr>qs_recv := s2\<rparr>, Inl (Quic e))
           | (s2, Inr buf) \<Rightarrow> (q\<lparr>qs_recv := s2\<rparr>, Inr buf)))"

definition quic_write_frame ::
    "gbp_frame serialiser \<Rightarrow> gbp_frame \<Rightarrow> quic_stream \<Rightarrow> quic_stream \<times> (wire_error + unit)" where
  "quic_write_frame fc f q = quic_write_blob (frame_to_cbor fc f) q"

definition quic_read_frame ::
    "gbp_frame serialiser \<Rightarrow> quic_stream \<Rightarrow> quic_stream \<times> (wire_error + gbp_frame)" where
  "quic_read_frame fc q =
     (case quic_read_blob q of (q1, Inl e) \<Rightarrow> (q1, Inl e)
      | (q1, Inr buf) \<Rightarrow>
        (case frame_from_cbor fc buf of Inl e \<Rightarrow> (q1, Inl (Codec e)) | Inr f \<Rightarrow> (q1, Inr f)))"

subsection \<open>The two transports as one framing\<close>

text \<open>What a write puts on the wire, and a read as a parser of the bytes that arrive.\<close>

definition blob_reader :: "bytes \<Rightarrow> wire_error + bytes \<times> bytes" where
  "blob_reader src = (case read_blob src of (r, Inl e) \<Rightarrow> Inl e | (r, Inr p) \<Rightarrow> Inr (p, r))"

definition quic_blob_reader :: "bytes \<Rightarrow> wire_error + bytes \<times> bytes" where
  "quic_blob_reader src =
     (case quic_read_blob \<lparr>qs_send = \<lparr>sk_taken = [], sk_room = 0, sk_error = []\<rparr>, qs_recv = src\<rparr> of
        (q, Inl e) \<Rightarrow> Inl e | (q, Inr p) \<Rightarrow> Inr (p, qs_recv q))"

definition blob_fits :: "bytes \<Rightarrow> bool" where
  "blob_fits p \<longleftrightarrow> length p \<le> MAX_FRAME"

lemma blob_fits_unat: "blob_fits p \<Longrightarrow> unat (word_of_nat (length p) :: u32) = length p"
proof -
  assume "blob_fits p"
  then have "length p < 2 ^ 32" by (simp add: blob_fits_def MAX_FRAME_def)
  then show ?thesis by (rule unat_word_of_nat32)
qed

lemma write_blob_room:
  assumes "blob_fits p" "length p + 4 \<le> sk_room s"
  shows "write_blob p s = (s\<lparr>sk_taken := sk_taken s @ put_section p, sk_room := sk_room s - (length p + 4)\<rparr>, Inr ())"
  using assms by (simp add: write_blob_def blob_fits_def write_all_def put_section_def Let_def)

text \<open>The two implementations differ in the error constructor for a broken connection only.\<close>

fun as_quic :: "wire_error + 'a \<Rightarrow> wire_error + 'a" where
  "as_quic (Inl (Io e)) = Inl (Quic e)"
| "as_quic r = r"

lemma quic_write_blob_tcp:
  "quic_write_blob p q = (case write_blob p (qs_send q) of (s, r) \<Rightarrow> (q\<lparr>qs_send := s\<rparr>, as_quic r))"
  by (simp add: quic_write_blob_def write_blob_def too_large_def Let_def split: prod.splits sum.splits)

lemma quic_read_blob_tcp:
  "quic_read_blob q = (case read_blob (qs_recv q) of (s, r) \<Rightarrow> (q\<lparr>qs_recv := s\<rparr>, as_quic r))"
  by (simp add: quic_read_blob_def read_blob_def too_large_def Let_def split: prod.splits sum.splits)

lemma blob_reader_rd:
  "blob_reader src =
     (case rd_le32 src of None \<Rightarrow> Inl (Io ''early eof'')
      | Some (w, r) \<Rightarrow>
        if MAX_FRAME < unat w then Inl (too_large (unat w))
        else if length r < unat w then Inl (Io ''early eof'') else Inr (take (unat w) r, drop (unat w) r))"
proof (cases "length src < 4")
  case True
  then have "rd_le32 src = None" by (simp add: rd_le32_None)
  then show ?thesis using True by (simp add: blob_reader_def read_blob_def read_exact_def)
next
  case False
  then have "rd_le32 src \<noteq> None" by (simp add: rd_le32_None)
  then obtain a b c d r where src: "src = a # b # c # d # r"
    by (auto simp: rd_le32_def split: list.splits)
  show ?thesis
    by (simp add: src blob_reader_def read_blob_def read_exact_def rd_le32_def Let_def)
qed

interpretation tcp_framing: blob_framing put_section blob_reader blob_fits
proof
  fix p r assume fits: "blob_fits p"
  then show "blob_reader (put_section p @ r) = Inr (p, r)"
    by (simp add: blob_reader_rd blob_fits_unat) (simp add: blob_fits_def)
next
  fix p n assume fits: "blob_fits p" and n: "n < length (put_section p)"
  show "\<exists>e. blob_reader (take n (put_section p)) = Inl e"
  proof (cases "4 \<le> n")
    case True
    then show ?thesis
      using n less_diff_conv2 [of 4 n "length p"]
      by (simp add: blob_reader_rd rd_le32_take_put_section blob_fits_unat fits)
  next
    case False
    then have "rd_le32 (take n (put_section p)) = None" by (simp add: rd_le32_None)
    then show ?thesis by (simp add: blob_reader_rd)
  qed
qed

lemma quic_blob_reader_tcp: "quic_blob_reader src = as_quic (blob_reader src)"
proof -
  obtain r res where r: "read_blob src = (r, res)" by force
  show ?thesis
  proof (cases res)
    case (Inl e)
    then show ?thesis by (cases e) (simp_all add: quic_blob_reader_def blob_reader_def quic_read_blob_tcp r)
  qed (simp add: quic_blob_reader_def blob_reader_def quic_read_blob_tcp r)
qed

interpretation quic_framing: blob_framing put_section quic_blob_reader blob_fits
proof
  fix p r assume "blob_fits p"
  then show "quic_blob_reader (put_section p @ r) = Inr (p, r)"
    by (simp add: quic_blob_reader_tcp tcp_framing.get_put)
next
  fix p n assume "blob_fits p" "n < length (put_section p)"
  from tcp_framing.get_truncated [OF this]
  obtain e where e: "blob_reader (take n (put_section p)) = Inl e" by blast
  then show "\<exists>e. quic_blob_reader (take n (put_section p)) = Inl e"
    by (cases e) (simp_all add: quic_blob_reader_tcp)
qed

subsection \<open>Frames over a connection\<close>

fun write_frames :: "gbp_frame serialiser \<Rightarrow> gbp_frame list \<Rightarrow> sink \<Rightarrow> sink \<times> (wire_error + unit)" where
  "write_frames fc [] s = (s, Inr ())"
| "write_frames fc (f # fs) s =
     (case write_frame fc f s of (s1, Inl e) \<Rightarrow> (s1, Inl e) | (s1, Inr _) \<Rightarrow> write_frames fc fs s1)"

fun read_frames :: "gbp_frame serialiser \<Rightarrow> nat \<Rightarrow> bytes \<Rightarrow> bytes \<times> (wire_error + gbp_frame list)" where
  "read_frames fc 0 src = (src, Inr [])"
| "read_frames fc (Suc n) src =
     (case read_frame fc src of (s1, Inl e) \<Rightarrow> (s1, Inl e)
      | (s1, Inr f) \<Rightarrow>
        (case read_frames fc n s1 of (s2, Inl e) \<Rightarrow> (s2, Inl e) | (s2, Inr fs) \<Rightarrow> (s2, Inr (f # fs))))"

fun quic_read_frames ::
    "gbp_frame serialiser \<Rightarrow> nat \<Rightarrow> quic_stream \<Rightarrow> quic_stream \<times> (wire_error + gbp_frame list)" where
  "quic_read_frames fc 0 q = (q, Inr [])"
| "quic_read_frames fc (Suc n) q =
     (case quic_read_frame fc q of (q1, Inl e) \<Rightarrow> (q1, Inl e)
      | (q1, Inr f) \<Rightarrow>
        (case quic_read_frames fc n q1 of (q2, Inl e) \<Rightarrow> (q2, Inl e) | (q2, Inr fs) \<Rightarrow> (q2, Inr (f # fs))))"

fun quic_write_frames ::
    "gbp_frame serialiser \<Rightarrow> gbp_frame list \<Rightarrow> quic_stream \<Rightarrow> quic_stream \<times> (wire_error + unit)" where
  "quic_write_frames fc [] q = (q, Inr ())"
| "quic_write_frames fc (f # fs) q =
     (case quic_write_frame fc f q of (q1, Inl e) \<Rightarrow> (q1, Inl e) | (q1, Inr _) \<Rightarrow> quic_write_frames fc fs q1)"

definition frame_fits :: "gbp_frame serialiser \<Rightarrow> gbp_frame \<Rightarrow> bool" where
  "frame_fits fc f \<longleftrightarrow> blob_fits (frame_to_cbor fc f) \<and> unat (f_payload_size f) = length (f_encrypted_payload f)"

definition wire_of :: "gbp_frame serialiser \<Rightarrow> gbp_frame list \<Rightarrow> bytes" where
  "wire_of fc fs = concat (map (\<lambda>f. put_section (frame_to_cbor fc f)) fs)"

lemma wire_of_simps [simp]:
  "wire_of fc [] = []" "wire_of fc (f # fs) = put_section (frame_to_cbor fc f) @ wire_of fc fs"
  by (simp_all add: wire_of_def)

lemma frame_read_back:
  "reads_back fc \<Longrightarrow> frame_fits fc f \<Longrightarrow> frame_from_cbor fc (frame_to_cbor fc f) = Inr f"
  by (simp add: frame_fits_def frame_len.round_trip)

lemma read_blob_reader: "read_blob src = (r, Inr p) \<longleftrightarrow> blob_reader src = Inr (p, r)"
  by (auto simp: blob_reader_def split: prod.splits sum.splits)

lemma read_frame_put:
  assumes "reads_back fc" "frame_fits fc f"
  shows "read_frame fc (put_section (frame_to_cbor fc f) @ r) = (r, Inr f)"
proof -
  have "read_blob (put_section (frame_to_cbor fc f) @ r) = (r, Inr (frame_to_cbor fc f))"
    using assms(2) by (simp add: read_blob_reader tcp_framing.get_put frame_fits_def)
  then show ?thesis using frame_read_back [OF assms] by (simp add: read_frame_def)
qed

lemma read_frame_cut:
  assumes "frame_fits fc f" "k < length (put_section (frame_to_cbor fc f))"
  shows "\<exists>r e. read_frame fc (take k (put_section (frame_to_cbor fc f))) = (r, Inl e)"
proof -
  obtain e where "blob_reader (take k (put_section (frame_to_cbor fc f))) = Inl e"
    using tcp_framing.get_truncated assms by (force simp: frame_fits_def)
  then show ?thesis
    by (auto simp: blob_reader_def read_frame_def split: prod.splits sum.splits)
qed

lemma write_frames_room:
  assumes "\<forall>f\<in>set fs. frame_fits fc f" "length (wire_of fc fs) \<le> sk_room s"
  shows "write_frames fc fs s =
    (s\<lparr>sk_taken := sk_taken s @ wire_of fc fs, sk_room := sk_room s - length (wire_of fc fs)\<rparr>, Inr ())"
  using assms
proof (induction fs arbitrary: s)
  case (Cons f fs)
  have "blob_fits (frame_to_cbor fc f)" using Cons.prems(1) by (simp add: frame_fits_def)
  then show ?case using Cons by (simp add: write_frame_def write_blob_room)
qed simp

lemma read_frames_wire:
  "reads_back fc \<Longrightarrow> \<forall>f\<in>set fs. frame_fits fc f \<Longrightarrow> read_frames fc (length fs) (wire_of fc fs @ r) = (r, Inr fs)"
  by (induction fs) (simp_all add: read_frame_put)

lemma quic_read_frame_tcp:
  "quic_read_frame fc q = (case read_frame fc (qs_recv q) of (s, r) \<Rightarrow> (q\<lparr>qs_recv := s\<rparr>, as_quic r))"
proof -
  obtain s r where r: "read_blob (qs_recv q) = (s, r)" by force
  show ?thesis
  proof (cases r)
    case (Inl e)
    then show ?thesis by (cases e) (simp_all add: quic_read_frame_def read_frame_def quic_read_blob_tcp r)
  qed (simp add: quic_read_frame_def read_frame_def quic_read_blob_tcp r split: sum.splits)
qed

lemma quic_read_frames_tcp:
  "read_frames fc n (qs_recv q) = (r, Inr fs) \<Longrightarrow> quic_read_frames fc n q = (q\<lparr>qs_recv := r\<rparr>, Inr fs)"
proof (induction n arbitrary: q fs)
  case (Suc n)
  obtain s1 f gs where s: "read_frame fc (qs_recv q) = (s1, Inr f)" "read_frames fc n s1 = (r, Inr gs)" "fs = f # gs"
    using Suc.prems by (auto split: prod.splits sum.splits)
  then show ?case using Suc.IH [of "q\<lparr>qs_recv := s1\<rparr>" gs] by (simp add: quic_read_frame_tcp)
qed simp

lemma quic_write_frame_tcp:
  "quic_write_frame fc f q = (case write_frame fc f (qs_send q) of (s, r) \<Rightarrow> (q\<lparr>qs_send := s\<rparr>, as_quic r))"
  by (simp add: quic_write_frame_def write_frame_def quic_write_blob_tcp)

lemma quic_write_frames_tcp:
  "write_frames fc fs (qs_send q) = (s, Inr ()) \<Longrightarrow> quic_write_frames fc fs q = (q\<lparr>qs_send := s\<rparr>, Inr ())"
proof (induction fs arbitrary: q)
  case (Cons f fs)
  obtain s1 where s1: "write_frame fc f (qs_send q) = (s1, Inr ())" "write_frames fc fs s1 = (s, Inr ())"
    using Cons.prems by (auto split: prod.splits sum.splits)
  then show ?case using Cons.IH [of "q\<lparr>qs_send := s1\<rparr>"] by (simp add: quic_write_frame_tcp)
qed simp

text \<open>
  C34. The two transports interoperate. A sequence of well-formed frames written with \<^verbatim>\<open>write_frame\<close> to a TCP connection and with
  \<^verbatim>\<open>QuicStream::write_frame\<close> to a QUIC stream, with room on both, is sent completely and as the same bytes; and a reader on
  either transport that gets these bytes reads exactly those frames in order, leaving what follows them unread.
\<close>

theorem transports_interoperate:
  assumes "reads_back fc" and "\<forall>f\<in>set fs. frame_fits fc f"
    and "length (wire_of fc fs) \<le> sk_room s" and "sk_taken s = []"
    and "length (wire_of fc fs) \<le> sk_room (qs_send q)" and "sk_taken (qs_send q) = []"
    and "write_frames fc fs s = (s', res)" and "quic_write_frames fc fs q = (q', qres)"
  shows "res = Inr () \<and> qres = Inr () \<and> sk_taken (qs_send q') = sk_taken s'
    \<and> read_frames fc (length fs) (sk_taken s' @ later) = (later, Inr fs)
    \<and> quic_read_frames fc (length fs) (p\<lparr>qs_recv := sk_taken s' @ later\<rparr>) = (p\<lparr>qs_recv := later\<rparr>, Inr fs)"
proof -
  have s': "res = Inr ()" "sk_taken s' = wire_of fc fs"
    using write_frames_room [OF assms(2,3)] assms(4,7) by auto
  have q': "qres = Inr ()" "sk_taken (qs_send q') = wire_of fc fs"
    using quic_write_frames_tcp [OF write_frames_room [OF assms(2,5)]] assms(6,8) by auto
  have rd: "read_frames fc (length fs) (sk_taken s' @ later) = (later, Inr fs)"
    using read_frames_wire [OF assms(1,2)] s'(2) by simp
  then show ?thesis
    using s' q' quic_read_frames_tcp [of fc "length fs" "p\<lparr>qs_recv := sk_taken s' @ later\<rparr>" later fs] by simp
qed

definition toy_wire_frame :: "u32 \<Rightarrow> bytes \<Rightarrow> gbp_frame" where
  "toy_wire_frame n p = frame_new (replicate 16 0) 1 0 Text 1 7 n p 0"

lemma toy_wire_frame_fits: "length p \<le> 100 \<Longrightarrow> frame_fits toy_frame_codec (toy_wire_frame n p)"
  by (simp add: frame_fits_def blob_fits_def MAX_FRAME_def toy_wire_frame_def frame_new_def frame_to_cbor_def
      toy_frame_codec_def field_codec_def put_fields_def bits_of_def)

theorem transports_interoperate_witness:
  "\<exists>s' q'. write_frames toy_frame_codec [toy_wire_frame 1 [5], toy_wire_frame 2 []]
       \<lparr>sk_taken = [], sk_room = 5000, sk_error = ''reset''\<rparr> = (s', Inr ())
     \<and> quic_write_frames toy_frame_codec [toy_wire_frame 1 [5], toy_wire_frame 2 []]
       \<lparr>qs_send = \<lparr>sk_taken = [], sk_room = 6000, sk_error = ''reset''\<rparr>, qs_recv = [3]\<rparr> = (q', Inr ())
     \<and> sk_taken (qs_send q') = sk_taken s'
     \<and> read_frames toy_frame_codec 2 (sk_taken s' @ [9]) = ([9], Inr [toy_wire_frame 1 [5], toy_wire_frame 2 []])"
proof -
  let ?fs = "[toy_wire_frame 1 [5], toy_wire_frame 2 []]" and ?s = "\<lparr>sk_taken = [], sk_room = 5000, sk_error = ''reset''\<rparr>"
  let ?q = "\<lparr>qs_send = \<lparr>sk_taken = [], sk_room = 6000, sk_error = ''reset''\<rparr>, qs_recv = [3]\<rparr>"
  obtain s' res where w: "write_frames toy_frame_codec ?fs ?s = (s', res)" by force
  obtain q' qres where qw: "quic_write_frames toy_frame_codec ?fs ?q = (q', qres)" by force
  have "length (wire_of toy_frame_codec ?fs) \<le> 5000" "length (wire_of toy_frame_codec ?fs) \<le> 6000"
    by (simp_all add: toy_wire_frame_def frame_new_def frame_to_cbor_def toy_frame_codec_def field_codec_def
        put_fields_def bits_of_def)
  then show ?thesis
    using transports_interoperate [OF _ _ _ _ _ _ w qw] w qw toy_wire_frame_fits by (simp add: eval_nat_numeral)
qed

text \<open>
  A connection that breaks delivers a prefix. Let \<open>k\<close> bytes of the encoded frames arrive before the end
  of the stream, wherever that cuts them. Reading \<open>n\<close> frames then succeeds exactly when there are that many
  and their encodings are among those bytes, and returns the first \<open>n\<close> frames sent; a frame that is cut
  is reported as an error, never as a frame.
\<close>

theorem cut_stream_yields_prefix:
  assumes "reads_back fc" and "\<forall>f\<in>set fs. frame_fits fc f"
  shows "case snd (read_frames fc n (take k (wire_of fc fs))) of
      Inr gs \<Rightarrow> gs = take n fs \<and> n \<le> length fs \<and> length (wire_of fc (take n fs)) \<le> k
    | Inl e \<Rightarrow> length fs < n \<or> k < length (wire_of fc (take n fs))"
  using assms(2)
proof (induction n arbitrary: fs k)
  case (Suc n)
  show ?case
  proof (cases fs)
    case Nil
    then show ?thesis by (simp add: read_frame_def read_blob_def read_exact_def)
  next
    case (Cons f fs')
    let ?p = "put_section (frame_to_cbor fc f)"
    have fits: "frame_fits fc f" "\<forall>f\<in>set fs'. frame_fits fc f" using Suc.prems(1) Cons by simp_all
    show ?thesis
    proof (cases "k < length ?p")
      case True
      then have "take k (wire_of fc fs) = take k ?p" using Cons by simp
      moreover have "\<exists>r e. read_frame fc (take k ?p) = (r, Inl e)"
        by (rule read_frame_cut [OF fits(1) True])
      ultimately show ?thesis using True Cons by auto
    next
      case False
      then have "take k (wire_of fc fs) = ?p @ take (k - length ?p) (wire_of fc fs')" using Cons by simp
      then have "read_frame fc (take k (wire_of fc fs)) = (take (k - length ?p) (wire_of fc fs'), Inr f)"
        using read_frame_put [OF assms(1) fits(1)] by simp
      then show ?thesis using Suc.IH [OF fits(2), of "k - length ?p"] Cons False
        by (auto split: prod.splits sum.splits)
    qed
  qed
qed simp

theorem cut_stream_yields_prefix_witness:
  "\<exists>e. snd (read_frames toy_frame_codec 2
       (take 15 (wire_of toy_frame_codec [toy_wire_frame 1 [5], toy_wire_frame 2 []]))) = Inl e"
proof -
  have "15 < length (wire_of toy_frame_codec (take 2 [toy_wire_frame 1 [5], toy_wire_frame 2 []]))"
    by (simp add: put_section_def le_bytes32_def toy_wire_frame_def frame_new_def frame_to_cbor_def
        toy_frame_codec_def field_codec_def put_fields_def bits_of_def)
  then show ?thesis
    using cut_stream_yields_prefix [of toy_frame_codec "[toy_wire_frame 1 [5], toy_wire_frame 2 []]" 2 15]
      toy_wire_frame_fits by (auto split: sum.splits)
qed

text \<open>Reading is exact: it inverts the framing and accepts nothing else.\<close>

lemma le_bytes32_from: "le_bytes32 (from_le_bytes32 a b c d) = [a, b, c, d]"
  unfolding le_bytes32_def from_le_bytes32_def list.inject
  by (intro conjI refl; rule octet_eqI; simp add: bit_simps)

lemma rd_le32_Some: "rd_le32 src = Some (w, r) \<longleftrightarrow> src = le_bytes32 w @ r"
proof
  assume "rd_le32 src = Some (w, r)"
  then show "src = le_bytes32 w @ r"
    by (auto simp: rd_le32_def le_bytes32_from split: list.splits)
qed simp

text \<open>
  C35. The reader accepts exactly the framing, within the size limit: \<^verbatim>\<open>read_blob\<close> returns \<open>p\<close> and leaves \<open>r\<close>
  unread if and only if the stream begins with the framed \<open>p\<close>, continues with \<open>r\<close>, and \<open>p\<close> is at most
  \<^verbatim>\<open>MAX_FRAME\<close> bytes; and a blob above the limit is refused by the writer before anything is sent.
\<close>

theorem read_blob_exact:
  "(read_blob src = (r, Inr p) \<longleftrightarrow> length p \<le> MAX_FRAME \<and> src = put_section p @ r)
   \<and> (length p \<le> MAX_FRAME \<or> write_blob p s = (s, Inl (TooLarge (length p) MAX_FRAME)))"
proof -
  have "read_blob src = (r, Inr p) \<Longrightarrow> length p \<le> MAX_FRAME \<and> src = put_section p @ r"
  proof -
    assume "read_blob src = (r, Inr p)"
    then obtain w t where w: "rd_le32 src = Some (w, t)" "unat w \<le> MAX_FRAME" "unat w \<le> length t"
      "p = take (unat w) t" "r = drop (unat w) t"
      by (auto simp: read_blob_reader blob_reader_rd split: option.splits if_splits)
    then have "length p = unat w" by simp
    then show ?thesis using w by (simp add: rd_le32_Some put_section_def word_of_nat_unat)
  qed
  moreover have "length p \<le> MAX_FRAME \<Longrightarrow> read_blob (put_section p @ r) = (r, Inr p)"
    by (simp add: read_blob_reader tcp_framing.get_put blob_fits_def)
  ultimately show ?thesis by (auto simp: write_blob_def too_large_def)
qed

end
