(* ===== verification/Gbp_Stack.thy ===== *)
theory Gbp_Stack
  imports Gbp_Node_Control Gtp_Client Gsp_Client Gap_Client Gbp_Transport
begin

section \<open>The stack put together (\<^verbatim>\<open>gbp-stack\<close>)\<close>

text \<open>
  Sub-protocol client, node, MLS sealer and transport composed the way an application composes them: a
  client's \<^verbatim>\<open>send\<close> runs through the sender's node and MLS context to a frame, the frame crosses a
  connection, the receiver's \<^verbatim>\<open>on_wire\<close> delivers an event, and the receiving client accepts its payload.
\<close>

text \<open>
  Members whose MLS groups export the same secret for a stream open what the others seal; ciphertexts are
  assumed to be produced and to be below 4 GiB.
\<close>

definition same_stream_key ::
    "('g, 'sg, 'st, 'kp, 'm, 'w) openmls \<Rightarrow> stream_type \<Rightarrow> ('g, 'sg, 'st) mls_context \<Rightarrow> ('g, 'sg, 'st) mls_context \<Rightarrow> bool" where
  "same_stream_key om st ca cb \<longleftrightarrow>
     export_stream_key om ca (label_for st) = export_stream_key om cb (label_for st)
     \<and> (\<exists>key. export_stream_key om ca (label_for st) = Inr key \<and> length key = 32)"

definition aead_total :: "aead \<Rightarrow> bytes \<Rightarrow> bool" where
  "aead_total a pt \<longleftrightarrow> (\<forall>k n. length k = 32 \<longrightarrow> length n = 12 \<longrightarrow>
     (\<exists>ct. ae_encrypt a k n pt = Inr ct \<and> length ct < 2 ^ 32))"

lemma mls_seals_to:
  assumes "aead_correct a" "aead_total a pt" "same_stream_key om st ca cb"
  shows "seals_to (mls_sealer om a ca) (mls_sealer om a cb) st pt"
proof -
  obtain key where key: "export_stream_key om ca (label_for st) = Inr key" "export_stream_key om cb (label_for st) = Inr key"
    "length key = 32"
    using assms(3) unfolding same_stream_key_def by metis
  have "\<exists>ct. seal (mls_sealer om a ca) st sq pt = Inr ct \<and> length ct < 2 ^ 32 \<and> openf (mls_sealer om a cb) st sq ct = Inr pt" for sq
  proof -
    have "length (mls_nonce sq) = 12" by (simp add: mls_nonce_def)
    then obtain ct where ct: "ae_encrypt a key (mls_nonce sq) pt = Inr ct" "length ct < 2 ^ 32"
      using assms(2) key(3) unfolding aead_total_def by blast
    then have "ae_decrypt a key (mls_nonce sq) ct = Inr pt" using assms(1) by (simp add: aead_correct_def)
    then show ?thesis using ct key by (simp add: mls_sealer_def mls_seal_def mls_open_def aead_err_def)
  qed
  then show ?thesis by (simp add: seals_to_def)
qed

text \<open>A payload on a data stream, from the sender's node to the event at the receiver's.\<close>

lemma payload_exchange:
  assumes "reads_back fc" "assert_can_send a = Inr ()" "in_step a b" "events b = []" "st \<noteq> Control"
    "window_open (st, sid) 1 a b" "seals_to sa sb st pt"
  obtains out where
    "send_payload fc sa to st sid fl pt cd a = (bump (st, sid) a, Inr out)"
    "on_wire fc cc sb now (of_wire out) b =
       (saw (st, sid) (opt_or (out_seq a (st, sid)) 0 + 1) b,
        [PayloadReceived \<lparr>dp_stream_type = st, dp_stream_id = sid, dp_sequence_no = opt_or (out_seq a (st, sid)) 0 + 1,
           dp_flags = fl, dp_plaintext = pt, dp_codec = cd\<rparr>])"
proof -
  from assms(6) have "window_open (st, sid) (Suc 0) a b" by simp
  from frame_exchange [OF assms(1-3) this assms(7), of to fl cd cc now] obtain ct where
    "send_payload fc sa to st sid fl pt cd a =
      (bump (st, sid) a, Inr \<lparr>of_to = to, of_wire = frame_to_cbor fc (next_frame st sid fl ct cd a)\<rparr>)"
    "on_wire fc cc sb now (frame_to_cbor fc (next_frame st sid fl ct cd a)) b =
      drain_events (push_event (PayloadReceived
            \<lparr>dp_stream_type = st, dp_stream_id = sid, dp_sequence_no = opt_or (out_seq a (st, sid)) 0 + 1,
             dp_flags = fl, dp_plaintext = pt, dp_codec = cd\<rparr>)
           (saw (st, sid) (opt_or (out_seq a (st, sid)) 0 + 1) b))"
    using assms(5) by auto
  then show ?thesis using that assms(4) by (simp add: drain_push)
qed

subsection \<open>Text\<close>

lemma send_payload_to: "send_payload fc s target st sid fl pt cd n = (n', Inr out) \<Longrightarrow> of_to out = target"
  by (auto simp: send_payload_def Let_def split: sum.splits prod.splits)

lemma text_exchange:
  assumes "reads_back fc" and "gtp_codecs_ok cs" and "aead_correct ae"
    and "aead_total ae (gtp_to_bytes cs (gtp_plain (member_id a) mid text) codec)"
    and "same_stream_key om Text mla mlb"
    and "assert_can_send a = Inr ()" and "in_step a b" and "events b = []"
    and "window_open (Text, member_stream_id a 1) 1 a b" and "length text < 2 ^ 32"
    and "gtp_wf cb" and "(member_id a, mid) \<notin> bs_set (gtp_seen (gtp_sync_epoch (current_epoch b) cb))"
  obtains ca' a' out b' p where
    "gtp_send cs fc (mls_sealer om ae mla) target mid text codec ca a = (ca', a', Inr out)" and "of_to out = target"
    and "on_wire fc cc (mls_sealer om ae mlb) now (of_wire out) b = (b', [PayloadReceived p])"
    and "dp_stream_type p = Text" and "dp_codec p = codec" and "current_epoch b' = current_epoch b"
    and "snd (gtp_accept cs (dp_plaintext p) (current_epoch b) (dp_codec p) cb)
        = Inr (GtpNew (gtp_plain (member_id a) mid text))"
proof -
  let ?m = "gtp_plain (member_id a) mid text"
  have seals: "seals_to (mls_sealer om ae mla) (mls_sealer om ae mlb) Text (gtp_to_bytes cs ?m codec)"
    by (rule mls_seals_to [OF assms(3,4,5)])
  have "Text \<noteq> Control" by simp
  from payload_exchange [OF assms(1,6,7,8) this assms(9) seals, of target ordered_reliable_ack codec cc now]
  obtain out where out:
    "send_payload fc (mls_sealer om ae mla) target Text (member_stream_id a 1) ordered_reliable_ack (gtp_to_bytes cs ?m codec) codec a
      = (bump (Text, member_stream_id a 1) a, Inr out)"
    "on_wire fc cc (mls_sealer om ae mlb) now (of_wire out) b =
       (saw (Text, member_stream_id a 1) (opt_or (out_seq a (Text, member_stream_id a 1)) 0 + 1) b,
        [PayloadReceived \<lparr>dp_stream_type = Text, dp_stream_id = member_stream_id a 1,
           dp_sequence_no = opt_or (out_seq a (Text, member_stream_id a 1)) 0 + 1,
           dp_flags = ordered_reliable_ack, dp_plaintext = gtp_to_bytes cs ?m codec, dp_codec = codec\<rparr>])" .
  have dec: "gtp_from_bytes cs (gtp_to_bytes cs ?m codec) codec = Inr ?m"
    by (rule gtp_format.decode_encode [OF assms(2)]) (rule gtp_plain_fits [OF assms(10)])
  have key: "g_sender_id ?m = member_id a" "g_message_id ?m = mid" by (simp_all add: gtp_plain_def)
  have wf: "seen_wf (gtp_seen (gtp_sync_epoch (current_epoch b) cb))"
    using gtp_wf_sync [OF assms(11)] by (simp add: gtp_wf_def)
  have acc: "snd (gtp_accept cs (gtp_to_bytes cs ?m codec) (current_epoch b) codec cb) = Inr (GtpNew ?m)"
    using seen_insert_fresh(1) [OF wf assms(12)] dec
    by (simp add: gtp_accept_def key Let_def case_prod_beta)
  have "current_epoch (saw k sq b) = current_epoch b" for k sq by (simp add: saw_def)
  then show ?thesis using that out acc send_payload_to [OF out(1)] by (simp add: gtp_send_def Let_def)
qed

text \<open>
  A text message gets through the whole stack. When the sender may send, the two nodes agree on
  group, epoch and transition, the receiver's replay window is open for the sender's stream, both MLS
  contexts export the same text key, and the receiving client has not seen this message id from this
  sender in the epoch, then sending succeeds, the receiver's node delivers exactly one event, and the
  client reports a new message with the sender's id, the message id and the text unchanged, for every
  codec.
\<close>

theorem text_end_to_end:
  assumes "reads_back fc" and "gtp_codecs_ok cs" and "aead_correct ae"
    and "aead_total ae (gtp_to_bytes cs (gtp_plain (member_id a) mid text) codec)"
    and "same_stream_key om Text mla mlb"
    and "assert_can_send a = Inr ()" and "in_step a b" and "events b = []"
    and "window_open (Text, member_stream_id a 1) 1 a b" and "length text < 2 ^ 32"
    and "gtp_wf cb" and "(member_id a, mid) \<notin> bs_set (gtp_seen (gtp_sync_epoch (current_epoch b) cb))"
  shows "\<exists>ca' a' out b' p.
      gtp_send cs fc (mls_sealer om ae mla) target mid text codec ca a = (ca', a', Inr out)
    \<and> on_wire fc cc (mls_sealer om ae mlb) now (of_wire out) b = (b', [PayloadReceived p])
    \<and> dp_stream_type p = Text
    \<and> snd (gtp_accept cs (dp_plaintext p) (current_epoch b') (dp_codec p) cb)
        = Inr (GtpNew (gtp_plain (member_id a) mid text))"
proof -
  from text_exchange [OF assms, of target ca cc now] show ?thesis by metis
qed

subsection \<open>Signals\<close>

text \<open>
  A JOIN gets through the whole stack: under the same conditions on the signal stream, and when the
  receiving client has not seen the request id in the epoch, the receiver delivers one event and the
  client accepts the signal, after which its membership set is the old one with the sender added and
  its mute list is unchanged.
\<close>

theorem join_end_to_end:
  assumes "reads_back fc" and "gsp_codecs_ok cs" and "aead_correct ae"
    and "aead_total ae (gsp_to_bytes cs ((gsp_bare (signal_as_u32 Join) rid (member_id a))
           \<lparr>s_role_claim := rc, s_args := [], s_args_length := 0\<rparr>) codec)"
    and "same_stream_key om Signal mla mlb"
    and "assert_can_send a = Inr ()" and "in_step a b" and "events b = []"
    and "window_open (Signal, member_stream_id a 3) 1 a b"
    and "gsp_wf cb" and "rid \<notin> bs_set (seen_requests (gsp_sync_epoch (current_epoch b) cb))"
  shows "\<exists>ca' a' out b' p cb' acc.
      gsp_send cs fc (mls_sealer om ae mla) target Join rc rid codec ca a = (ca', a', Inr out)
    \<and> on_wire fc cc (mls_sealer om ae mlb) now (of_wire out) b = (b', [PayloadReceived p])
    \<and> gsp_accept cs rd (dp_plaintext p) (current_epoch b') (dp_codec p) cb = (cb', Inr acc)
    \<and> acc_sender_id acc = member_id a \<and> acc_role_claim acc = rc
    \<and> members cb' = insert (member_id a) (members cb) \<and> muted cb' = muted cb"
proof -
  let ?m = "(gsp_bare (signal_as_u32 Join) rid (member_id a))\<lparr>s_role_claim := rc, s_args := [], s_args_length := 0\<rparr>"
  let ?k = "(Signal, member_stream_id a 3)"
  have seals: "seals_to (mls_sealer om ae mla) (mls_sealer om ae mlb) Signal (gsp_to_bytes cs ?m codec)"
    by (rule mls_seals_to [OF assms(3,4,5)])
  have "Signal \<noteq> Control" by simp
  from payload_exchange [OF assms(1,6,7,8) this assms(9) seals, of target ordered_reliable_ack codec cc now]
  obtain out where out:
    "send_payload fc (mls_sealer om ae mla) target Signal (member_stream_id a 3) ordered_reliable_ack (gsp_to_bytes cs ?m codec) codec a
      = (bump ?k a, Inr out)"
    "on_wire fc cc (mls_sealer om ae mlb) now (of_wire out) b =
       (saw ?k (opt_or (out_seq a ?k) 0 + 1) b,
        [PayloadReceived \<lparr>dp_stream_type = Signal, dp_stream_id = member_stream_id a 3,
           dp_sequence_no = opt_or (out_seq a ?k) 0 + 1,
           dp_flags = ordered_reliable_ack, dp_plaintext = gsp_to_bytes cs ?m codec, dp_codec = codec\<rparr>])" .
  have dec: "gsp_from_bytes cs (gsp_to_bytes cs ?m codec) codec = Inr ?m"
    by (rule gsp_format.decode_encode [OF assms(2)]) (simp add: gsp_fits_def)
  let ?acc = "\<lparr>acc_signal = Join, acc_sender_id = member_id a, acc_role_claim = rc, acc_request_id = rid\<rparr>"
  have val: "valid_signal cs rd (gsp_to_bytes cs ?m codec, codec) = Some ?acc"
    using dec signal_wire.dec_enc [of Join] join_schema [of rd "[]"] by (simp add: valid_signal_def gsp_bare_def)
  let ?c = "gsp_sync_epoch (current_epoch b) cb"
  have wf: "seen_wf (seen_requests ?c)" using gsp_wf_sync [OF assms(10)] by (simp add: gsp_wf_def)
  obtain s' where s': "seen_insert rid (seen_requests ?c) = (True, s')"
    using seen_insert_fresh(1) [OF wf assms(11)] by (cases "seen_insert rid (seen_requests ?c)") simp
  have "gsp_accept cs rd (gsp_to_bytes cs ?m codec) (current_epoch b) codec cb
      = (apply_signal Join (member_id a) (?c\<lparr>seen_requests := s'\<rparr>), Inr ?acc)"
    using gsp_accept_valid [OF _ val, of ?c "current_epoch b"] s' gsp_accept_sync [of cs rd _ "current_epoch b" codec cb]
    by simp
  moreover have "current_epoch (saw k sq b) = current_epoch b" for k sq by (simp add: saw_def)
  ultimately show ?thesis using out by (simp add: gsp_send_def gsp_send_with_args_def Let_def apply_signal_def)
qed

subsection \<open>Voice\<close>

text \<open>
  A voice stream from client to client: every frame is sent, crosses the wire, and the audio payloads among the events at the
  receiver's node are handed to its client. A frame comes with the times at which it is sent, arrives and is accepted, its
  timestamp and its bytes. A frame that cannot be sent ends the stream.
\<close>

definition heard :: "instant \<Rightarrow> event list \<Rightarrow> (instant \<times> bytes \<times> payload_codec) list" where
  "heard t evs = concat (map (\<lambda>ev. case ev of
     PayloadReceived p \<Rightarrow> if dp_stream_type p = Audio then [(t, dp_plaintext p, dp_codec p)] else [] | _ \<Rightarrow> []) evs)"

fun voice_call where
  "voice_call cs fc cc sa sb target src codec [] ca a cb b = []"
| "voice_call cs fc cc sa sb target src codec ((t, t1, t2, ts, opus) # fs) ca a cb b =
     (case gap_send cs fc sa t target src ts opus codec ca a of
        (ca1, a1, Inl e) \<Rightarrow> []
      | (ca1, a1, Inr out) \<Rightarrow>
        (case on_wire fc cc sb t1 (of_wire out) b of (b1, evs) \<Rightarrow>
           (case gap_accept_all cs (current_epoch b1) (heard t2 evs) cb of (cb1, rs) \<Rightarrow>
              rs @ voice_call cs fc cc sa sb target src codec fs ca1 a1 cb1 b1)))"

definition voice_payload :: "u32 \<Rightarrow> u64 \<Rightarrow> nat \<Rightarrow> u64 \<Rightarrow> bytes \<Rightarrow> gap_payload" where
  "voice_payload src e k ts opus =
     \<lparr>a_media_source_id = src, a_rtp_sequence = word_of_nat (k mod 65536), a_rtp_timestamp = ts,
      a_key_phase = ucast e, a_opus_frame = opus\<rparr>"

lemma voice_frame:
  assumes "reads_back fc" "gap_codecs_ok cs" "assert_can_send a = Inr ()" "in_step a b" "events b = []"
    "window_open (Audio, member_stream_id a 2) 1 a b"
    "unat (rtp_sent (current_epoch a) src ca) = k mod 65536" "rtp_seen (current_epoch a) src cb = rtp_sent (current_epoch a) src ca"
    "seals_to sa sb Audio (gap_to_bytes cs (voice_payload src (current_epoch a) (Suc k) ts opus) codec)"
  obtains ca1 out cb1 where
    "gap_send cs fc sa t target src ts opus codec ca a = (ca1, bump (Audio, member_stream_id a 2) a, Inr out)"
    "on_wire fc cc sb t1 (of_wire out) b =
       (saw (Audio, member_stream_id a 2) (opt_or (out_seq a (Audio, member_stream_id a 2)) 0 + 1) b,
        [PayloadReceived \<lparr>dp_stream_type = Audio, dp_stream_id = member_stream_id a 2,
           dp_sequence_no = opt_or (out_seq a (Audio, member_stream_id a 2)) 0 + 1, dp_flags = ordered_only,
           dp_plaintext = gap_to_bytes cs (voice_payload src (current_epoch a) (Suc k) ts opus) codec, dp_codec = codec\<rparr>])"
    "gap_accept cs t2 (gap_to_bytes cs (voice_payload src (current_epoch a) (Suc k) ts opus) codec) (current_epoch a) codec cb
       = (cb1, Inr (GapNew (voice_payload src (current_epoch a) (Suc k) ts opus)))"
    "unat (rtp_sent (current_epoch a) src ca1) = Suc k mod 65536" "rtp_seen (current_epoch a) src cb1 = rtp_sent (current_epoch a) src ca1"
proof -
  let ?e = "current_epoch a" and ?k = "(Audio, member_stream_id a 2)" and ?p = "voice_payload src (current_epoch a) (Suc k) ts opus"
  have "Audio \<noteq> Control" by simp
  from payload_exchange [OF assms(1,3,4,5) this assms(6,9), of target ordered_only codec cc t1] obtain out where out:
    "send_payload fc sa target Audio (member_stream_id a 2) ordered_only (gap_to_bytes cs ?p codec) codec a = (bump ?k a, Inr out)"
    "on_wire fc cc sb t1 (of_wire out) b = (saw ?k (opt_or (out_seq a ?k) 0 + 1) b,
        [PayloadReceived \<lparr>dp_stream_type = Audio, dp_stream_id = member_stream_id a 2,
           dp_sequence_no = opt_or (out_seq a ?k) 0 + 1, dp_flags = ordered_only,
           dp_plaintext = gap_to_bytes cs ?p codec, dp_codec = codec\<rparr>])" .
  let ?s = "rtp_sent ?e src ca"
  note nxt = rtp_next_mod [OF assms(7)]
  let ?ca = "(gap_sync_epoch t ?e ca)\<lparr>ga_out_rtp_seq := (ga_out_rtp_seq (gap_sync_epoch t ?e ca))(src \<mapsto> rtp_next ?s)\<rparr>"
  have send: "gap_send cs fc sa t target src ts opus codec ca a = (?ca, bump ?k a, Inr out)"
    using out(1) nxt(1) by (simp add: gap_send_def Let_def gap_sync_windows voice_payload_def)
  have dec: "gap_from_bytes cs (gap_to_bytes cs ?p codec) codec = Inr ?p"
    by (rule gap_format.decode_encode [OF assms(2)]) simp
  have "k mod 65536 < 65536" by simp
  then have "?s \<le> 0xFFFF" using assms(7) by (simp add: word_le_nat_alt)
  then have "\<not> is_late ?s (rtp_next ?s)" by (rule rtp_next_fresh)
  then have acc: "gap_accept cs t2 (gap_to_bytes cs ?p codec) ?e codec cb =
      ((gap_sync_epoch t2 ?e cb)\<lparr>ga_in_hw := (ga_in_hw (gap_sync_epoch t2 ?e cb))(src \<mapsto> rtp_next ?s)\<rparr>, Inr (GapNew ?p))"
    using dec nxt(1) assms(8) by (simp add: gap_accept_def Let_def gap_sync_windows voice_payload_def)
  show ?thesis by (rule that [OF send out(2) acc]) (simp_all add: rtp_upd gap_sync_windows nxt(2))
qed

text \<open>
  C32. A voice stream gets through, across the wrap of the 16-bit sequence number. When sender and receiver are in step, the
  32-bit frame numbers of the audio stream last for it, and the receiving client has heard what the sending client has sent
  for the source, every frame given to
  \<^verbatim>\<open>GapClient::send\<close> is sent, delivered and accepted by the peer's client as new, with its source, its timestamp, its
  bytes and the epoch as key phase unchanged, numbered consecutively modulo \<open>2 ^ 16\<close>, at whatever times this happens.
\<close>

theorem voice_end_to_end:
  assumes "reads_back fc" and "gap_codecs_ok cs" and "aead_correct ae" and "same_stream_key om Audio mla mlb"
    and "assert_can_send a = Inr ()" and "in_step a b" and "events b = []"
    and "window_open (Audio, member_stream_id a 2) (length frames) a b"
    and "unat (rtp_sent (current_epoch a) src ca) = k mod 65536" and "rtp_seen (current_epoch a) src cb = rtp_sent (current_epoch a) src ca"
    and "\<forall>(t, t1, t2, ts, opus)\<in>set frames. \<forall>j. aead_total ae (gap_to_bytes cs (voice_payload src (current_epoch a) j ts opus) codec)"
  shows "voice_call cs fc cc (mls_sealer om ae mla) (mls_sealer om ae mlb) target src codec frames ca a cb b
    = map (\<lambda>(j, t, t1, t2, ts, opus). Inr (GapNew (voice_payload src (current_epoch a) j ts opus))) (enumerate (Suc k) frames)"
  using assms(5-11)
proof (induction frames arbitrary: ca a cb b k)
  case (Cons f fs)
  obtain t t1 t2 ts opus where f: "f = (t, t1, t2, ts, opus)" by (cases f)
  let ?k = "(Audio, member_stream_id a 2)" and ?sa = "mls_sealer om ae mla" and ?sb = "mls_sealer om ae mlb"
  let ?p = "voice_payload src (current_epoch a) (Suc k) ts opus"
  have w: "window_open ?k 1 a b" "window_open ?k (Suc (length fs)) a b" using Cons.prems(4) by (auto simp: window_open_def)
  have "aead_total ae (gap_to_bytes cs ?p codec)" using Cons.prems(7) f by simp
  then have seals: "seals_to ?sa ?sb Audio (gap_to_bytes cs ?p codec)" by (rule mls_seals_to [OF assms(3) _ assms(4)])
  from voice_frame [OF assms(1,2) Cons.prems(1-3) w(1) Cons.prems(5,6) seals, of t target cc t1 t2] obtain ca1 out cb1 where
    send: "gap_send cs fc ?sa t target src ts opus codec ca a = (ca1, bump ?k a, Inr out)" and
    wire: "on_wire fc cc ?sb t1 (of_wire out) b = (saw ?k (opt_or (out_seq a ?k) 0 + 1) b,
        [PayloadReceived \<lparr>dp_stream_type = Audio, dp_stream_id = member_stream_id a 2,
           dp_sequence_no = opt_or (out_seq a ?k) 0 + 1, dp_flags = ordered_only,
           dp_plaintext = gap_to_bytes cs ?p codec, dp_codec = codec\<rparr>])" and
    acc: "gap_accept cs t2 (gap_to_bytes cs ?p codec) (current_epoch a) codec cb = (cb1, Inr (GapNew ?p))" and
    rtp: "unat (rtp_sent (current_epoch a) src ca1) = Suc k mod 65536" "rtp_seen (current_epoch a) src cb1 = rtp_sent (current_epoch a) src ca1" .
  have e: "current_epoch b = current_epoch a" using Cons.prems(2) by (simp add: in_step_def)
  have "voice_call cs fc cc ?sa ?sb target src codec fs ca1 (bump ?k a) cb1 (saw ?k (opt_or (out_seq a ?k) 0 + 1) b)
    = map (\<lambda>(j, t, t1, t2, ts, opus). Inr (GapNew (voice_payload src (current_epoch (bump ?k a)) j ts opus))) (enumerate (Suc (Suc k)) fs)"
  proof (rule Cons.IH)
    show "window_open (Audio, member_stream_id (bump ?k a) 2) (length fs) (bump ?k a) (saw ?k (opt_or (out_seq a ?k) 0 + 1) b)"
      using w(2) next_counter(2) [OF w(2)] by (simp add: window_open_def)
  qed (use Cons.prems rtp in simp_all)
  then show ?case using send wire acc e by (simp add: f heard_def)
qed simp

subsection \<open>Nonces\<close>

text \<open>
  C37. Members reuse each other's nonces. The key of a stream depends on the epoch and the stream type
  only and the nonce on the per-stream counter only, so two members of one group that each send their
  \<open>n\<close>-th text of an epoch on their own stream encrypt different texts under the same key and nonce.
\<close>

theorem members_share_nonces:
  assumes "export_stream_key om mla (label_for Text) = Inr key" and "same_stream_key om Text mla mlb"
    and "assert_can_send a = Inr ()" and "assert_can_send b = Inr ()"
    and "opt_or (out_seq a (Text, member_stream_id a 1)) 0 = sq" and "opt_or (out_seq b (Text, member_stream_id b 1)) 0 = sq"
    and "ae_encrypt ae key (mls_nonce (sq + 1)) pa = Inr cta" and "ae_encrypt ae key (mls_nonce (sq + 1)) pb = Inr ctb"
  shows "\<exists>a' fa b' fb.
      send_payload fc (mls_sealer om ae mla) target Text (member_stream_id a 1) fl pa cd a
        = (a', Inr \<lparr>of_to = target, of_wire = frame_to_cbor fc fa\<rparr>)
    \<and> send_payload fc (mls_sealer om ae mlb) target Text (member_stream_id b 1) fl pb cd b
        = (b', Inr \<lparr>of_to = target, of_wire = frame_to_cbor fc fb\<rparr>)
    \<and> ae_encrypt ae key (mls_nonce (sq + 1)) pa = Inr (f_encrypted_payload fa)
    \<and> ae_encrypt ae key (mls_nonce (sq + 1)) pb = Inr (f_encrypted_payload fb)"
proof -
  have kb: "export_stream_key om mlb (label_for Text) = Inr key"
    using assms(1,2) by (simp add: same_stream_key_def)
  have "seal (mls_sealer om ae mla) Text (sq + 1) pa = Inr cta" "seal (mls_sealer om ae mlb) Text (sq + 1) pb = Inr ctb"
    using assms(1,7,8) kb by (simp_all add: mls_sealer_def mls_seal_def aead_err_def)
  then show ?thesis
    using send_payload_ok [OF assms(3), of "mls_sealer om ae mla" Text "member_stream_id a 1" pa cta]
      send_payload_ok [OF assms(4), of "mls_sealer om ae mlb" Text "member_stream_id b 1" pb ctb] assms(5-8)
    by (intro exI conjI) (assumption | simp)+
qed

subsection \<open>Concrete runs\<close>

lemma toy_same_key [simp]: "same_stream_key toy_openmls st toy_context toy_context"
  by (simp add: same_stream_key_def export_stream_key_def toy_openmls_def toy_context_def om_err_def)

lemma toy_aead_total: "length pt < 2 ^ 32 - 44 \<Longrightarrow> aead_total toy_aead pt"
  by (simp add: aead_total_def toy_aead_def)

theorem text_end_to_end_witness:
  "\<exists>out b' p.
      snd (snd (gtp_send toy_gtp_codecs toy_frame_codec (mls_sealer toy_openmls toy_aead toy_context) 2 9 [72, 105] Protobuf
        gtp_client_new (active_node 1))) = Inr out
    \<and> on_wire toy_frame_codec toy_control_codec (mls_sealer toy_openmls toy_aead toy_context) 0 (of_wire out) (active_node 2)
        = (b', [PayloadReceived p])
    \<and> snd (gtp_accept toy_gtp_codecs (dp_plaintext p) (current_epoch b') (dp_codec p) gtp_client_new)
        = Inr (GtpNew (gtp_plain 1 9 [72, 105]))"
proof -
  have "length (gtp_to_bytes toy_gtp_codecs (gtp_plain 1 9 [72, 105]) Protobuf) < 2 ^ 32 - 44"
    by (simp add: gtp_to_bytes_def toy_gtp_codecs_def toy_gtp_proto_def field_codec_def put_fields_def bits_of_def
        gtp_to_proto_def gtp_plain_def)
  note tot = toy_aead_total [OF this]
  have fresh: "(member_id (active_node 1), 9) \<notin> bs_set (gtp_seen (gtp_sync_epoch (current_epoch (active_node 2)) gtp_client_new))"
    by (simp add: gtp_sync_epoch_def gtp_client_new_def)
  have win: "window_open (Text, member_stream_id (active_node 1) 1) 1 (active_node 1) (active_node 2)"
    by (simp add: window_open_def)
  have send: "assert_can_send (active_node 1) = Inr ()" by (simp add: assert_can_send_def)
  from text_end_to_end [where a = "active_node 1" and b = "active_node 2" and cb = gtp_client_new
      and ca = gtp_client_new and target = 2 and cc = toy_control_codec and now = 0,
      OF toy_frame_codec toy_gtp_codecs_ok toy_aead_correct _ toy_same_key send _ _ win _ gtp_wf_new fresh] tot
  show ?thesis by fastforce
qed

theorem join_end_to_end_witness:
  "\<exists>out b' p cb' acc.
      snd (snd (gsp_send toy_gsp_codecs toy_frame_codec (mls_sealer toy_openmls toy_aead toy_context) 2 Join 0 77 Cbor
        gsp_client_new (active_node 1))) = Inr out
    \<and> on_wire toy_frame_codec toy_control_codec (mls_sealer toy_openmls toy_aead toy_context) 0 (of_wire out) (active_node 2)
        = (b', [PayloadReceived p])
    \<and> gsp_accept toy_gsp_codecs tiny_cbor (dp_plaintext p) (current_epoch b') (dp_codec p) gsp_client_new = (cb', Inr acc)
    \<and> members cb' = {1}"
proof -
  have "length (gsp_to_bytes toy_gsp_codecs ((gsp_bare (signal_as_u32 Join) 77 1)
      \<lparr>s_role_claim := 0, s_args := [], s_args_length := 0\<rparr>) Cbor) < 2 ^ 32 - 44"
    by (simp add: gsp_to_bytes_def gsp_to_cbor_def toy_gsp_codecs_def toy_gsp_cbor_def field_codec_def put_fields_def
        bits_of_def gsp_bare_def)
  note tot = toy_aead_total [OF this]
  have fresh: "77 \<notin> bs_set (seen_requests (gsp_sync_epoch (current_epoch (active_node 2)) gsp_client_new))"
    by (simp add: gsp_sync_epoch_def gsp_client_new_def)
  have win: "window_open (Signal, member_stream_id (active_node 1) 3) 1 (active_node 1) (active_node 2)"
    by (simp add: window_open_def)
  have send: "assert_can_send (active_node 1) = Inr ()" by (simp add: assert_can_send_def)
  have none: "members gsp_client_new = {}" by (simp add: gsp_client_new_def)
  from join_end_to_end [where a = "active_node 1" and b = "active_node 2" and cb = gsp_client_new and rc = 0
      and ca = gsp_client_new and target = 2 and cc = toy_control_codec and now = 0 and rd = tiny_cbor and codec = Cbor,
      OF toy_frame_codec toy_gsp_codecs_ok toy_aead_correct _ toy_same_key send _ _ win gsp_wf_new fresh] tot
  show ?thesis by (fastforce simp: none)
qed

theorem members_share_nonces_witness:
  "\<exists>key a' fa b' fb.
      send_payload toy_frame_codec (mls_sealer toy_openmls toy_aead toy_context) 9 Text (member_stream_id (active_node 1) 1) 7 [1] Cbor
        (active_node 1) = (a', Inr \<lparr>of_to = 9, of_wire = frame_to_cbor toy_frame_codec fa\<rparr>)
    \<and> send_payload toy_frame_codec (mls_sealer toy_openmls toy_aead toy_context) 9 Text (member_stream_id (active_node 2) 1) 7 [2] Cbor
        (active_node 2) = (b', Inr \<lparr>of_to = 9, of_wire = frame_to_cbor toy_frame_codec fb\<rparr>)
    \<and> ae_encrypt toy_aead key (mls_nonce 1) [1] = Inr (f_encrypted_payload fa)
    \<and> ae_encrypt toy_aead key (mls_nonce 1) [2] = Inr (f_encrypted_payload fb)"
proof -
  obtain key where key: "export_stream_key toy_openmls toy_context (label_for Text) = Inr key"
    using toy_same_key [of Text] by (auto simp: same_stream_key_def)
  have send: "assert_can_send (active_node m) = Inr ()" for m by (simp add: assert_can_send_def)
  have enc: "ae_encrypt toy_aead k n p = Inr (p @ k @ n)" for k n p by (simp add: toy_aead_def)
  have none: "opt_or (out_seq (active_node m) (Text, member_stream_id (active_node m) 1)) 0 = 0" for m by simp
  from members_share_nonces [where a = "active_node 1" and b = "active_node 2" and sq = 0 and pa = "[1]" and pb = "[2]"
      and fc = toy_frame_codec and target = 9 and fl = 7 and cd = Cbor, OF key toy_same_key send send none none enc enc]
  show ?thesis unfolding add_0 by blast
qed

theorem voice_end_to_end_witness:
  "map (map_sum id (\<lambda>r. case r of GapNew p \<Rightarrow> (a_rtp_sequence p, a_opus_frame p) | GapLate p \<Rightarrow> (0, [])))
     (voice_call toy_gap_codecs toy_frame_codec toy_control_codec (mls_sealer toy_openmls toy_aead toy_context)
       (mls_sealer toy_openmls toy_aead toy_context) 2 9 Protobuf [(0, 1, 2, 960, [7]), (20, 21, 22, 1920, [8])]
       (gap_client_new\<lparr>ga_epoch := Some 0, ga_out_rtp_seq := [9 \<mapsto> 0xFFFE]\<rparr>) (active_node 1)
       (gap_client_new\<lparr>ga_epoch := Some 0, ga_in_hw := [9 \<mapsto> 0xFFFE]\<rparr>) (active_node 2))
   = [Inr (0xFFFF, [7]), Inr (0, [8])]"
proof -
  have "length (gap_to_bytes toy_gap_codecs (voice_payload 9 0 j ts [x]) Protobuf) < 2 ^ 32 - 44" for j ts x
    by (simp add: gap_to_bytes_def toy_gap_codecs_def toy_gap_proto_def field_codec_def put_fields_def bits_of_def
        gap_to_proto_def voice_payload_def)
  note tot = toy_aead_total [OF this]
  have win: "window_open (Audio, member_stream_id (active_node 1) 2) 2 (active_node 1) (active_node 2)"
    by (simp add: window_open_def)
  have send: "assert_can_send (active_node 1) = Inr ()" by (simp add: assert_can_send_def)
  show ?thesis
    by (subst voice_end_to_end [where k = 65534, OF toy_frame_codec toy_gap_codecs_ok toy_aead_correct toy_same_key send])
      (use win tot in \<open>simp_all add: window_open_def rtp_sent_def rtp_seen_def gap_client_new_def voice_payload_def\<close>)
qed

end
