(* ===== verification/Gtp_Attachment.thy ===== *)
theory Gtp_Attachment
  imports Gbp_Instances
begin

section \<open>Attachments (\<^verbatim>\<open>gtp-protocol/attachment.rs\<close>)\<close>

text \<open>
  Splitting a payload into chunks with a manifest, and reassembling it. SHA-256 is a parameter. The
  hash map of received chunks is only inserted into, counted and looked up, so it is an association
  list with at most one entry per index. \<^verbatim>\<open>assemble\<close> reserves the size the manifest declares, a number the peer
  chooses, and unwraps lookups; where one of these panics or aborts the process the outcome is \<open>None\<close>. The width of
  \<^verbatim>\<open>usize\<close> (64, or 32 in browsers) and what the allocator can provide are parameters; that the vector grows for
  chunks that are already in memory is not a source of failure here.
\<close>

definition DEFAULT_CHUNK_SIZE :: nat where
  "DEFAULT_CHUNK_SIZE = 64 * 1024"

record attachment_manifest =
  am_attachment_id :: u64
  am_filename :: string
  am_mime_type :: string
  am_total_size :: u64
  am_chunk_count :: u32
  am_sha256 :: bytes

record attachment_chunk =
  ac_attachment_id :: u64
  ac_chunk_index :: u32
  ac_chunk_count :: u32
  ac_data :: bytes

definition manifest_to_cbor :: "attachment_manifest serialiser \<Rightarrow> attachment_manifest \<Rightarrow> bytes" where
  "manifest_to_cbor c m = into_writer c m"

definition manifest_from_cbor :: "attachment_manifest serialiser \<Rightarrow> bytes \<Rightarrow> codec_error + attachment_manifest" where
  "manifest_from_cbor c data = decode_err (from_reader c data)"

definition chunk_to_cbor :: "attachment_chunk serialiser \<Rightarrow> attachment_chunk \<Rightarrow> bytes" where
  "chunk_to_cbor c m = into_writer c m"

definition chunk_from_cbor :: "attachment_chunk serialiser \<Rightarrow> bytes \<Rightarrow> codec_error + attachment_chunk" where
  "chunk_from_cbor c data = decode_err (from_reader c data)"

datatype attachment_error =
    AttDecode codec_error | ChunkOutOfRange u32 u32 | HashMismatch | Incomplete u32 u32

fun attachment_error_display :: "attachment_error \<Rightarrow> string" where
  "attachment_error_display (AttDecode e) = ''decode: '' @ codec_error_display e"
| "attachment_error_display (ChunkOutOfRange idx count) =
     ''chunk index '' @ dec_word idx @ '' out of range (count='' @ dec_word count @ '')''"
| "attachment_error_display HashMismatch = ''integrity check failed: hash mismatch''"
| "attachment_error_display (Incomplete received tot) =
     ''incomplete: '' @ dec_word received @ ''/'' @ dec_word tot @ '' chunks received''"

record attachment_sender =
  as_manifest :: attachment_manifest
  as_chunks :: "bytes list"

text \<open>\<^verbatim>\<open>slice::chunks\<close>: pieces of \<open>n > 0\<close> elements, the last possibly shorter, none for the empty slice.\<close>

function (sequential) chunks :: "nat \<Rightarrow> 'a list \<Rightarrow> 'a list list" where
  "chunks n [] = []"
| "chunks n (x # xs) = (if n = 0 then [] else take n (x # xs) # chunks n (drop n (x # xs)))"
  by pat_completeness auto
termination by (relation "measure (\<lambda>(n, xs). length xs)") auto

declare chunks.simps [simp del]

definition attachment_sender_new ::
    "(bytes \<Rightarrow> bytes) \<Rightarrow> attachment_chunk serialiser \<Rightarrow> u64 \<Rightarrow> string \<Rightarrow> string \<Rightarrow> bytes \<Rightarrow> nat \<Rightarrow> attachment_sender" where
  "attachment_sender_new sha cc attachment_id filename mime_type data chunk_size =
     (let hash = sha data; size = max chunk_size 1; raw_chunks = chunks size data;
          chunk_count = word_of_nat (length raw_chunks);
          manifest = \<lparr>am_attachment_id = attachment_id, am_filename = filename, am_mime_type = mime_type,
                      am_total_size = word_of_nat (length data), am_chunk_count = chunk_count,
                      am_sha256 = hash\<rparr>;
          cs = map (\<lambda>(i, slice). chunk_to_cbor cc
                 \<lparr>ac_attachment_id = attachment_id, ac_chunk_index = word_of_nat i,
                  ac_chunk_count = chunk_count, ac_data = slice\<rparr>)
               (enumerate 0 raw_chunks)
      in \<lparr>as_manifest = manifest, as_chunks = cs\<rparr>)"

record attachment_assembler =
  aa_manifest :: attachment_manifest
  aa_received :: "(u32 \<times> bytes) list"

definition assembler_new :: "attachment_manifest \<Rightarrow> attachment_assembler" where
  "assembler_new m = \<lparr>aa_manifest = m, aa_received = []\<rparr>"

definition received_count :: "attachment_assembler \<Rightarrow> u32" where
  "received_count a = word_of_nat (length (aa_received a))"

definition is_complete :: "attachment_assembler \<Rightarrow> bool" where
  "is_complete a \<longleftrightarrow> word_of_nat (length (aa_received a)) = am_chunk_count (aa_manifest a)"

definition assembler_push ::
    "attachment_chunk \<Rightarrow> attachment_assembler \<Rightarrow> attachment_assembler \<times> (attachment_error + unit)" where
  "assembler_push chunk a =
     (if ac_chunk_index chunk \<ge> am_chunk_count (aa_manifest a)
      then (a, Inl (ChunkOutOfRange (ac_chunk_index chunk) (am_chunk_count (aa_manifest a))))
      else ((case map_of (aa_received a) (ac_chunk_index chunk) of
               Some _ \<Rightarrow> a
             | None \<Rightarrow> a\<lparr>aa_received := aa_received a @ [(ac_chunk_index chunk, ac_data chunk)]\<rparr>),
            Inr ()))"

text \<open>The loop over the indices; \<open>None\<close> where \<^verbatim>\<open>unwrap\<close> panics.\<close>

fun collect_chunks :: "(u32 \<times> bytes) list \<Rightarrow> u32 list \<Rightarrow> bytes option" where
  "collect_chunks rs [] = Some []"
| "collect_chunks rs (i # is) =
     (case map_of rs i of None \<Rightarrow> None
      | Some d \<Rightarrow> (case collect_chunks rs is of None \<Rightarrow> None | Some p \<Rightarrow> Some (d @ p)))"

text \<open>
  \<^verbatim>\<open>Vec::with_capacity(n as usize)\<close>: the cast keeps the low bits; a capacity above \<^verbatim>\<open>isize::MAX\<close> panics, and one that the
  allocator cannot provide aborts. That the vector can grow, where the chunks hold more bytes than were declared, is taken
  for granted, as is every copy of bytes that have already arrived.
\<close>

definition isize_max :: "nat \<Rightarrow> nat" where
  "isize_max bits = 2 ^ (bits - 1) - 1"

definition reserves :: "nat \<Rightarrow> (nat \<Rightarrow> bool) \<Rightarrow> u64 \<Rightarrow> bool" where
  "reserves bits alloc n \<longleftrightarrow>
     (let cap = unat n mod 2 ^ bits in cap \<le> isize_max bits \<and> alloc cap)"

definition assemble ::
    "(bytes \<Rightarrow> bytes) \<Rightarrow> nat \<Rightarrow> (nat \<Rightarrow> bool) \<Rightarrow> attachment_assembler \<Rightarrow> (attachment_error + bytes) option" where
  "assemble sha bits alloc a =
     (let tot = am_chunk_count (aa_manifest a); received = word_of_nat (length (aa_received a)) in
      if received < tot then Some (Inl (Incomplete received tot))
      else if \<not> reserves bits alloc (am_total_size (aa_manifest a)) then None
      else case collect_chunks (aa_received a) (map word_of_nat [0..<unat tot]) of
        None \<Rightarrow> None
      | Some payload \<Rightarrow>
          (if sha payload \<noteq> am_sha256 (aa_manifest a) then Some (Inl HashMismatch)
           else Some (Inr payload)))"

subsection \<open>Chunks\<close>

lemma concat_chunks [simp]: "0 < n \<Longrightarrow> concat (chunks n xs) = xs"
  by (induction n xs rule: chunks.induct) (simp_all add: chunks.simps)

lemma chunks_length_bound: "0 < n \<Longrightarrow> c \<in> set (chunks n xs) \<Longrightarrow> length c \<le> n \<and> c \<noteq> []"
  by (induction n xs rule: chunks.induct) (auto simp: chunks.simps split: if_splits)

subsection \<open>Reassembly\<close>

definition assembler_wf :: "attachment_assembler \<Rightarrow> bool" where
  "assembler_wf a \<longleftrightarrow> distinct (map fst (aa_received a))
     \<and> (\<forall>i\<in>fst ` set (aa_received a). i < am_chunk_count (aa_manifest a))"

lemma assembler_wf_new [simp]: "assembler_wf (assembler_new m)"
  by (simp add: assembler_wf_def assembler_new_def)

lemma assembler_wf_push: "assembler_wf a \<Longrightarrow> assembler_wf (fst (assembler_push c a))"
  by (auto simp: assembler_wf_def assembler_push_def not_le map_of_eq_None_iff split: option.splits)

lemma assembler_push_manifest [simp]: "aa_manifest (fst (assembler_push c a)) = aa_manifest a"
  by (auto simp: assembler_push_def split: option.splits)

text \<open>The indices below a count, as words and as naturals.\<close>

lemma index_inj: "inj_on (word_of_nat :: nat \<Rightarrow> u32) {0..<unat (t :: u32)}"
proof (rule inj_onI)
  fix a b assume "a \<in> {0..<unat t}" "b \<in> {0..<unat t}" and eq: "word_of_nat a = (word_of_nat b :: u32)"
  then have "a < 2 ^ 32" "b < 2 ^ 32" using unat_bound32 [of t] by auto
  then show "a = b" using arg_cong [OF eq, of unat] by simp
qed

lemma index_set: "{i :: u32. i < t} = word_of_nat ` {0..<unat t}"
proof (intro set_eqI iffI)
  fix i :: u32 assume "i \<in> {i. i < t}"
  then have "unat i \<in> {0..<unat t}" by (simp add: word_less_nat_alt)
  moreover have "i = word_of_nat (unat i)" by (simp only: word_of_nat_unat)
  ultimately show "i \<in> word_of_nat ` {0..<unat t}" by (rule rev_image_eqI)
next
  fix i :: u32 assume "i \<in> word_of_nat ` {0..<unat t}"
  then obtain k where "i = word_of_nat k" "k < unat t" by auto
  then show "i \<in> {i. i < t}" by (simp add: word_less_nat_alt unat_of_nat mod_less_eq_dividend
      le_less_trans [OF mod_less_eq_dividend])
qed

lemma card_index_set: "card {i :: u32. i < t} = unat t"
  by (simp add: index_set card_image index_inj)

lemma collect_chunks_Some:
  "\<forall>i\<in>set is. map_of rs i \<noteq> None \<Longrightarrow>
     collect_chunks rs is = Some (concat (map (\<lambda>i. the (map_of rs i)) is))"
  by (induction "is") auto

text \<open>The assembler after feeding a list of chunks; errors of single chunks are reported and skipped.\<close>

definition push_all :: "attachment_chunk list \<Rightarrow> attachment_assembler \<Rightarrow> attachment_assembler" where
  "push_all cs a = fold (\<lambda>c a. fst (assembler_push c a)) cs a"

lemma push_all_wf: "assembler_wf a \<Longrightarrow> assembler_wf (push_all cs a)"
  unfolding push_all_def by (induction cs arbitrary: a) (simp_all add: assembler_wf_push)

lemma push_all_manifest [simp]: "aa_manifest (push_all cs a) = aa_manifest a"
  unfolding push_all_def by (induction cs arbitrary: a) simp_all

text \<open>The first chunk pushed for an index is the one that counts.\<close>

definition chunk_for :: "attachment_chunk list \<Rightarrow> u32 \<Rightarrow> bytes option" where
  "chunk_for cs i = map_option ac_data (find (\<lambda>c. ac_chunk_index c = i) cs)"

lemma chunk_for_None: "chunk_for cs i = None \<longleftrightarrow> i \<notin> ac_chunk_index ` set cs"
  by (auto simp: chunk_for_def find_None_iff)

lemma push_all_lookup:
  "map_of (aa_received (push_all cs a)) i =
     (case map_of (aa_received a) i of Some d \<Rightarrow> Some d
      | None \<Rightarrow> if i < am_chunk_count (aa_manifest a) then chunk_for cs i else None)"
proof (induction cs arbitrary: a)
  case Nil
  then show ?case by (simp add: push_all_def chunk_for_def split: option.split)
next
  case (Cons c cs)
  have "push_all (c # cs) a = push_all cs (fst (assembler_push c a))" by (simp add: push_all_def)
  then show ?case unfolding Cons.IH
    by (auto simp: Cons.IH assembler_push_def chunk_for_def map_add_def not_le split: option.splits)
qed

lemma received_indices:
  "fst ` set (aa_received (push_all cs (assembler_new m))) = {i \<in> ac_chunk_index ` set cs. i < am_chunk_count m}"
proof -
  have "i \<in> fst ` set (aa_received (push_all cs (assembler_new m))) \<longleftrightarrow> i \<in> ac_chunk_index ` set cs \<and> i < am_chunk_count m" for i
    using push_all_lookup [of cs "assembler_new m" i] chunk_for_None [of cs i]
      map_of_eq_None_iff [of "aa_received (push_all cs (assembler_new m))" i]
    by (auto simp: assembler_new_def split: if_splits)
  then show ?thesis by blast
qed

text \<open>What assembly should yield: the chunks in the order of their indices.\<close>

definition missing_chunk :: "attachment_manifest \<Rightarrow> attachment_chunk list \<Rightarrow> bool" where
  "missing_chunk m cs \<longleftrightarrow> (\<exists>i < am_chunk_count m. chunk_for cs i = None)"

definition joined :: "attachment_manifest \<Rightarrow> attachment_chunk list \<Rightarrow> bytes" where
  "joined m cs = concat (map (\<lambda>k. the (chunk_for cs (word_of_nat k))) [0..<unat (am_chunk_count m)])"

lemma length_received:
  "length (aa_received (push_all cs (assembler_new m))) = card {i \<in> ac_chunk_index ` set cs. i < am_chunk_count m}"
proof -
  have "assembler_wf (push_all cs (assembler_new m))" by (simp add: push_all_wf)
  then show ?thesis unfolding received_indices [symmetric] assembler_wf_def
    using distinct_card [of "map fst (aa_received (push_all cs (assembler_new m)))"] by simp
qed

lemma received_less_iff:
  "(word_of_nat (length (aa_received (push_all cs (assembler_new m)))) < am_chunk_count m) = missing_chunk m cs"
proof -
  let ?I = "{i \<in> ac_chunk_index ` set cs. i < am_chunk_count m}"
  have le: "card ?I \<le> unat (am_chunk_count m)" using card_mono [of "{i. i < am_chunk_count m}" ?I] by (force simp: card_index_set)
  then have "card ?I < 2 ^ 32" using unat_bound32 [of "am_chunk_count m"] by simp
  then have "word_of_nat (card ?I) < am_chunk_count m \<longleftrightarrow> card ?I < unat (am_chunk_count m)" by (simp add: word_less_nat_alt)
  also have "\<dots> \<longleftrightarrow> ?I \<noteq> {i. i < am_chunk_count m}"
    using card_subset_eq [of "{i. i < am_chunk_count m}" ?I] card_index_set [of "am_chunk_count m"] le by fastforce
  also have "\<dots> \<longleftrightarrow> missing_chunk m cs" by (auto simp: missing_chunk_def chunk_for_None)
  finally show ?thesis by (simp add: length_received)
qed

lemma assemble_result:
  "assemble sha bits alloc (push_all cs (assembler_new m)) =
     (if missing_chunk m cs
      then Some (Inl (Incomplete (word_of_nat (card {i \<in> ac_chunk_index ` set cs. i < am_chunk_count m})) (am_chunk_count m)))
      else if \<not> reserves bits alloc (am_total_size m) then None
      else if sha (joined m cs) = am_sha256 m then Some (Inr (joined m cs)) else Some (Inl HashMismatch))"
proof -
  let ?a = "push_all cs (assembler_new m)"
  have man: "aa_manifest ?a = m" by (simp add: assembler_new_def)
  show ?thesis
  proof (cases "missing_chunk m cs")
    case True
    then show ?thesis using received_less_iff [of cs m] man by (simp add: assemble_def Let_def length_received)
  next
    case False
    have look: "map_of (aa_received ?a) i = chunk_for cs i" "chunk_for cs i \<noteq> None"
      if "i \<in> set (map word_of_nat [0..<unat (am_chunk_count m)])" for i :: u32
    proof -
      have "i \<in> {i. i < am_chunk_count m}" unfolding index_set using that by simp
      then have "i < am_chunk_count m" by simp
      then show "map_of (aa_received ?a) i = chunk_for cs i" "chunk_for cs i \<noteq> None"
        using False push_all_lookup [of cs "assembler_new m" i] by (auto simp: assembler_new_def missing_chunk_def)
    qed
    have "collect_chunks (aa_received ?a) (map word_of_nat [0..<unat (am_chunk_count m)])
        = Some (concat (map (\<lambda>i. the (map_of (aa_received ?a) i)) (map word_of_nat [0..<unat (am_chunk_count m)])))"
      by (rule collect_chunks_Some) (metis look)
    also have "map (\<lambda>i. the (map_of (aa_received ?a) i)) (map word_of_nat [0..<unat (am_chunk_count m)])
        = map (\<lambda>k. the (chunk_for cs (word_of_nat k))) [0..<unat (am_chunk_count m)]"
      using look(1) by (simp add: comp_def)
    finally have "collect_chunks (aa_received ?a) (map word_of_nat [0..<unat (am_chunk_count m)]) = Some (joined m cs)"
      by (simp add: joined_def)
    then show ?thesis using False received_less_iff [of cs m] man by (simp add: assemble_def Let_def)
  qed
qed

text \<open>
  C26. What assembly does, whatever manifest a peer sends and whatever chunks arrive in whatever order and multiplicity.
  While some index of the manifest's range has no chunk it returns \<^verbatim>\<open>Incomplete\<close> with the number of different indices
  in range that have arrived. Once every index has one, the process is lost (by a panic or an abort) exactly when the
  declared size, which nothing ties to the chunks, cannot be reserved; otherwise the first chunk of every index, joined
  in the order of the indices, is returned if its hash is the manifest's, and \<^verbatim>\<open>HashMismatch\<close> if it is not. (Copies
  of bytes that have arrived are taken to succeed.)
\<close>

theorem assemble_outcome:
  "assemble sha bits alloc (push_all cs (assembler_new m)) =
     (if missing_chunk m cs
      then Some (Inl (Incomplete (word_of_nat (card {i \<in> ac_chunk_index ` set cs. i < am_chunk_count m})) (am_chunk_count m)))
      else if \<not> reserves bits alloc (am_total_size m) then None
      else if sha (joined m cs) = am_sha256 m then Some (Inr (joined m cs)) else Some (Inl HashMismatch))"
  by (rule assemble_result)

text \<open>One chunk of one byte, under a manifest that declares an arbitrary size.\<close>

definition toy_manifest :: "u64 \<Rightarrow> attachment_manifest" where
  "toy_manifest n = \<lparr>am_attachment_id = 1, am_filename = ''a'', am_mime_type = ''b'', am_total_size = n,
     am_chunk_count = 1, am_sha256 = [7]\<rparr>"

definition toy_chunk :: attachment_chunk where
  "toy_chunk = \<lparr>ac_attachment_id = 1, ac_chunk_index = 0, ac_chunk_count = 1, ac_data = [7]\<rparr>"

theorem assemble_outcome_witness:
  "assemble rev 64 (\<lambda>n. n < 1000) (push_all [toy_chunk] (assembler_new (toy_manifest 1))) = Some (Inr [7])
   \<and> assemble rev 64 (\<lambda>n. n < 1000) (push_all [toy_chunk] (assembler_new (toy_manifest 4000000000))) = None
   \<and> assemble rev 32 (\<lambda>n. n < 1000) (push_all [toy_chunk] (assembler_new (toy_manifest 4294967297))) = Some (Inr [7])
   \<and> assemble rev 64 (\<lambda>n. True) (push_all [toy_chunk] (assembler_new (toy_manifest 9223372036854775808))) = None"
proof -
  have "\<not> missing_chunk (toy_manifest n) [toy_chunk]" for n
    by (simp add: missing_chunk_def chunk_for_def toy_chunk_def toy_manifest_def word_less_nat_alt unat_eq_0)
  moreover have "joined (toy_manifest n) [toy_chunk] = [7]" for n
    by (simp add: joined_def chunk_for_def toy_chunk_def toy_manifest_def)
  ultimately show ?thesis
    by (simp add: assemble_outcome reserves_def isize_max_def toy_manifest_def Let_def)
qed

subsection \<open>Round trip\<close>

definition chunk_of :: "u64 \<Rightarrow> bytes list \<Rightarrow> nat \<Rightarrow> attachment_chunk" where
  "chunk_of aid pieces i =
     \<lparr>ac_attachment_id = aid, ac_chunk_index = word_of_nat i,
      ac_chunk_count = word_of_nat (length pieces), ac_data = pieces ! i\<rparr>"

lemma sender_chunks:
  "as_chunks (attachment_sender_new sha cc aid nm mt data sz) =
     map (\<lambda>i. chunk_to_cbor cc (chunk_of aid (chunks (max sz 1) data) i)) [0..<length (chunks (max sz 1) data)]"
  by (rule nth_equalityI)
    (simp_all add: attachment_sender_new_def Let_def chunk_of_def nth_enumerate_eq del: upt_Suc)

definition receive_chunks ::
    "attachment_chunk serialiser \<Rightarrow> bytes list \<Rightarrow> attachment_assembler \<Rightarrow> attachment_assembler" where
  "receive_chunks cc ws a =
     fold (\<lambda>w a. case chunk_from_cbor cc w of Inl _ \<Rightarrow> a | Inr c \<Rightarrow> fst (assembler_push c a)) ws a"

lemma receive_chunks_push:
  assumes "reads_back cc"
  shows "receive_chunks cc (map (chunk_to_cbor cc) cs) a = push_all cs a"
  unfolding receive_chunks_def push_all_def
  by (induction cs arbitrary: a) (simp_all add: assms chunk_from_cbor_def chunk_to_cbor_def)

lemma assemble_genuine:
  assumes "reads_back cc" "length pieces < 2 ^ 32" "set cs = chunk_of aid pieces ` {0..<length pieces}"
    "am_chunk_count m = word_of_nat (length pieces)" "am_sha256 m = sha (concat pieces)"
    "reserves bits alloc (am_total_size m)"
  shows "assemble sha bits alloc (push_all cs (assembler_new m)) = Some (Inr (concat pieces))"
proof -
  have T: "unat (am_chunk_count m) = length pieces" using assms(2,4) by simp
  have look: "chunk_for cs (word_of_nat k) = Some (pieces ! k)" if k: "k < length pieces" for k
  proof -
    have idx: "ac_chunk_index (chunk_of aid pieces j) = word_of_nat k \<longleftrightarrow> j = k" if "j < length pieces" for j
      using that k assms(2) unat_word_of_nat32 [of j] unat_word_of_nat32 [of k] unfolding chunk_of_def
      by (metis attachment_chunk.select_convs(2) less_trans)
    have "chunk_of aid pieces k \<in> set cs" using k assms(3) by simp
    then have "word_of_nat k \<in> ac_chunk_index ` set cs" by (rule rev_image_eqI) (simp add: chunk_of_def)
    then have "chunk_for cs (word_of_nat k) \<noteq> None" using chunk_for_None by blast
    then obtain c where c: "find (\<lambda>c. ac_chunk_index c = word_of_nat k) cs = Some c" by (auto simp: chunk_for_def)
    then have "c \<in> set cs" "ac_chunk_index c = word_of_nat k" by (auto simp: find_Some_iff)
    then have "c = chunk_of aid pieces k" using idx assms(3) by auto
    then show ?thesis using c by (simp add: chunk_for_def chunk_of_def)
  qed
  have "\<not> missing_chunk m cs"
  proof
    assume "missing_chunk m cs"
    then obtain i where i: "i < am_chunk_count m" "chunk_for cs i = None" by (auto simp: missing_chunk_def)
    then have "unat i < length pieces" using T by (simp add: word_less_nat_alt)
    from look [OF this] i(2) show False by (simp add: word_of_nat_unat)
  qed
  moreover have "joined m cs = concat pieces"
  proof -
    have "map (\<lambda>k. the (chunk_for cs (word_of_nat k))) [0..<length pieces] = pieces"
      by (rule nth_equalityI) (simp_all add: look)
    then show ?thesis by (simp add: joined_def T)
  qed
  ultimately show ?thesis using assms(5,6) by (simp add: assemble_result)
qed

text \<open>
  C25. Attachments arrive intact. The chunks a sender produces, delivered in any order, with any
  repetitions, and with undecodable bytes in between, assemble at the receiver to exactly the original
  data, for every chunk size (zero counts as one), if there are fewer than 2 ^ 32 chunks (and the receiver can hold
  a vector of that length).
\<close>

theorem attachment_round_trip:
  assumes "reads_back cc"
    and "sent = attachment_sender_new sha cc aid filename mime data chunk_size"
    and "length (chunks (max chunk_size 1) data) < 2 ^ 32" and "0 < bits" and "bits \<le> 64" and "length data \<le> isize_max bits" and "alloc (length data)"
    and "set (as_chunks sent) \<subseteq> set ws"
    and "\<forall>w\<in>set ws. w \<in> set (as_chunks sent) \<or> (\<exists>e. chunk_from_cbor cc w = Inl e)"
  shows "assemble sha bits alloc (receive_chunks cc ws (assembler_new (as_manifest sent))) = Some (Inr data)"
proof -
  let ?pieces = "chunks (max chunk_size 1) data"
  let ?good = "\<lambda>w. w \<in> set (as_chunks sent)"
  have sent_eq: "set (as_chunks sent) = chunk_to_cbor cc ` chunk_of aid ?pieces ` {0..<length ?pieces}"
    using assms(2) by (simp add: sender_chunks image_image)
  have "receive_chunks cc ws a = receive_chunks cc (filter ?good ws) a" for a
    using assms(9) unfolding receive_chunks_def by (induction ws arbitrary: a) auto
  moreover define cs where "cs = map (\<lambda>w. case chunk_from_cbor cc w of Inr c \<Rightarrow> c) (filter ?good ws)"
  have dec: "chunk_from_cbor cc (chunk_to_cbor cc c) = Inr c" for c
    using assms(1) by (simp add: chunk_from_cbor_def chunk_to_cbor_def)
  have "filter ?good ws = map (chunk_to_cbor cc) cs"
    unfolding cs_def by (rule sym, simp, rule map_idI) (auto simp: sent_eq dec)
  ultimately have "receive_chunks cc ws (assembler_new (as_manifest sent)) = push_all cs (assembler_new (as_manifest sent))"
    using receive_chunks_push [OF assms(1)] by simp
  moreover have "set cs = chunk_of aid ?pieces ` {0..<length ?pieces}"
  proof -
    have "set (filter ?good ws) = set (as_chunks sent)" using assms(8) by auto
    then show ?thesis unfolding cs_def set_map by (simp add: sent_eq image_image dec)
  qed
  moreover have "am_chunk_count (as_manifest sent) = word_of_nat (length ?pieces)"
    "am_sha256 (as_manifest sent) = sha (concat ?pieces)"
    using assms(2) by (simp_all add: attachment_sender_new_def Let_def)
  moreover have "reserves bits alloc (am_total_size (as_manifest sent))"
  proof -
    have "isize_max bits < 2 ^ bits" using assms(4) by (auto simp: isize_max_def intro: less_le_trans [of _ "2 ^ (bits - 1)"])
    moreover have "(2 :: nat) ^ bits \<le> 2 ^ 64" by (rule power_increasing [OF assms(5)]) simp
    ultimately have "length data < 2 ^ bits" "length data < 2 ^ 64" using assms(6) by linarith+
    then show ?thesis using assms(2,6,7) by (simp add: attachment_sender_new_def Let_def reserves_def unat_of_nat)
  qed
  ultimately show ?thesis using assemble_genuine [OF assms(1,3), of cs aid "as_manifest sent" sha bits alloc] by simp
qed

definition toy_chunk_codec :: "attachment_chunk serialiser" where
  "toy_chunk_codec = field_codec 4
     (\<lambda>c. [bits_of (ac_attachment_id c), bits_of (ac_chunk_index c), bits_of (ac_chunk_count c), ac_data c])
     (\<lambda>fs. \<lparr>ac_attachment_id = of_bits (fs ! 0), ac_chunk_index = of_bits (fs ! 1),
       ac_chunk_count = of_bits (fs ! 2), ac_data = fs ! 3\<rparr>)"

lemma toy_chunk_codec [simp]: "reads_back toy_chunk_codec"
  unfolding toy_chunk_codec_def by (rule field_codec_reads_back) (simp_all add: eval_nat_numeral)

theorem attachment_round_trip_witness:
  "assemble rev 64 (\<lambda>n. n < 1000) (receive_chunks toy_chunk_codec
       (rev (as_chunks (attachment_sender_new rev toy_chunk_codec 5 ''a'' ''b'' [1, 2, 3, 4, 5] 2)))
       (assembler_new (as_manifest (attachment_sender_new rev toy_chunk_codec 5 ''a'' ''b'' [1, 2, 3, 4, 5] 2))))
     = Some (Inr [1, 2, 3, 4, 5])"
  by (rule attachment_round_trip [OF toy_chunk_codec refl]) (simp_all add: chunks.simps isize_max_def)

end
