(* ===== verification/Gap_Jitter.thy ===== *)
theory Gap_Jitter
  imports Gap_Payload
begin

section \<open>Jitter buffer (\<^verbatim>\<open>gap-protocol/jitter.rs\<close>)\<close>

text \<open>
  The reorder window of audio frames, one queue per source. The invariant: every queue is strictly
  sorted by sequence number, no longer than the capacity, and holds nothing below the number expected
  next. Construction panics (\<open>None\<close>) on capacity zero.
\<close>

record source_state =
  ss_waiting :: "gap_payload list"
  ss_next :: "u32 option"

definition source_new :: source_state where
  "source_new = \<lparr>ss_waiting = [], ss_next = None\<rparr>"

text \<open>The index of the first element that satisfies a predicate, or the length.\<close>

fun position_or_len :: "('a \<Rightarrow> bool) \<Rightarrow> 'a list \<Rightarrow> nat" where
  "position_or_len P [] = 0"
| "position_or_len P (x # xs) = (if P x then 0 else Suc (position_or_len P xs))"

definition source_insert ::
    "gap_payload \<Rightarrow> nat \<Rightarrow> source_state \<Rightarrow> source_state \<times> gap_payload option" where
  "source_insert p capacity s =
     (if \<exists>q\<in>set (ss_waiting s). a_rtp_sequence q = a_rtp_sequence p then (s, None)
      else
      (let pos = position_or_len (\<lambda>q. a_rtp_sequence q > a_rtp_sequence p) (ss_waiting s);
           waiting = take pos (ss_waiting s) @ [p] @ drop pos (ss_waiting s)
       in if length waiting > capacity
          then (case waiting of [] \<Rightarrow> (s\<lparr>ss_waiting := []\<rparr>, None)
                | old # rest \<Rightarrow> (s\<lparr>ss_waiting := rest\<rparr>, Some old))
          else (s\<lparr>ss_waiting := waiting\<rparr>, None)))"

datatype jitter_push_result = JAccepted | JLate | JEvicted gap_payload

record jitter_buffer =
  jb_capacity :: nat
  jb_sources :: "u32 \<rightharpoonup> source_state"

definition jitter_new :: "nat \<Rightarrow> jitter_buffer option" where
  "jitter_new capacity =
     (if capacity > 0 then Some \<lparr>jb_capacity = capacity, jb_sources = Map.empty\<rparr> else None)"

definition jitter_push :: "gap_payload \<Rightarrow> jitter_buffer \<Rightarrow> jitter_buffer \<times> jitter_push_result" where
  "jitter_push frame j =
     (let src = a_media_source_id frame; st = opt_or (jb_sources j src) source_new;
          put = (\<lambda>st'. j\<lparr>jb_sources := (jb_sources j)(src \<mapsto> st')\<rparr>)
      in if (case ss_next st of Some nxt \<Rightarrow> a_rtp_sequence frame < nxt | None \<Rightarrow> False)
         then (put st, JLate)
         else (case source_insert frame (jb_capacity j) st of
                 (st', Some evicted) \<Rightarrow> (put st', JEvicted evicted)
               | (st', None) \<Rightarrow> (put st', JAccepted)))"

definition pop_in_order :: "u32 \<Rightarrow> jitter_buffer \<Rightarrow> jitter_buffer \<times> gap_payload option" where
  "pop_in_order src j =
     (case jb_sources j src of None \<Rightarrow> (j, None)
      | Some st \<Rightarrow>
        (case ss_waiting st of [] \<Rightarrow> (j, None)
         | head # rest \<Rightarrow>
           (if (case ss_next st of Some nxt \<Rightarrow> a_rtp_sequence head \<noteq> nxt | None \<Rightarrow> False) then (j, None)
            else (j\<lparr>jb_sources := (jb_sources j)(src \<mapsto>
                     st\<lparr>ss_waiting := rest, ss_next := Some (a_rtp_sequence head + 1)\<rparr>)\<rparr>, Some head))))"

definition pop_force :: "u32 \<Rightarrow> jitter_buffer \<Rightarrow> jitter_buffer \<times> gap_payload option" where
  "pop_force src j =
     (case jb_sources j src of None \<Rightarrow> (j, None)
      | Some st \<Rightarrow>
        (case ss_waiting st of [] \<Rightarrow> (j, None)
         | head # rest \<Rightarrow>
           (j\<lparr>jb_sources := (jb_sources j)(src \<mapsto>
              st\<lparr>ss_waiting := rest, ss_next := Some (a_rtp_sequence head + 1)\<rparr>)\<rparr>, Some head)))"

definition len_for :: "u32 \<Rightarrow> jitter_buffer \<Rightarrow> nat" where
  "len_for src j = (case jb_sources j src of None \<Rightarrow> 0 | Some st \<Rightarrow> length (ss_waiting st))"

definition jitter_clear :: "jitter_buffer \<Rightarrow> jitter_buffer" where
  "jitter_clear j = j\<lparr>jb_sources := Map.empty\<rparr>"

subsection \<open>The invariant\<close>

definition seq_less :: "gap_payload \<Rightarrow> gap_payload \<Rightarrow> bool" where
  "seq_less p q \<longleftrightarrow> a_rtp_sequence p < a_rtp_sequence q"

definition source_wf :: "nat \<Rightarrow> source_state \<Rightarrow> bool" where
  "source_wf capacity s \<longleftrightarrow> sorted_wrt seq_less (ss_waiting s) \<and> length (ss_waiting s) \<le> capacity
     \<and> (\<forall>nxt. ss_next s = Some nxt \<longrightarrow> (\<forall>q\<in>set (ss_waiting s). nxt \<le> a_rtp_sequence q))"

definition jitter_wf :: "jitter_buffer \<Rightarrow> bool" where
  "jitter_wf j \<longleftrightarrow> 0 < jb_capacity j \<and> (\<forall>st\<in>ran (jb_sources j). source_wf (jb_capacity j) st)"

lemma source_wf_new [simp]: "source_wf c source_new"
  by (simp add: source_wf_def source_new_def)

text \<open>Inserting before the first greater element keeps a strictly sorted list sorted.\<close>

lemma insert_sorted_at:
  assumes "sorted_wrt seq_less xs" "\<forall>q\<in>set xs. a_rtp_sequence q \<noteq> a_rtp_sequence p"
  shows "sorted_wrt seq_less
    (take (position_or_len (\<lambda>q. a_rtp_sequence q > a_rtp_sequence p) xs) xs @ [p]
     @ drop (position_or_len (\<lambda>q. a_rtp_sequence q > a_rtp_sequence p) xs) xs)"
  using assms
proof (induction xs)
  case (Cons x xs)
  show ?case
  proof (cases "a_rtp_sequence x > a_rtp_sequence p")
    case True
    then show ?thesis using Cons.prems by (auto simp: seq_less_def)
  next
    case False
    then have "seq_less x p" using Cons.prems(2) by (auto simp: seq_less_def not_less order.order_iff_strict)
    then show ?thesis using False Cons by (auto dest: in_set_takeD in_set_dropD)
  qed
qed simp

lemma set_insert_at: "set (take k xs @ [p] @ drop k xs) = insert p (set xs)"
  by (metis append_take_drop_id list.simps(15) set_append Un_insert_right append_Cons append_Nil Un_commute)

lemma source_insert_wf:
  assumes "source_wf c s" "0 < c" "\<forall>nxt. ss_next s = Some nxt \<longrightarrow> nxt \<le> a_rtp_sequence p"
  shows "source_wf c (fst (source_insert p c s))" and "ss_next (fst (source_insert p c s)) = ss_next s"
proof -
  let ?k = "position_or_len (\<lambda>q. a_rtp_sequence q > a_rtp_sequence p) (ss_waiting s)"
  let ?w = "take ?k (ss_waiting s) @ [p] @ drop ?k (ss_waiting s)"
  have "source_wf c (fst (source_insert p c s)) \<and> ss_next (fst (source_insert p c s)) = ss_next s"
  proof (cases "\<exists>q\<in>set (ss_waiting s). a_rtp_sequence q = a_rtp_sequence p")
    case True
    then show ?thesis using assms(1) by (simp add: source_insert_def)
  next
    case False
    define w where "w = ?w"
    have sorted: "sorted_wrt seq_less w"
      using insert_sorted_at [of "ss_waiting s" p] assms(1) False by (auto simp: source_wf_def w_def)
    have len: "length w = Suc (length (ss_waiting s))" by (simp add: w_def)
    have low: "\<forall>nxt. ss_next s = Some nxt \<longrightarrow> (\<forall>q\<in>set w. nxt \<le> a_rtp_sequence q)"
      using assms(1,3) unfolding w_def set_insert_at by (auto simp: source_wf_def)
    obtain old rest where w: "w = old # rest" using len by (cases w) auto
    have ins: "source_insert p c s = (if Suc (length (ss_waiting s)) > c
        then (s\<lparr>ss_waiting := rest\<rparr>, Some old) else (s\<lparr>ss_waiting := w\<rparr>, None))"
      unfolding source_insert_def Let_def w_def [symmetric] using False w len by simp
    have "length rest \<le> c" using w len assms(1) by (simp add: source_wf_def)
    then show ?thesis using sorted low w len unfolding ins by (auto simp: source_wf_def)
  qed
  then show "source_wf c (fst (source_insert p c s))" "ss_next (fst (source_insert p c s)) = ss_next s" by simp_all
qed

lemma jitter_wf_upd:
  "jitter_wf j \<Longrightarrow> source_wf (jb_capacity j) st \<Longrightarrow> jitter_wf (j\<lparr>jb_sources := (jb_sources j)(src \<mapsto> st)\<rparr>)"
  by (auto simp: jitter_wf_def ran_def)

lemma jitter_wf_source: "jitter_wf j \<Longrightarrow> source_wf (jb_capacity j) (opt_or (jb_sources j src) source_new)"
  by (cases "jb_sources j src") (auto simp: jitter_wf_def ran_def)

lemma jitter_push_wf:
  assumes "jitter_wf j"
  shows "jitter_wf (fst (jitter_push p j))"
proof -
  let ?st = "opt_or (jb_sources j (a_media_source_id p)) source_new"
  note wf = jitter_wf_source [OF assms, of "a_media_source_id p"]
  show ?thesis
  proof (cases "case ss_next ?st of Some nxt \<Rightarrow> a_rtp_sequence p < nxt | None \<Rightarrow> False")
    case True
    then show ?thesis using jitter_wf_upd [OF assms wf] by (simp add: jitter_push_def Let_def)
  next
    case False
    then have "\<forall>nxt. ss_next ?st = Some nxt \<longrightarrow> nxt \<le> a_rtp_sequence p" by auto
    from source_insert_wf(1) [OF wf _ this] assms
    have "source_wf (jb_capacity j) (fst (source_insert p (jb_capacity j) ?st))" by (simp add: jitter_wf_def)
    from jitter_wf_upd [OF assms this] show ?thesis
      using False by (auto simp: jitter_push_def Let_def split: prod.splits option.splits)
  qed
qed

lemma pop_cases:
  assumes "pop_in_order src j = (j', Some p) \<or> pop_force src j = (j', Some p)"
  obtains st rest where "jb_sources j src = Some st" "ss_waiting st = p # rest"
    "j' = j\<lparr>jb_sources := (jb_sources j)(src \<mapsto> st\<lparr>ss_waiting := rest, ss_next := Some (a_rtp_sequence p + 1)\<rparr>)\<rparr>"
  using assms by (auto simp: pop_in_order_def pop_force_def split: option.splits list.splits if_splits)

lemma pop_none: "snd (pop_in_order src j) = None \<Longrightarrow> fst (pop_in_order src j) = j"
  "snd (pop_force src j) = None \<Longrightarrow> fst (pop_force src j) = j"
  by (auto simp: pop_in_order_def pop_force_def split: option.splits list.splits if_splits)

text \<open>A popped frame is the smallest of its queue; the number after it is not above what is left.\<close>

lemma popped_source_wf:
  assumes "source_wf c st" "ss_waiting st = p # rest"
  shows "source_wf c (st\<lparr>ss_waiting := rest, ss_next := Some (a_rtp_sequence p + 1)\<rparr>)"
proof -
  have "a_rtp_sequence p + 1 \<le> a_rtp_sequence q" if "q \<in> set rest" for q
  proof -
    have "a_rtp_sequence p < a_rtp_sequence q" using assms that by (auto simp: source_wf_def seq_less_def)
    then show ?thesis by unat_arith
  qed
  then show ?thesis using assms by (auto simp: source_wf_def)
qed

lemma pop_wf:
  assumes "jitter_wf j" "pop_in_order src j = (j', Some p) \<or> pop_force src j = (j', Some p)"
  shows "jitter_wf j'"
  using assms(2)
proof (rule pop_cases)
  fix st rest
  assume st: "jb_sources j src = Some st" "ss_waiting st = p # rest"
    and j': "j' = j\<lparr>jb_sources := (jb_sources j)(src \<mapsto> st\<lparr>ss_waiting := rest, ss_next := Some (a_rtp_sequence p + 1)\<rparr>)\<rparr>"
  have "source_wf (jb_capacity j) st" using jitter_wf_source [OF assms(1), of src] st by simp
  then show ?thesis using jitter_wf_upd [OF assms(1) popped_source_wf] st j' by blast
qed

subsection \<open>Runs\<close>

datatype jitter_op = JPush gap_payload | JPopInOrder u32 | JPopForce u32

text \<open>A run of the buffer, with the frames popped and the source each was asked for.\<close>

fun jitter_run :: "jitter_op list \<Rightarrow> jitter_buffer \<Rightarrow> jitter_buffer \<times> (u32 \<times> gap_payload) list" where
  "jitter_run [] j = (j, [])"
| "jitter_run (JPush p # ops) j = jitter_run ops (fst (jitter_push p j))"
| "jitter_run (JPopInOrder src # ops) j =
     (case pop_in_order src j of
        (j1, None) \<Rightarrow> jitter_run ops j1
      | (j1, Some p) \<Rightarrow> (case jitter_run ops j1 of (j2, ps) \<Rightarrow> (j2, (src, p) # ps)))"
| "jitter_run (JPopForce src # ops) j =
     (case pop_force src j of
        (j1, None) \<Rightarrow> jitter_run ops j1
      | (j1, Some p) \<Rightarrow> (case jitter_run ops j1 of (j2, ps) \<Rightarrow> (j2, (src, p) # ps)))"

definition next_of :: "u32 \<Rightarrow> jitter_buffer \<Rightarrow> u32" where
  "next_of src j = opt_or (ss_next (opt_or (jb_sources j src) source_new)) 0"

definition popped_of :: "u32 \<Rightarrow> (u32 \<times> gap_payload) list \<Rightarrow> u32 list" where
  "popped_of src ps = map (\<lambda>(_, p). a_rtp_sequence p) (filter (\<lambda>(s, _). s = src) ps)"

lemma next_of_push: "next_of src (fst (jitter_push p j)) = next_of src j"
proof -
  let ?src = "a_media_source_id p"
  let ?st = "opt_or (jb_sources j ?src) source_new"
  obtain st' ev where ins: "source_insert p (jb_capacity j) ?st = (st', ev)" by force
  have "ss_next (fst (source_insert p c st)) = ss_next st" for c st
    by (auto simp: source_insert_def Let_def split: list.splits)
  from this [of "jb_capacity j" ?st] have "ss_next st' = ss_next ?st" by (simp add: ins)
  moreover have "fst (jitter_push p j) = j\<lparr>jb_sources := (jb_sources j)(?src \<mapsto> ?st)\<rparr>
      \<or> fst (jitter_push p j) = j\<lparr>jb_sources := (jb_sources j)(?src \<mapsto> st')\<rparr>"
    by (simp add: jitter_push_def Let_def ins split: option.split)
  ultimately show ?thesis by (auto simp: next_of_def)
qed

lemma next_of_pop:
  assumes "jitter_wf j" "pop_in_order src' j = (j', Some p) \<or> pop_force src' j = (j', Some p)"
  shows "next_of src j' = (if src = src' then a_rtp_sequence p + 1 else next_of src j)"
    and "next_of src' j \<le> a_rtp_sequence p"
proof -
  obtain st rest where st: "jb_sources j src' = Some st" "ss_waiting st = p # rest"
    "j' = j\<lparr>jb_sources := (jb_sources j)(src' \<mapsto> st\<lparr>ss_waiting := rest, ss_next := Some (a_rtp_sequence p + 1)\<rparr>)\<rparr>"
    using assms(2) by (rule pop_cases)
  show "next_of src j' = (if src = src' then a_rtp_sequence p + 1 else next_of src j)"
    using st by (simp add: next_of_def)
  show "next_of src' j \<le> a_rtp_sequence p"
    using jitter_wf_source [OF assms(1), of src'] st
    by (cases "ss_next st") (auto simp: next_of_def source_wf_def)
qed

lemma popped_of_Cons:
  "popped_of src ((s, p) # ps) = (if s = src then a_rtp_sequence p # popped_of src ps else popped_of src ps)"
  by (simp add: popped_of_def)

lemma pop_step:
  assumes "jitter_wf j" "pop_in_order s j = (j1, Some p) \<or> pop_force s j = (j1, Some p)"
    and "a_rtp_sequence p < - 1"
    and "sorted_wrt (<) (popped_of src ps) \<and> (\<forall>q\<in>set (popped_of src ps). next_of src j1 \<le> q)"
  shows "sorted_wrt (<) (popped_of src ((s, p) # ps))
    \<and> (\<forall>q\<in>set (popped_of src ((s, p) # ps)). next_of src j \<le> q)"
proof (cases "s = src")
  case True
  have "a_rtp_sequence p < a_rtp_sequence p + 1" using assms(3) by unat_arith
  then have "\<forall>q\<in>set (popped_of src ps). a_rtp_sequence p < q"
    using assms(4) next_of_pop(1) [OF assms(1,2), of src] True by auto
  moreover have "next_of src j \<le> a_rtp_sequence p" using next_of_pop(2) [OF assms(1,2)] True by simp
  ultimately show ?thesis using assms(4) True by (auto simp: popped_of_Cons)
next
  case False
  then show ?thesis using assms(4) next_of_pop(1) [OF assms(1,2), of src] by (simp add: popped_of_Cons)
qed

text \<open>
  C33. The jitter buffer restores order. Whatever frames are pushed, and however in-order and forced
  pops are mixed, the frames popped for a source come out with strictly increasing sequence numbers,
  none below the number expected when the run began (as long as none has the largest 32-bit number);
  and no queue ever exceeds the capacity.
\<close>

theorem jitter_pops_in_order:
  assumes "jitter_wf j" and "jitter_run ops j = (j', ps)" and "\<forall>(s, p)\<in>set ps. a_rtp_sequence p < - 1"
  shows "sorted_wrt (<) (popped_of src ps) \<and> (\<forall>q\<in>set (popped_of src ps). next_of src j \<le> q)
    \<and> jitter_wf j' \<and> len_for src j' \<le> jb_capacity j'"
proof -
  have "sorted_wrt (<) (popped_of src ps) \<and> (\<forall>q\<in>set (popped_of src ps). next_of src j \<le> q) \<and> jitter_wf j'"
    using assms
  proof (induction ops j arbitrary: ps rule: jitter_run.induct)
    case (1 j)
    then show ?case by (simp add: popped_of_def)
  next
    case (2 p ops j)
    then show ?case using jitter_push_wf next_of_push by simp
  next
    case (3 s ops j)
    show ?case
    proof (cases "pop_in_order s j")
      case (Pair j1 r)
      show ?thesis
      proof (cases r)
        case None
        then show ?thesis using 3 Pair pop_none(1) [of s j] by simp
      next
        case (Some p)
        obtain qs where qs: "jitter_run ops j1 = (j', qs)" "ps = (s, p) # qs"
          using 3(4) Pair Some by (auto split: prod.splits)
        have pop: "pop_in_order s j = (j1, Some p) \<or> pop_force s j = (j1, Some p)" using Pair Some by simp
        show ?thesis
          using "3.IH"(2) [OF Pair [symmetric] Some pop_wf [OF 3(3) pop] qs(1)] pop_step [OF 3(3) pop] 3(5) qs(2)
          by auto
      qed
    qed
  next
    case (4 s ops j)
    show ?case
    proof (cases "pop_force s j")
      case (Pair j1 r)
      show ?thesis
      proof (cases r)
        case None
        then show ?thesis using 4 Pair pop_none(2) [of s j] by simp
      next
        case (Some p)
        obtain qs where qs: "jitter_run ops j1 = (j', qs)" "ps = (s, p) # qs"
          using 4(4) Pair Some by (auto split: prod.splits)
        have pop: "pop_in_order s j = (j1, Some p) \<or> pop_force s j = (j1, Some p)" using Pair Some by simp
        show ?thesis
          using "4.IH"(2) [OF Pair [symmetric] Some pop_wf [OF 4(3) pop] qs(1)] pop_step [OF 4(3) pop] 4(5) qs(2)
          by auto
      qed
    qed
  qed
  moreover have "len_for src j' \<le> jb_capacity j'" if "jitter_wf j'"
    using jitter_wf_source [OF that, of src] by (cases "jb_sources j' src") (auto simp: len_for_def source_wf_def)
  ultimately show ?thesis by blast
qed

definition toy_frame :: "u32 \<Rightarrow> gap_payload" where
  "toy_frame sq = \<lparr>a_media_source_id = 1, a_rtp_sequence = sq, a_rtp_timestamp = 0, a_key_phase = 0, a_opus_frame = []\<rparr>"

lemma jitter_wf_empty: "0 < c \<Longrightarrow> jitter_wf \<lparr>jb_capacity = c, jb_sources = Map.empty\<rparr>"
  by (simp add: jitter_wf_def)

theorem jitter_pops_in_order_witness:
  "\<exists>j' ps. jitter_run [JPush (toy_frame 5), JPush (toy_frame 3), JPush (toy_frame 4), JPopInOrder 1, JPopInOrder 1,
        JPush (toy_frame 2), JPopForce 1] \<lparr>jb_capacity = 4, jb_sources = Map.empty\<rparr> = (j', ps)
    \<and> popped_of 1 ps = [3, 4, 5] \<and> sorted_wrt (<) (popped_of 1 ps)"
proof -
  let ?ops = "[JPush (toy_frame 5), JPush (toy_frame 3), JPush (toy_frame 4), JPopInOrder 1, JPopInOrder 1,
        JPush (toy_frame 2), JPopForce 1]"
  let ?j = "\<lparr>jb_capacity = 4, jb_sources = Map.empty\<rparr>"
  obtain j' ps where r: "jitter_run ?ops ?j = (j', ps)" by force
  have ps: "ps = [(1, toy_frame 3), (1, toy_frame 4), (1, toy_frame 5)]"
    using r by (auto simp: jitter_push_def pop_in_order_def pop_force_def source_insert_def source_new_def toy_frame_def)
  have "sorted_wrt (<) (popped_of 1 ps)"
    using jitter_pops_in_order [OF jitter_wf_empty r, of 1] ps by (simp add: toy_frame_def)
  then show ?thesis using r ps by (auto simp: popped_of_def toy_frame_def)
qed

text \<open>
  The buffer does not follow the sender's 16-bit wrap: once the frame 0xFFFF of a source has been
  popped, every further frame the sender can produce for it is late, whatever its number, and the
  buffer stays as it is.
\<close>

theorem jitter_stalls_after_wrap:
  assumes "pop_in_order src j = (j', Some p) \<or> pop_force src j = (j', Some p)"
    and "a_rtp_sequence p = 0xFFFF" and "a_media_source_id q = src" and "a_rtp_sequence q \<le> 0xFFFF"
  shows "jitter_push q j' = (j', JLate)"
proof -
  obtain st rest where st: "jb_sources j src = Some st"
    "j' = j\<lparr>jb_sources := (jb_sources j)(src \<mapsto> st\<lparr>ss_waiting := rest, ss_next := Some (a_rtp_sequence p + 1)\<rparr>)\<rparr>"
    using assms(1) by (rule pop_cases)
  have "a_rtp_sequence q < 0x10000" using assms(4) by unat_arith
  then show ?thesis using st assms(2,3) by (simp add: jitter_push_def Let_def)
qed

theorem jitter_stalls_after_wrap_witness:
  "let j1 = fst (jitter_push (toy_frame 0xFFFF) \<lparr>jb_capacity = 4, jb_sources = Map.empty\<rparr>);
       j2 = fst (pop_in_order 1 j1)
   in snd (pop_in_order 1 j1) = Some (toy_frame 0xFFFF) \<and> jitter_push (toy_frame 0) j2 = (j2, JLate)"
proof -
  let ?j1 = "fst (jitter_push (toy_frame 0xFFFF) \<lparr>jb_capacity = 4, jb_sources = Map.empty\<rparr>)"
  have pop: "pop_in_order 1 ?j1 = (fst (pop_in_order 1 ?j1), Some (toy_frame 0xFFFF))"
    by (simp add: jitter_push_def pop_in_order_def source_insert_def source_new_def toy_frame_def)
  have "jitter_push (toy_frame 0) (fst (pop_in_order 1 ?j1)) = (fst (pop_in_order 1 ?j1), JLate)"
    by (rule jitter_stalls_after_wrap [OF disjI1 [OF pop]]) (simp_all add: toy_frame_def)
  then show ?thesis using pop by (metis snd_conv)
qed

end
