(* ===== verification/Gsp_Roles.thy ===== *)
theory Gsp_Roles
  imports Gbp_Core
begin

section \<open>Roles and permissions (\<^verbatim>\<open>gsp-protocol/roles.rs\<close>)\<close>

text \<open>
  Permission bitsets, the registry that binds role ids to permissions and the table that assigns
  roles to members. The abstract reading of a registry is an access-control relation: member \<open>m\<close> may
  do \<open>b\<close> when some role is assigned to \<open>m\<close>, that role is defined, and it carries bit \<open>b\<close>.
\<close>

unbundle bit_operations_syntax

subsection \<open>Permission bits\<close>

type_synonym permissions = u32

definition SEND_TEXT :: u32 where "SEND_TEXT = push_bit 0 1"
definition SEND_AUDIO :: u32 where "SEND_AUDIO = push_bit 1 1"
definition SEND_SIGNAL :: u32 where "SEND_SIGNAL = push_bit 2 1"
definition MUTE_OTHERS :: u32 where "MUTE_OTHERS = push_bit 3 1"
definition ASSIGN_ROLES :: u32 where "ASSIGN_ROLES = push_bit 4 1"
definition INVITE :: u32 where "INVITE = push_bit 5 1"
definition REMOVE_MEMBERS :: u32 where "REMOVE_MEMBERS = push_bit 6 1"
definition CLOSE_GROUP :: u32 where "CLOSE_GROUP = push_bit 7 1"

definition perm_has :: "permissions \<Rightarrow> u32 \<Rightarrow> bool" where
  "perm_has self msk \<longleftrightarrow> self AND msk = msk"

definition perm_with :: "permissions \<Rightarrow> u32 \<Rightarrow> permissions" where
  "perm_with self msk = self OR msk"

definition perm_without :: "permissions \<Rightarrow> u32 \<Rightarrow> permissions" where
  "perm_without self msk = self AND NOT msk"

definition perm_bitor :: "permissions \<Rightarrow> u32 \<Rightarrow> permissions" where
  "perm_bitor self rhs = self OR rhs"

text \<open>The set of bits of a permission word; the operations are the set operations.\<close>

definition perm_bits :: "u32 \<Rightarrow> nat set" where
  "perm_bits p = {i. bit p i}"

lemma perm_bit_lt: "bit (p :: u32) i \<Longrightarrow> i < 32"
  using bit_imp_le_length by force

lemma perm_bits_inj: "perm_bits p = perm_bits q \<longleftrightarrow> p = q"
  by (auto simp: perm_bits_def set_eq_iff bit_eq_iff dest: perm_bit_lt)

lemma perm_bits_simps:
  "perm_bits (perm_with p m) = perm_bits p \<union> perm_bits m"
  "perm_bits (perm_bitor p m) = perm_bits p \<union> perm_bits m"
  "perm_bits (perm_without p m) = perm_bits p - perm_bits m"
  "perm_bits 0 = {}"
  by (auto simp: perm_bits_def perm_with_def perm_bitor_def perm_without_def bit_simps
      dest: perm_bit_lt)

lemma perm_has_bits: "perm_has p m \<longleftrightarrow> perm_bits m \<subseteq> perm_bits p"
  by (auto simp: perm_has_def perm_bits_def bit_eq_iff bit_simps dest: perm_bit_lt)

subsection \<open>The registry\<close>

record role_spec =
  role_id :: u32
  role_name :: string
  role_permissions :: permissions

datatype role_error = UnknownRole u32 | Unauthorised u32 u32

fun role_error_display :: "role_error \<Rightarrow> string" where
  "role_error_display (UnknownRole r) = ''unknown role: '' @ dec_word r"
| "role_error_display (Unauthorised m p) = ''member '' @ dec_word m @ '' lacks permission 0x'' @ hex8 p"

record role_registry =
  reg_roles :: "u32 \<rightharpoonup> role_spec"
  reg_assignments :: "u32 \<rightharpoonup> u32"

definition registry_new :: role_registry where
  "registry_new = \<lparr>reg_roles = Map.empty, reg_assignments = Map.empty\<rparr>"

definition define_spec :: "role_spec \<Rightarrow> role_registry \<Rightarrow> role_registry" where
  "define_spec sp r = r\<lparr>reg_roles := (reg_roles r)(role_id sp \<mapsto> sp)\<rparr>"

definition define_role :: "u32 \<Rightarrow> string \<Rightarrow> permissions \<Rightarrow> role_registry \<Rightarrow> role_registry" where
  "define_role i name permissions r =
     define_spec \<lparr>role_id = i, role_name = name, role_permissions = permissions\<rparr> r"

definition role :: "u32 \<Rightarrow> role_registry \<Rightarrow> role_spec option" where
  "role i r = reg_roles r i"

definition roles :: "role_registry \<Rightarrow> role_spec set" where
  "roles r = ran (reg_roles r)"

definition assign :: "u32 \<Rightarrow> u32 \<Rightarrow> role_registry \<Rightarrow> role_registry \<times> (role_error + unit)" where
  "assign member rid r =
     (if reg_roles r rid = None then (r, Inl (UnknownRole rid))
      else (r\<lparr>reg_assignments := (reg_assignments r)(member \<mapsto> rid)\<rparr>, Inr ()))"

definition role_of :: "u32 \<Rightarrow> role_registry \<Rightarrow> role_spec option" where
  "role_of member r =
     (case reg_assignments r member of None \<Rightarrow> None | Some i \<Rightarrow> reg_roles r i)"

definition permissions_of :: "u32 \<Rightarrow> role_registry \<Rightarrow> permissions" where
  "permissions_of member r =
     (case role_of member r of None \<Rightarrow> 0 | Some sp \<Rightarrow> role_permissions sp)"

definition require :: "u32 \<Rightarrow> u32 \<Rightarrow> role_registry \<Rightarrow> role_error + unit" where
  "require member msk r =
     (if perm_has (permissions_of member r) msk then Inr () else Inl (Unauthorised member msk))"

subsection \<open>Registry histories\<close>

datatype role_call = Define role_spec | Assign u32 u32

fun role_exec :: "role_call \<Rightarrow> role_registry \<Rightarrow> role_registry" where
  "role_exec (Define sp) r = define_spec sp r"
| "role_exec (Assign m i) r = fst (assign m i r)"

definition role_exec_all :: "role_call list \<Rightarrow> role_registry \<Rightarrow> role_registry" where
  "role_exec_all cs r = fold role_exec cs r"

text \<open>The invariant: keys are the ids of their roles, and every assigned role is defined.\<close>

definition registry_wf :: "role_registry \<Rightarrow> bool" where
  "registry_wf r \<longleftrightarrow> (\<forall>i sp. reg_roles r i = Some sp \<longrightarrow> role_id sp = i)
     \<and> ran (reg_assignments r) \<subseteq> dom (reg_roles r)"

lemma registry_wf_new [simp]: "registry_wf registry_new"
  by (simp add: registry_wf_def registry_new_def)

lemma registry_wf_exec [simp]: "registry_wf r \<Longrightarrow> registry_wf (role_exec c r)"
  by (cases c) (auto simp: registry_wf_def define_spec_def assign_def ran_def split: if_splits)

lemma registry_wf_exec_all: "registry_wf r \<Longrightarrow> registry_wf (role_exec_all cs r)"
  unfolding role_exec_all_def by (induction cs arbitrary: r) simp_all

text \<open>
  The specification of a history: a role means its latest definition, a member holds the role of the
  latest assignment that named a role defined by then.
\<close>

fun defined_in :: "role_call list \<Rightarrow> u32 \<Rightarrow> role_spec option" where
  "defined_in [] i = None"
| "defined_in (Define sp # cs) i = (if role_id sp = i then Some sp else defined_in cs i)"
| "defined_in (Assign m j # cs) i = defined_in cs i"

fun assigned_in :: "role_call list \<Rightarrow> u32 \<Rightarrow> u32 option" where
  "assigned_in [] m = None"
| "assigned_in (Define sp # cs) m = assigned_in cs m"
| "assigned_in (Assign m' i # cs) m =
     (if m' = m \<and> defined_in cs i \<noteq> None then Some i else assigned_in cs m)"

lemma role_exec_all_tables:
  "reg_roles (role_exec_all (rev cs) registry_new) = defined_in cs
   \<and> reg_assignments (role_exec_all (rev cs) registry_new) = assigned_in cs"
proof (induction cs)
  case Nil
  show ?case by (auto simp: role_exec_all_def registry_new_def)
next
  case (Cons c cs)
  then show ?case
    by (cases c) (auto simp: role_exec_all_def define_spec_def assign_def fun_eq_iff)
qed

text \<open>
  C31. Authorisation follows the history of the registry. After any sequence of role definitions and
  assignments (the latest first in \<open>cs\<close>), \<^verbatim>\<open>require\<close> grants member \<open>m\<close> the mask exactly when every bit of
  it is among the bits of the latest definition of the role that \<open>m\<close> was last successfully given, a member
  without one having no bits; otherwise the answer is the error that names the member and the mask.
\<close>

theorem require_follows_history:
  "require m msk (role_exec_all (rev cs) registry_new) =
     (let granted = (case assigned_in cs m of None \<Rightarrow> {}
                     | Some i \<Rightarrow> (case defined_in cs i of None \<Rightarrow> {} | Some sp \<Rightarrow> perm_bits (role_permissions sp)))
      in if perm_bits msk \<subseteq> granted then Inr () else Inl (Unauthorised m msk))"
proof -
  have "perm_bits (permissions_of m (role_exec_all (rev cs) registry_new))
      = (case assigned_in cs m of None \<Rightarrow> {}
         | Some i \<Rightarrow> (case defined_in cs i of None \<Rightarrow> {} | Some sp \<Rightarrow> perm_bits (role_permissions sp)))"
    using role_exec_all_tables [of cs]
    by (auto simp: permissions_of_def role_of_def perm_bits_simps split: option.splits)
  then show ?thesis by (simp add: require_def perm_has_bits Let_def)
qed

text \<open>
  Roles are never dangling. Whatever is defined and assigned, an assignment that succeeds is of a
  defined role, is what \<^verbatim>\<open>role_of\<close> returns for the member, and changes no other member's role; one of
  an unknown role fails with that role's id and changes nothing; and in every registry so built each
  assigned member has a role.
\<close>

theorem assign_behaviour:
  assumes "r = role_exec_all cs registry_new" and "assign m i r = (r', res)"
  shows "(case res of
      Inr _ \<Rightarrow> (\<exists>sp. role i r = Some sp \<and> role_id sp = i \<and> role_of m r' = Some sp)
        \<and> (\<forall>m'. m' = m \<or> role_of m' r' = role_of m' r)
    | Inl e \<Rightarrow> e = UnknownRole i \<and> role i r = None \<and> r' = r)
    \<and> (\<forall>m'. reg_assignments r' m' = None \<or> role_of m' r' \<noteq> None)"
proof -
  have wf: "registry_wf r" using assms(1) registry_wf_exec_all by simp
  have wf': "registry_wf r'" using registry_wf_exec [OF wf, of "Assign m i"] assms(2) by simp
  have "reg_assignments r' m' = None \<or> role_of m' r' \<noteq> None" for m'
    using wf' by (auto simp: registry_wf_def role_of_def ran_def split: option.splits)
  moreover have "case res of
      Inr _ \<Rightarrow> (\<exists>sp. role i r = Some sp \<and> role_id sp = i \<and> role_of m r' = Some sp)
        \<and> (\<forall>m'. m' = m \<or> role_of m' r' = role_of m' r)
    | Inl e \<Rightarrow> e = UnknownRole i \<and> role i r = None \<and> r' = r"
    using assms(2) wf by (auto simp: assign_def role_def role_of_def registry_wf_def
        split: if_splits option.splits)
  ultimately show ?thesis by blast
qed

theorem assign_behaviour_witness:
  "role_of 7 (fst (assign 7 1 (role_exec_all [Define \<lparr>role_id = 1, role_name = ''mod'', role_permissions = 9\<rparr>]
      registry_new)))
   = Some \<lparr>role_id = 1, role_name = ''mod'', role_permissions = 9\<rparr>"
proof -
  let ?r = "role_exec_all [Define \<lparr>role_id = 1, role_name = ''mod'', role_permissions = 9\<rparr>] registry_new"
  obtain r' res where a: "assign 7 1 ?r = (r', res)" by force
  then have "res = Inr ()"
    by (auto simp: assign_def role_exec_all_def define_spec_def split: if_splits)
  with assign_behaviour [OF refl a] a show ?thesis
    by (auto simp: role_def role_exec_all_def define_spec_def)
qed

end
