(* ===== verification/Gsp_Capabilities.thy ===== *)
theory Gsp_Capabilities
  imports Gbp_Core "HOL-Library.Char_ord" "HOL-Library.List_Lexorder"
begin

section \<open>Capability negotiation (\<^verbatim>\<open>gsp-protocol/capabilities.rs\<close>)\<close>

text \<open>
  Each member advertises a set of tokens. A \<^verbatim>\<open>BTreeSet<String>\<close> is a finite set that is iterated in
  sorted order; the \<^verbatim>\<open>HashMap\<close> of advertisements is a partial function, and an operation that iterates
  over it takes the iteration \<open>es\<close>, whose order is not specified. What the group may use is the meet of
  the advertisements, whatever the order.
\<close>

type_synonym negotiator = "u32 \<rightharpoonup> string set"

definition negotiator_new :: negotiator where
  "negotiator_new = Map.empty"

definition advertise :: "u32 \<Rightarrow> string list \<Rightarrow> negotiator \<Rightarrow> negotiator" where
  "advertise member capabilities n = n(member \<mapsto> set capabilities)"

definition forget :: "u32 \<Rightarrow> negotiator \<Rightarrow> negotiator" where
  "forget member n = n(member := None)"

definition capabilities_of :: "u32 \<Rightarrow> negotiator \<Rightarrow> string set option" where
  "capabilities_of member n = n member"

definition group_supports :: "string \<Rightarrow> (u32 \<times> string set) list \<Rightarrow> bool" where
  "group_supports cap es = (if es = [] then False else list_all (\<lambda>(_, s). cap \<in> s) es)"

definition intersection :: "(u32 \<times> string set) list \<Rightarrow> string set" where
  "intersection es =
     (case es of [] \<Rightarrow> {} | (_, first) # rest \<Rightarrow> fold (\<lambda>(_, s) acc. Set.filter (\<lambda>c. c \<in> s) acc) rest first)"

definition cap_union :: "(u32 \<times> string set) list \<Rightarrow> string set" where
  "cap_union es = fold (\<lambda>(_, s) acc. fold insert (sorted_list_of_set s) acc) es {}"

definition missing :: "string \<Rightarrow> (u32 \<times> string set) list \<Rightarrow> u32 list" where
  "missing cap es = List.map_filter (\<lambda>(m, s). if cap \<in> s then None else Some m) es"

definition negotiator_len :: "negotiator \<Rightarrow> nat" where
  "negotiator_len n = card (dom n)"

definition negotiator_is_empty :: "negotiator \<Rightarrow> bool" where
  "negotiator_is_empty n \<longleftrightarrow> dom n = {}"

definition declare_class :: "u32 \<Rightarrow> conformance_class \<Rightarrow> negotiator \<Rightarrow> negotiator" where
  "declare_class member class n = n(member \<mapsto> fold insert (tokens class) (opt_or (n member) {}))"

fun group_class_loop ::
    "conformance_class option \<Rightarrow> (u32 \<times> string set) list \<Rightarrow> conformance_class option" where
  "group_class_loop class [] = class"
| "group_class_loop class ((_, caps) # es) =
     (case (class, from_tokens (sorted_list_of_set caps)) of
        (None, None) \<Rightarrow> None
      | (None, Some mc) \<Rightarrow> group_class_loop (Some mc) es
      | (Some c, Some mc) \<Rightarrow> group_class_loop (Some (min c mc)) es
      | (Some _, None) \<Rightarrow> None)"

definition group_class :: "(u32 \<times> string set) list \<Rightarrow> conformance_class option" where
  "group_class es = (if es = [] then None else group_class_loop None es)"

definition reset_for_epoch :: "negotiator \<Rightarrow> negotiator" where
  "reset_for_epoch n = Map.empty"

subsection \<open>Negotiations\<close>

datatype cap_call =
    Advertise u32 "string list" | Forget u32 | DeclareClass u32 conformance_class | ResetForEpoch

fun cap_exec :: "cap_call \<Rightarrow> negotiator \<Rightarrow> negotiator" where
  "cap_exec (Advertise m cs) n = advertise m cs n"
| "cap_exec (Forget m) n = forget m n"
| "cap_exec (DeclareClass m c) n = declare_class m c n"
| "cap_exec ResetForEpoch n = reset_for_epoch n"

definition negotiation :: "cap_call list \<Rightarrow> negotiator" where
  "negotiation cs = fold cap_exec cs negotiator_new"

definition all_finite :: "negotiator \<Rightarrow> bool" where
  "all_finite n \<longleftrightarrow> finite (dom n) \<and> (\<forall>s\<in>ran n. finite s)"

lemma finite_fold_insert: "finite S \<Longrightarrow> finite (fold insert xs S)"
  by (induction xs arbitrary: S) simp_all

lemma all_finite_upd: "all_finite n \<Longrightarrow> finite s \<Longrightarrow> all_finite (n(m \<mapsto> s))"
  by (auto simp: all_finite_def ran_def)

lemma all_finite_exec: "all_finite n \<Longrightarrow> all_finite (cap_exec c n)"
proof (cases c)
  case (DeclareClass m k)
  assume fin: "all_finite n"
  then have "finite (opt_or (n m) {})" by (cases "n m") (auto simp: all_finite_def ran_def)
  then show ?thesis using DeclareClass all_finite_upd [OF fin]
    by (simp add: declare_class_def finite_fold_insert)
qed (auto simp: advertise_def forget_def reset_for_epoch_def all_finite_def ran_def
      intro: finite_subset [of _ "dom n"])

lemma all_finite_negotiation: "all_finite (negotiation cs)"
proof -
  have "all_finite n \<Longrightarrow> all_finite (fold cap_exec cs n)" for n
    by (induction cs arbitrary: n) (simp_all add: all_finite_exec)
  moreover have "all_finite negotiator_new" by (simp add: negotiator_new_def all_finite_def)
  ultimately show ?thesis by (simp add: negotiation_def)
qed

lemma iteration_finite: "hash_iter (negotiation cs) es \<Longrightarrow> \<forall>(_, s)\<in>set es. finite s"
  using all_finite_negotiation [of cs] hash_iter_values [of "negotiation cs" es]
  by (force simp: all_finite_def)

lemma intersection_Inter: "es \<noteq> [] \<Longrightarrow> intersection es = \<Inter> (snd ` set es)"
proof -
  have f: "fold (\<lambda>(_, s). Set.filter (\<lambda>c. c \<in> s)) es (S :: string set) = S \<inter> \<Inter> (snd ` set es)"
    for es :: "(u32 \<times> string set) list" and S
    by (induction es arbitrary: S) auto
  show "es \<noteq> [] \<Longrightarrow> ?thesis" by (cases es) (simp_all add: intersection_def f split: prod.splits)
qed

lemma cap_union_Union: "\<forall>(_, s)\<in>set es. finite s \<Longrightarrow> cap_union es = \<Union> (snd ` set es)"
proof -
  have ins: "fold insert xs S = set xs \<union> S" for xs :: "string list" and S
    by (induction xs arbitrary: S) auto
  have "\<forall>(_, s)\<in>set es. finite s \<Longrightarrow>
      fold (\<lambda>(_, s) acc. fold insert (sorted_list_of_set s) acc) es S = S \<union> \<Union> (snd ` set es)" for S
    by (induction es arbitrary: S) (auto simp: ins)
  then show "\<forall>(_, s)\<in>set es. finite s \<Longrightarrow> ?thesis" by (simp add: cap_union_def)
qed

lemma group_class_loop_ge:
  "\<forall>(_, s)\<in>set es. finite s \<Longrightarrow>
    (\<exists>c. group_class_loop (Some k) es = Some c \<and> d \<le> c) \<longleftrightarrow> d \<le> k \<and> (\<forall>(_, s)\<in>set es. set (tokens d) \<subseteq> s)"
proof (induction es arbitrary: k)
  case (Cons e es)
  obtain m s where e: "e = (m, s)" by force
  have s: "set (sorted_list_of_set s) = s" using Cons.prems e by simp
  show ?case
  proof (cases "from_tokens (sorted_list_of_set s)")
    case None
    then have "\<not> set (tokens d) \<subseteq> s" using from_tokens_ge [of "sorted_list_of_set s" d] s by simp
    then show ?thesis using None e by simp
  next
    case (Some mc)
    then have "d \<le> mc \<longleftrightarrow> set (tokens d) \<subseteq> s" using from_tokens_ge [of "sorted_list_of_set s" d] s by simp
    then show ?thesis using Some e Cons.IH [of "min k mc"] Cons.prems by auto
  qed
qed simp

lemma group_class_ge:
  assumes "\<forall>(_, s)\<in>set es. finite s"
  shows "(\<exists>c. group_class es = Some c \<and> d \<le> c) \<longleftrightarrow> es \<noteq> [] \<and> (\<forall>(_, s)\<in>set es. set (tokens d) \<subseteq> s)"
proof (cases es)
  case (Cons e rest)
  obtain m s where e: "e = (m, s)" by force
  have s: "set (sorted_list_of_set s) = s" using assms Cons e by simp
  show ?thesis
    using Cons e assms group_class_loop_ge [of rest] from_tokens_ge [of "sorted_list_of_set s" d] s
    by (cases "from_tokens (sorted_list_of_set s)") (auto simp: group_class_def)
qed (simp add: group_class_def)

text \<open>
  C30. Negotiation yields the meet of the advertisements. After any sequence of calls, in whatever order
  the hash map is iterated: the intersection is the set of capabilities that every advertising member
  advertises (nothing when nobody does), \<^verbatim>\<open>group_supports\<close> is membership in it, the union is what
  anybody advertises, and \<^verbatim>\<open>missing\<close> lists, once each, the advertising members without the capability.
\<close>

theorem negotiation_is_meet:
  assumes "hash_iter (negotiation cs) es"
  shows "intersection es = {c. dom (negotiation cs) \<noteq> {} \<and> (\<forall>s\<in>ran (negotiation cs). c \<in> s)}
    \<and> (\<forall>c. group_supports c es = (c \<in> intersection es))
    \<and> cap_union es = \<Union> (ran (negotiation cs))
    \<and> (\<forall>c. distinct (missing c es)
        \<and> set (missing c es) = {m. \<exists>s. negotiation cs m = Some s \<and> c \<notin> s})"
proof -
  let ?n = "negotiation cs"
  have vals: "snd ` set es = ran ?n" by (rule hash_iter_values [OF assms])
  have ne: "es = [] \<longleftrightarrow> dom ?n = {}" using hash_iter_empty [OF assms] by simp
  have inter: "intersection es = {c. dom ?n \<noteq> {} \<and> (\<forall>s\<in>ran ?n. c \<in> s)}"
    using intersection_Inter [of es] ne vals by (cases "es = []") (auto simp: intersection_def)
  have sup: "group_supports c es = (c \<in> intersection es)" for c
    using inter ne by (auto simp: group_supports_def list_all_iff vals [symmetric])
  have un: "cap_union es = \<Union> (ran ?n)" using cap_union_Union iteration_finite [OF assms] vals by simp
  have miss: "missing c es = map fst (filter (\<lambda>p. c \<notin> snd p) es)" for c
    by (induction es) (auto simp: missing_def map_filter_simps)
  have "distinct (missing c es)" for c
    using assms by (simp add: miss hash_iter_def distinct_map_filter)
  moreover have "set (missing c es) = {m. \<exists>s. ?n m = Some s \<and> c \<notin> s}" for c
    by (auto simp: miss image_iff hash_iter_mem [OF assms, symmetric])
  ultimately show ?thesis using inter sup un by blast
qed

lemma toy_iteration:
  "hash_iter (negotiation [Advertise 1 [''opus'', ''fec''], Advertise 2 [''opus''], Forget 3])
     [(2, {''opus''}), (1, {''opus'', ''fec''})]"
  by (auto simp: hash_iter_def negotiation_def negotiator_new_def advertise_def forget_def fun_eq_iff)

theorem negotiation_is_meet_witness:
  "group_supports ''opus'' [(2, {''opus''}), (1, {''opus'', ''fec''})]
   \<and> \<not> group_supports ''fec'' [(2, {''opus''}), (1, {''opus'', ''fec''})]
   \<and> set (missing ''fec'' [(2, {''opus''}), (1, {''opus'', ''fec''})]) = {2}"
proof -
  note meet = negotiation_is_meet [OF toy_iteration]
  have n: "negotiation [Advertise 1 [''opus'', ''fec''], Advertise 2 [''opus''], Forget 3]
      = [1 \<mapsto> {''opus'', ''fec''}, 2 \<mapsto> {''opus''}]"
    using hash_iter_map_of [OF toy_iteration] by simp
  have "intersection [(2, {''opus''}), (1, {''opus'', ''fec''})] = {''opus''}"
    using meet unfolding n by auto
  moreover have "set (missing ''fec'' [(2, {''opus''}), (1, {''opus'', ''fec''})]) = {2}"
    using meet unfolding n by (auto split: if_splits)
  ultimately show ?thesis using meet by auto
qed

text \<open>
  The group class is the highest class everybody supports: a class \<open>d\<close> is at or below the negotiated
  group class exactly when somebody advertises and every advertising member holds all tokens of \<open>d\<close>. In
  particular the result does not depend on the iteration order, and it is absent exactly when not
  even Class A is common.
\<close>

theorem group_class_is_highest_common:
  assumes "hash_iter (negotiation cs) es"
  shows "(\<exists>c. group_class es = Some c \<and> d \<le> c) \<longleftrightarrow> set (tokens d) \<subseteq> intersection es"
proof -
  have "set (tokens d) \<noteq> {}" by (cases d) simp_all
  then have nil: "es = [] \<Longrightarrow> \<not> set (tokens d) \<subseteq> intersection es" by (auto simp: intersection_def)
  have "es \<noteq> [] \<Longrightarrow> set (tokens d) \<subseteq> intersection es \<longleftrightarrow> (\<forall>(_, s)\<in>set es. set (tokens d) \<subseteq> s)"
    by (fastforce simp: intersection_Inter)
  then show ?thesis
    using group_class_ge [OF iteration_finite [OF assms], of d] nil by blast
qed

theorem group_class_is_highest_common_witness:
  "(\<exists>c. group_class [(5, set (tokens ClassC)), (4, set (tokens ClassB))] = Some c \<and> ClassB \<le> c)
   \<and> \<not> (\<exists>c. group_class [(5, set (tokens ClassC)), (4, set (tokens ClassB))] = Some c \<and> ClassC \<le> c)"
proof -
  have it: "hash_iter (negotiation [DeclareClass 4 ClassB, DeclareClass 5 ClassC])
      [(5, set (tokens ClassC)), (4, set (tokens ClassB))]"
    by (auto simp: hash_iter_def negotiation_def negotiator_new_def declare_class_def fun_eq_iff)
  have "intersection [(5, set (tokens ClassC)), (4, set (tokens ClassB))] = {TOKEN_A, TOKEN_B}"
    by (auto simp: intersection_def TOKEN_A_def TOKEN_B_def TOKEN_C_def)
  then show ?thesis
    using group_class_is_highest_common [OF it, of ClassB] group_class_is_highest_common [OF it, of ClassC]
    by (simp add: TOKEN_A_def TOKEN_B_def TOKEN_C_def)
qed

end
