(* ===== verification/Gbp_Sframe.thy ===== *)
theory Gbp_Sframe
  imports Gbp_Mls Gbp_Instances
begin

unbundle bit_operations_syntax

section \<open>End-to-end media encryption (\<^verbatim>\<open>gbp-sframe\<close>)\<close>

text \<open>
  The sessions, encryptors and decryptors of \<^verbatim>\<open>crates/gbp-sframe/src\<close>. The \<^verbatim>\<open>sframe\<close> crate (key ids,
  key derivation, counters, the header and the cipher, the replay store) is a parameter, the record
  \<open>sframe_lib\<close>; what the code relies on of it is \<open>sframe_ok\<close>.

  An encryptor is a shared cell (\<^verbatim>\<open>Arc<Mutex<EncryptorState>>\<close>) and handles to it are cloned, so the cells
  live in an explicit store: a handle is the index of its cell with the key id. A mutex serialises the
  calls, so a history of calls is a sequence.
\<close>

subsection \<open>Errors and cipher suites\<close>

datatype sframe_error =
    MlsExport string | Encrypt | Decrypt | Header string | Replay u64 u64 | CounterExhausted u64 | UnknownKid u64

fun sframe_error_display :: "sframe_error \<Rightarrow> string" where
  "sframe_error_display (MlsExport e) = ''MLS export failed: '' @ e"
| "sframe_error_display Encrypt = ''AEAD encryption failed''"
| "sframe_error_display Decrypt = ''AEAD decryption failed''"
| "sframe_error_display (Header e) = ''invalid SFrame header: '' @ e"
| "sframe_error_display (Replay kid ctr) = ''replay detected: KID='' @ dec_word kid @ '' CTR='' @ dec_word ctr"
| "sframe_error_display (CounterExhausted kid) =
     ''counter exhausted for KID 0x'' @ hex_nat False (unat kid) @ '': rotate the epoch''"
| "sframe_error_display (UnknownKid kid) =
     ''unknown KID 0x'' @ hex_nat False (unat kid) @ '': epoch or sender not registered''"

datatype cipher_suite = Aes128Gcm | Aes256Gcm

text \<open>The suites of the \<^verbatim>\<open>sframe\<close> crate.\<close>

datatype sframe_suite = AesGcm128Sha256 | AesGcm256Sha512

definition suite_from_u8 :: "u8 \<Rightarrow> cipher_suite option" where
  "suite_from_u8 v = (if v = 0 then Some Aes128Gcm else if v = 1 then Some Aes256Gcm else None)"

fun suite_as_u8 :: "cipher_suite \<Rightarrow> u8" where
  "suite_as_u8 Aes128Gcm = 0"
| "suite_as_u8 Aes256Gcm = 1"

fun to_sframe :: "cipher_suite \<Rightarrow> sframe_suite" where
  "to_sframe Aes128Gcm = AesGcm128Sha256"
| "to_sframe Aes256Gcm = AesGcm256Sha512"

interpretation suite_wire: wire_enum suite_as_u8 suite_from_u8
proof
  fix e show "suite_from_u8 (suite_as_u8 e) = Some e" by (cases e) (simp_all add: suite_from_u8_def)
next
  fix w e assume "suite_from_u8 w = Some e"
  then show "suite_as_u8 e = w" by (auto simp: suite_from_u8_def split: if_splits)
qed

subsection \<open>The \<^verbatim>\<open>sframe\<close> crate\<close>

text \<open>
  \<open>sl_next\<close> is \<^verbatim>\<open>MonotonicCounter::next\<close>, called through \<^verbatim>\<open>MediaFrameView::with_meta_data\<close>; \<open>sl_encrypt\<close> returns
  \<^verbatim>\<open>meta_data || header || ciphertext\<close>; \<open>sl_parse\<close> returns the key id and the counter of the header.
\<close>

record ('k, 'd, 'c, 'r) sframe_lib =
  sl_key_id :: "u64 \<Rightarrow> u64 \<Rightarrow> u64 \<Rightarrow> u8 \<Rightarrow> u8 \<Rightarrow> u64"
  sl_epoch_lsb :: "u64 \<Rightarrow> u8 \<Rightarrow> u8 \<Rightarrow> u64"
  sl_member_index :: "u64 \<Rightarrow> u8 \<Rightarrow> u8 \<Rightarrow> u64"
  sl_enc_key :: "sframe_suite \<Rightarrow> u64 \<Rightarrow> bytes \<Rightarrow> 'k option"
  sl_dec_key :: "sframe_suite \<Rightarrow> u64 \<Rightarrow> bytes \<Rightarrow> 'd option"
  sl_counter :: 'c
  sl_current :: "'c \<Rightarrow> u64"
  sl_is_exhausted :: "'c \<Rightarrow> bool"
  sl_next :: "'c \<Rightarrow> u64 \<times> 'c"
  sl_encrypt :: "'k \<Rightarrow> u64 \<Rightarrow> bytes \<Rightarrow> bytes \<Rightarrow> bytes option"
  sl_parse :: "bytes \<Rightarrow> bytes \<Rightarrow> string + u64 \<times> u64"
  sl_decrypt :: "'d \<Rightarrow> bytes \<Rightarrow> bytes \<Rightarrow> bytes option"
  sl_store :: "u64 \<Rightarrow> 'r"
  sl_inspect :: "'r \<Rightarrow> u64 \<Rightarrow> u64 \<Rightarrow> bool"
  sl_validate :: "'r \<Rightarrow> u64 \<Rightarrow> u64 \<Rightarrow> 'r option"

subsection \<open>Key ids (\<^verbatim>\<open>header.rs\<close>)\<close>

definition EPOCH_BITS :: u8 where "EPOCH_BITS = 16"
definition INDEX_BITS :: u8 where "INDEX_BITS = 16"
definition CONTEXT_ID :: u64 where "CONTEXT_ID = 0"

definition kid_from :: "('k, 'd, 'c, 'r) sframe_lib \<Rightarrow> u64 \<Rightarrow> u32 \<Rightarrow> u64" where
  "kid_from sl epoch leaf_index = sl_key_id sl CONTEXT_ID epoch (ucast leaf_index) EPOCH_BITS INDEX_BITS"

definition epoch_from_kid :: "('k, 'd, 'c, 'r) sframe_lib \<Rightarrow> u64 \<Rightarrow> u64" where
  "epoch_from_kid sl kid = sl_epoch_lsb sl kid EPOCH_BITS INDEX_BITS"

definition epoch_lsb :: "('k, 'd, 'c, 'r) sframe_lib \<Rightarrow> u64 \<Rightarrow> u64" where
  "epoch_lsb sl epoch = epoch_from_kid sl (kid_from sl epoch 0)"

definition leaf_from_kid :: "('k, 'd, 'c, 'r) sframe_lib \<Rightarrow> u64 \<Rightarrow> u32" where
  "leaf_from_kid sl kid = ucast (sl_member_index sl kid EPOCH_BITS INDEX_BITS)"

subsection \<open>Encryptors (\<^verbatim>\<open>cipher.rs\<close>)\<close>

definition REPLAY_WINDOW :: u64 where "REPLAY_WINDOW = 1024"

record ('k, 'c) encryptor_state =
  es_key :: 'k
  es_counter :: 'c

record sframe_encryptor =
  se_cell :: nat
  se_kid :: u64

type_synonym ('k, 'c) cells = "('k, 'c) encryptor_state list"

text \<open>\<open>None\<close> where \<^verbatim>\<open>expect\<close> panics.\<close>

definition encryptor_new ::
    "('k, 'd, 'c, 'r) sframe_lib \<Rightarrow> bytes \<Rightarrow> u64 \<Rightarrow> cipher_suite \<Rightarrow> ('k, 'c) cells \<Rightarrow>
      (('k, 'c) cells \<times> sframe_encryptor) option" where
  "encryptor_new sl base_key kid suite cs =
     (case sl_enc_key sl (to_sframe suite) kid base_key of None \<Rightarrow> None
      | Some key \<Rightarrow> Some (cs @ [\<lparr>es_key = key, es_counter = sl_counter sl\<rparr>],
                         \<lparr>se_cell = length cs, se_kid = kid\<rparr>))"

definition sframe_encrypt ::
    "('k, 'd, 'c, 'r) sframe_lib \<Rightarrow> sframe_encryptor \<Rightarrow> bytes \<Rightarrow> bytes \<Rightarrow> ('k, 'c) cells \<Rightarrow>
      ('k, 'c) cells \<times> (sframe_error + bytes)" where
  "sframe_encrypt sl h plaintext extra_aad cs =
     (let state = cs ! se_cell h in
      if sl_is_exhausted sl (es_counter state) then (cs, Inl (CounterExhausted (se_kid h)))
      else case sl_next sl (es_counter state) of (ctr, c') \<Rightarrow>
        (let cs' = cs[se_cell h := state\<lparr>es_counter := c'\<rparr>] in
         case sl_encrypt sl (es_key state) ctr plaintext extra_aad of None \<Rightarrow> (cs', Inl Encrypt)
         | Some encrypted \<Rightarrow> (cs', Inr (drop (length extra_aad) encrypted))))"

definition encryptor_counter :: "('k, 'd, 'c, 'r) sframe_lib \<Rightarrow> sframe_encryptor \<Rightarrow> ('k, 'c) cells \<Rightarrow> u64" where
  "encryptor_counter sl h cs = sl_current sl (es_counter (cs ! se_cell h))"

subsection \<open>Decryptors (\<^verbatim>\<open>cipher.rs\<close>)\<close>

record ('d, 'r) sframe_decryptor =
  sd_base_key :: bytes
  sd_epoch :: u64
  sd_suite :: cipher_suite
  sd_keys :: "u64 \<rightharpoonup> 'd"
  sd_replay :: 'r

definition decryptor_new ::
    "('k, 'd, 'c, 'r) sframe_lib \<Rightarrow> bytes \<Rightarrow> u64 \<Rightarrow> cipher_suite \<Rightarrow> ('d, 'r) sframe_decryptor" where
  "decryptor_new sl base_key epoch suite =
     \<lparr>sd_base_key = base_key, sd_epoch = epoch, sd_suite = suite, sd_keys = Map.empty,
      sd_replay = sl_store sl REPLAY_WINDOW\<rparr>"

definition sframe_decrypt ::
    "('k, 'd, 'c, 'r) sframe_lib \<Rightarrow> bytes \<Rightarrow> bytes \<Rightarrow> ('d, 'r) sframe_decryptor \<Rightarrow>
      (('d, 'r) sframe_decryptor \<times> (sframe_error + bytes \<times> u32)) option" where
  "sframe_decrypt sl payload extra_aad d =
     (case sl_parse sl payload extra_aad of Inl e \<Rightarrow> Some (d, Inl (Header e))
      | Inr (kid, ctr) \<Rightarrow>
        (if epoch_from_kid sl kid \<noteq> epoch_lsb sl (sd_epoch d) then Some (d, Inl (UnknownKid kid))
         else let leaf = leaf_from_kid sl kid in
           if \<not> sl_inspect sl (sd_replay d) kid ctr then Some (d, Inl (Replay kid ctr))
           else case (case sd_keys d kid of Some key \<Rightarrow> Some (d, key)
                      | None \<Rightarrow>
                        (case sl_dec_key sl (to_sframe (sd_suite d)) kid (sd_base_key d) of None \<Rightarrow> None
                         | Some key \<Rightarrow> Some (d\<lparr>sd_keys := (sd_keys d)(kid \<mapsto> key)\<rparr>, key))) of
             None \<Rightarrow> None
           | Some (d1, key) \<Rightarrow>
             (case sl_decrypt sl key payload extra_aad of None \<Rightarrow> Some (d1, Inl Decrypt)
              | Some media \<Rightarrow>
                (case sl_validate sl (sd_replay d1) kid ctr of None \<Rightarrow> Some (d1, Inl (Replay kid ctr))
                 | Some r' \<Rightarrow> Some (d1\<lparr>sd_replay := r'\<rparr>, Inr (media, leaf))))))"

definition decryptor_reset ::
    "('k, 'd, 'c, 'r) sframe_lib \<Rightarrow> ('d, 'r) sframe_decryptor \<Rightarrow> ('d, 'r) sframe_decryptor" where
  "decryptor_reset sl d = d\<lparr>sd_keys := Map.empty, sd_replay := sl_store sl REPLAY_WINDOW\<rparr>"

subsection \<open>Sessions (\<^verbatim>\<open>lib.rs\<close>, \<^verbatim>\<open>kdf.rs\<close>)\<close>

record ('k, 'c) sframe_session =
  ss_base_key :: bytes
  ss_epoch :: u64
  ss_suite :: cipher_suite
  ss_encryptors :: "u32 \<rightharpoonup> sframe_encryptor"
  ss_cells :: "('k, 'c) cells"

definition session_new :: "bytes \<Rightarrow> u64 \<Rightarrow> cipher_suite \<Rightarrow> ('k, 'c) sframe_session" where
  "session_new base_key epoch suite =
     \<lparr>ss_base_key = base_key, ss_epoch = epoch, ss_suite = suite, ss_encryptors = Map.empty, ss_cells = []\<rparr>"

text \<open>The exporter of MLS returns as many bytes as it is asked for, so the copy into an array of 32 bytes does not panic.\<close>

definition derive_base_key ::
    "('g, 'sg, 'st, 'kp, 'm, 'w) openmls \<Rightarrow> ('g, 'sg, 'st) mls_context \<Rightarrow> string \<Rightarrow> u64 \<Rightarrow>
      sframe_error + bytes" where
  "derive_base_key om ctx label epoch =
     (case export_raw om ctx label (be_bytes64 epoch) 32 of
        Inl e \<Rightarrow> Inl (MlsExport (mls_error_display e)) | Inr raw \<Rightarrow> Inr raw)"

definition session_from_mls ::
    "('g, 'sg, 'st, 'kp, 'm, 'w) openmls \<Rightarrow> ('g, 'sg, 'st) mls_context \<Rightarrow> string \<Rightarrow> cipher_suite \<Rightarrow>
      sframe_error + ('k, 'c) sframe_session" where
  "session_from_mls om ctx label suite =
     (let epoch = mls_epoch om ctx in
      case derive_base_key om ctx label epoch of Inl e \<Rightarrow> Inl e
      | Inr base_key \<Rightarrow> Inr (session_new base_key epoch suite))"

definition session_encryptor ::
    "('k, 'd, 'c, 'r) sframe_lib \<Rightarrow> u32 \<Rightarrow> ('k, 'c) sframe_session \<Rightarrow>
      (('k, 'c) sframe_session \<times> sframe_encryptor) option" where
  "session_encryptor sl leaf_index s =
     (case ss_encryptors s leaf_index of Some h \<Rightarrow> Some (s, h)
      | None \<Rightarrow>
        (let kid = kid_from sl (ss_epoch s) leaf_index in
         case encryptor_new sl (ss_base_key s) kid (ss_suite s) (ss_cells s) of None \<Rightarrow> None
         | Some (cs, h) \<Rightarrow>
             Some (s\<lparr>ss_encryptors := (ss_encryptors s)(leaf_index \<mapsto> h), ss_cells := cs\<rparr>, h)))"

definition session_decryptor ::
    "('k, 'd, 'c, 'r) sframe_lib \<Rightarrow> ('k, 'c) sframe_session \<Rightarrow> ('d, 'r) sframe_decryptor" where
  "session_decryptor sl s = decryptor_new sl (ss_base_key s) (ss_epoch s) (ss_suite s)"

text \<open>Encrypting through a handle of the session.\<close>

definition session_encrypt ::
    "('k, 'd, 'c, 'r) sframe_lib \<Rightarrow> sframe_encryptor \<Rightarrow> bytes \<Rightarrow> bytes \<Rightarrow> ('k, 'c) sframe_session \<Rightarrow>
      ('k, 'c) sframe_session \<times> (sframe_error + bytes)" where
  "session_encrypt sl h pt aad s =
     (case sframe_encrypt sl h pt aad (ss_cells s) of (cs, r) \<Rightarrow> (s\<lparr>ss_cells := cs\<rparr>, r))"

subsection \<open>What is relied on\<close>

text \<open>
  \<open>count\<close> is the number of values a counter has issued and \<open>noted\<close> the (key id, counter) pairs a replay store
  will not accept, because it has recorded them or they are older than its window: key ids carry 16 bits of the epoch and a 16-bit index; a key can be derived from a base
  key; a counter issues 0, 1, \dots{} and is exhausted after \<open>2 ^ 64\<close> values; an encrypted frame starts
  with its metadata, carries the key id and the counter and decrypts under the key for that key id;
  accepting a pair adds at least that pair to those the store refuses, and takes none away.
\<close>

definition kid_ok :: "('k, 'd, 'c, 'r) sframe_lib \<Rightarrow> bool" where
  "kid_ok sl \<longleftrightarrow>
     (\<forall>e i. i < 2 ^ 16 \<longrightarrow> sl_epoch_lsb sl (sl_key_id sl 0 e i 16 16) 16 16 = take_bit 16 e
        \<and> sl_member_index sl (sl_key_id sl 0 e i 16 16) 16 16 = i)"

definition counter_ok :: "('k, 'd, 'c, 'r) sframe_lib \<Rightarrow> ('c \<Rightarrow> nat) \<Rightarrow> bool" where
  "counter_ok sl count \<longleftrightarrow> count (sl_counter sl) = 0
     \<and> (\<forall>c. sl_is_exhausted sl c \<longleftrightarrow> 2 ^ 64 \<le> count c)
     \<and> (\<forall>c. count c < 2 ^ 64 \<longrightarrow>
          (\<exists>c'. sl_next sl c = (word_of_nat (count c), c') \<and> count c' = Suc (count c)))"

definition cipher_ok :: "('k, 'd, 'c, 'r) sframe_lib \<Rightarrow> bool" where
  "cipher_ok sl \<longleftrightarrow>
     (\<forall>su kid b. \<exists>k d. sl_enc_key sl su kid b = Some k \<and> sl_dec_key sl su kid b = Some d
        \<and> (\<forall>ctr pt aad out. sl_encrypt sl k ctr pt aad = Some out \<longrightarrow>
             sl_parse sl (drop (length aad) out) aad = Inr (kid, ctr)
             \<and> sl_decrypt sl d (drop (length aad) out) aad = Some pt))"

definition store_ok :: "('k, 'd, 'c, 'r) sframe_lib \<Rightarrow> ('r \<Rightarrow> (u64 \<times> u64) set) \<Rightarrow> bool" where
  "store_ok sl noted \<longleftrightarrow> (\<forall>t. noted (sl_store sl t) = {})
     \<and> (\<forall>r kid ctr. sl_inspect sl r kid ctr \<longrightarrow> (kid, ctr) \<notin> noted r
          \<and> (\<exists>r'. sl_validate sl r kid ctr = Some r' \<and> insert (kid, ctr) (noted r) \<subseteq> noted r'))"

lemma unat_ucast_u64: "unat (ucast (w :: u32) :: u64) = unat w"
proof -
  have "unat w < 2 ^ 64" using unat_bound32 [of w] by simp
  then show ?thesis by (simp add: unsigned_ucast_eq take_bit_nat_eq_self)
qed

lemma ucast_ucast_u64: "ucast (ucast (w :: u32) :: u64) = w"
  by (rule bit_word_eqI) (simp add: bit_simps)

lemma leaf_kid:
  assumes "kid_ok sl" "leaf < 2 ^ 16"
  shows "leaf_from_kid sl (kid_from sl e leaf) = leaf" "epoch_from_kid sl (kid_from sl e leaf) = epoch_lsb sl e"
proof -
  have l: "(ucast leaf :: u64) < 2 ^ 16" "(ucast (0 :: u32) :: u64) < 2 ^ 16"
    using assms(2) by (simp_all add: word_less_nat_alt unat_ucast_u64)
  show "leaf_from_kid sl (kid_from sl e leaf) = leaf"
    using assms(1) l by (simp add: kid_ok_def leaf_from_kid_def kid_from_def CONTEXT_ID_def EPOCH_BITS_def
        INDEX_BITS_def ucast_ucast_u64)
  show "epoch_from_kid sl (kid_from sl e leaf) = epoch_lsb sl e"
    using assms(1) l by (simp add: kid_ok_def epoch_lsb_def epoch_from_kid_def kid_from_def CONTEXT_ID_def
        EPOCH_BITS_def INDEX_BITS_def)
qed

lemma kid_from_inj:
  assumes "kid_ok sl" "l < 2 ^ 16" "l' < 2 ^ 16" "kid_from sl e l = kid_from sl e l'"
  shows "l = l'"
  using leaf_kid(1) [OF assms(1,2), of e] leaf_kid(1) [OF assms(1,3), of e] assms(4) by metis

subsection \<open>Counters are never reused\<close>

text \<open>
  A history of a session: handles are obtained for leaves, kept, and used in any order; the frames that
  come out are collected with the data they were bound to.
\<close>

datatype sf_call = Obtain u32 | Use nat bytes bytes

record ('k, 'c) sf_run =
  sr_session :: "('k, 'c) sframe_session"
  sr_handles :: "sframe_encryptor list"
  sr_frames :: "(bytes \<times> bytes) list"

fun sf_step :: "('k, 'd, 'c, 'r) sframe_lib \<Rightarrow> sf_call \<Rightarrow> ('k, 'c) sf_run \<Rightarrow> ('k, 'c) sf_run" where
  "sf_step sl (Obtain leaf) x =
     (case session_encryptor sl leaf (sr_session x) of None \<Rightarrow> x
      | Some (s, h) \<Rightarrow> x\<lparr>sr_session := s, sr_handles := sr_handles x @ [h]\<rparr>)"
| "sf_step sl (Use i pt aad) x =
     (if i < length (sr_handles x)
      then case session_encrypt sl (sr_handles x ! i) pt aad (sr_session x) of
          (s, Inl _) \<Rightarrow> x\<lparr>sr_session := s\<rparr>
        | (s, Inr out) \<Rightarrow> x\<lparr>sr_session := s, sr_frames := sr_frames x @ [(out, aad)]\<rparr>
      else x)"

definition sf_start :: "bytes \<Rightarrow> u64 \<Rightarrow> cipher_suite \<Rightarrow> ('k, 'c) sf_run" where
  "sf_start b e su = \<lparr>sr_session = session_new b e su, sr_handles = [], sr_frames = []\<rparr>"

definition headers :: "('k, 'd, 'c, 'r) sframe_lib \<Rightarrow> (bytes \<times> bytes) list \<Rightarrow> (string + u64 \<times> u64) list" where
  "headers sl frames = map (\<lambda>(out, aad). sl_parse sl out aad) frames"

definition obtained :: "sf_call list \<Rightarrow> u32 set" where
  "obtained cs = {l. Obtain l \<in> set cs}"

text \<open>The cell of a leaf holds the key of the leaf's key id; cells are not shared between leaves.\<close>

definition leaf_cell :: "('k, 'd, 'c, 'r) sframe_lib \<Rightarrow> ('k, 'c) sframe_session \<Rightarrow> u32 \<Rightarrow> sframe_encryptor \<Rightarrow> bool" where
  "leaf_cell sl s l h \<longleftrightarrow> l < 2 ^ 16 \<and> se_cell h < length (ss_cells s) \<and> se_kid h = kid_from sl (ss_epoch s) l
     \<and> sl_enc_key sl (to_sframe (ss_suite s)) (se_kid h) (ss_base_key s) = Some (es_key (ss_cells s ! se_cell h))"

definition cells_inv :: "('k, 'd, 'c, 'r) sframe_lib \<Rightarrow> ('k, 'c) sframe_session \<Rightarrow> bool" where
  "cells_inv sl s \<longleftrightarrow>
     (\<forall>l h. ss_encryptors s l = Some h \<longrightarrow> leaf_cell sl s l h)
   \<and> (\<forall>l l' h h'. ss_encryptors s l = Some h \<longrightarrow> ss_encryptors s l' = Some h' \<longrightarrow> se_cell h = se_cell h' \<longrightarrow> l = l')"

definition issued ::
    "('c \<Rightarrow> nat) \<Rightarrow> ('k, 'c) sframe_session \<Rightarrow> (string + u64 \<times> u64) set" where
  "issued count s = {Inr (se_kid h, word_of_nat n) | l h n.
     ss_encryptors s l = Some h \<and> n < count (es_counter (ss_cells s ! se_cell h)) \<and> n < 2 ^ 64}"

definition sf_inv ::
    "('k, 'd, 'c, 'r) sframe_lib \<Rightarrow> ('c \<Rightarrow> nat) \<Rightarrow> ('k, 'c) sf_run \<Rightarrow> bool" where
  "sf_inv sl count x \<longleftrightarrow> cells_inv sl (sr_session x)
     \<and> set (sr_handles x) \<subseteq> ran (ss_encryptors (sr_session x))
     \<and> set (headers sl (sr_frames x)) \<subseteq> issued count (sr_session x)
     \<and> distinct (headers sl (sr_frames x))"

lemma cells_inv_obtain:
  assumes "cells_inv sl s" "leaf < 2 ^ 16" "session_encryptor sl leaf s = Some (s', h)"
  shows "cells_inv sl s'" and "h \<in> ran (ss_encryptors s')"
    and "ran (ss_encryptors s) \<subseteq> ran (ss_encryptors s')" and "issued count s \<subseteq> issued count s'"
proof -
  consider (old) "ss_encryptors s leaf = Some h" "s' = s"
    | (new) key where "ss_encryptors s leaf = None"
        "sl_enc_key sl (to_sframe (ss_suite s)) (kid_from sl (ss_epoch s) leaf) (ss_base_key s) = Some key"
        "h = \<lparr>se_cell = length (ss_cells s), se_kid = kid_from sl (ss_epoch s) leaf\<rparr>"
        "s' = s\<lparr>ss_encryptors := (ss_encryptors s)(leaf \<mapsto> h),
               ss_cells := ss_cells s @ [\<lparr>es_key = key, es_counter = sl_counter sl\<rparr>]\<rparr>"
    using assms(3) by (auto simp: session_encryptor_def encryptor_new_def Let_def split: option.splits)
  then have "cells_inv sl s' \<and> h \<in> ran (ss_encryptors s') \<and> ran (ss_encryptors s) \<subseteq> ran (ss_encryptors s')
    \<and> issued count s \<subseteq> issued count s'"
  proof cases
    case old
    then show ?thesis using assms(1) by (simp add: ranI)
  next
    case new
    have lt: "ss_encryptors s l = Some g \<Longrightarrow> se_cell g < length (ss_cells s)" for l g
      using assms(1) by (simp add: cells_inv_def leaf_cell_def)
    have enc: "ss_encryptors s' = (ss_encryptors s)(leaf \<mapsto> h)" "se_cell h = length (ss_cells s)"
      using new(3,4) by simp_all
    have "leaf_cell sl s' l g" if "ss_encryptors s' l = Some g" for l g
    proof (cases "l = leaf")
      case True
      then have "g = h" using that enc(1) by simp
      then show ?thesis using True new assms(2) by (simp add: leaf_cell_def)
    next
      case False
      then have "leaf_cell sl s l g" using that enc assms(1) by (simp add: cells_inv_def)
      then show ?thesis using new(4) by (auto simp: leaf_cell_def nth_append)
    qed
    moreover have "l = l'" if "ss_encryptors s' l = Some g" "ss_encryptors s' l' = Some g'" "se_cell g = se_cell g'" for l l' g g'
    proof -
      have "ss_encryptors s l = Some g \<Longrightarrow> ss_encryptors s l' = Some g' \<Longrightarrow> l = l'"
        using that(3) assms(1) by (simp add: cells_inv_def)
      then show ?thesis using that enc lt [of l g] lt [of l' g'] by (auto split: if_splits)
    qed
    ultimately have "cells_inv sl s'" by (auto simp: cells_inv_def)
    moreover have "h \<in> ran (ss_encryptors s')" using new by (simp add: ranI)
    moreover have "ran (ss_encryptors s) \<subseteq> ran (ss_encryptors s')"
      using enc(1) new(1) by (simp add: ran_map_upd subset_insertI)
    moreover have "z \<in> issued count s'" if z: "z \<in> issued count s" for z
    proof -
      obtain l g n where g: "z = Inr (se_kid g, word_of_nat n)" "ss_encryptors s l = Some g"
        "n < count (es_counter (ss_cells s ! se_cell g))" "n < 2 ^ 64" using z by (auto simp: issued_def)
      then have "ss_encryptors s' l = Some g" "ss_cells s' ! se_cell g = ss_cells s ! se_cell g"
        using new lt by (auto simp: nth_append)
      then show ?thesis using g unfolding issued_def by force
    qed
    ultimately show ?thesis by blast
  qed
  then show "cells_inv sl s'" "h \<in> ran (ss_encryptors s')" "ran (ss_encryptors s) \<subseteq> ran (ss_encryptors s')"
    "issued count s \<subseteq> issued count s'" by blast+
qed

text \<open>One encryption through a handle of the session.\<close>

lemma session_encrypt_cases:
  assumes "counter_ok sl count" "session_encrypt sl h pt aad s = (s', r)"
  obtains (exhausted) "s' = s" "\<exists>e. r = Inl e"
  | (issue) c' where "count (es_counter (ss_cells s ! se_cell h)) < 2 ^ 64"
      "count c' = Suc (count (es_counter (ss_cells s ! se_cell h)))"
      "s' = s\<lparr>ss_cells := (ss_cells s)[se_cell h := (ss_cells s ! se_cell h)\<lparr>es_counter := c'\<rparr>]\<rparr>"
      "r = (case sl_encrypt sl (es_key (ss_cells s ! se_cell h)) (word_of_nat (count (es_counter (ss_cells s ! se_cell h)))) pt aad of
              None \<Rightarrow> Inl Encrypt | Some out \<Rightarrow> Inr (drop (length aad) out))"
proof (cases "count (es_counter (ss_cells s ! se_cell h)) < 2 ^ 64")
  case True
  then obtain c' where c': "sl_next sl (es_counter (ss_cells s ! se_cell h))
      = (word_of_nat (count (es_counter (ss_cells s ! se_cell h))), c')"
    "count c' = Suc (count (es_counter (ss_cells s ! se_cell h)))"
    using assms(1) unfolding counter_ok_def by blast
  have "\<not> sl_is_exhausted sl (es_counter (ss_cells s ! se_cell h))"
    using True assms(1) unfolding counter_ok_def by (simp add: not_le)
  then show ?thesis
    using assms(2) c' by (intro issue [OF True c'(2)])
      (auto simp: session_encrypt_def sframe_encrypt_def Let_def split: option.splits)
next
  case False
  then have "sl_is_exhausted sl (es_counter (ss_cells s ! se_cell h))"
    using assms(1) unfolding counter_ok_def by (simp add: not_less)
  then show ?thesis using assms(2) by (intro exhausted) (auto simp: session_encrypt_def sframe_encrypt_def Let_def)
qed

lemma cells_inv_issue:
  assumes "cells_inv sl s"
  shows "cells_inv sl (s\<lparr>ss_cells := (ss_cells s)[i := (ss_cells s ! i)\<lparr>es_counter := c'\<rparr>]\<rparr>)" (is "cells_inv sl ?s")
proof -
  have key: "es_key (ss_cells ?s ! j) = es_key (ss_cells s ! j)" if "j < length (ss_cells s)" for j
    using that by (cases "i = j") simp_all
  have "leaf_cell sl ?s l h" if "ss_encryptors s l = Some h" for l h
  proof -
    have "leaf_cell sl s l h" using that assms by (simp add: cells_inv_def)
    then show ?thesis using key [of "se_cell h"] by (auto simp: leaf_cell_def)
  qed
  then show ?thesis using assms by (simp add: cells_inv_def)
qed

lemma issued_issue:
  assumes "cells_inv sl s" "ss_encryptors s l = Some h"
    and "count c' = Suc (count (es_counter (ss_cells s ! se_cell h)))"
    and "s' = s\<lparr>ss_cells := (ss_cells s)[se_cell h := (ss_cells s ! se_cell h)\<lparr>es_counter := c'\<rparr>]\<rparr>"
    and "count (es_counter (ss_cells s ! se_cell h)) < 2 ^ 64"
  shows "issued count s' = insert (Inr (se_kid h, word_of_nat (count (es_counter (ss_cells s ! se_cell h))))) (issued count s)"
proof -
  let ?n = "count (es_counter (ss_cells s ! se_cell h))"
  have lt: "se_cell h < length (ss_cells s)" using assms(1,2) by (simp add: cells_inv_def leaf_cell_def)
  have cnt: "count (es_counter (ss_cells s' ! se_cell g)) = (if l' = l then Suc ?n else count (es_counter (ss_cells s ! se_cell g)))"
    if "ss_encryptors s l' = Some g" for l' g
  proof (cases "l' = l")
    case True
    then have "g = h" using that assms(2) by simp
    then show ?thesis using True assms(3,4) lt by simp
  next
    case False
    then have "se_cell g \<noteq> se_cell h" using that assms(1,2) by (auto simp: cells_inv_def)
    then show ?thesis using False assms(4) by simp
  qed
  have enc: "ss_encryptors s' = ss_encryptors s" using assms(4) by simp
  show ?thesis
  proof (intro set_eqI iffI)
    fix z assume "z \<in> issued count s'"
    then obtain l' g m where g: "z = Inr (se_kid g, word_of_nat m)" "ss_encryptors s l' = Some g"
      "m < count (es_counter (ss_cells s' ! se_cell g))" "m < 2 ^ 64" by (auto simp: issued_def enc)
    show "z \<in> insert (Inr (se_kid h, word_of_nat ?n)) (issued count s)"
    proof (cases "l' = l \<and> m = ?n")
      case True
      then show ?thesis using g assms(2) by simp
    next
      case False
      then have "m < count (es_counter (ss_cells s ! se_cell g))"
        using g(2,3) cnt [OF g(2)] assms(2) by (auto split: if_splits)
      then show ?thesis using g by (auto simp: issued_def)
    qed
  next
    fix z assume "z \<in> insert (Inr (se_kid h, word_of_nat ?n)) (issued count s)"
    then obtain l' g m where g: "z = Inr (se_kid g, word_of_nat m)" "ss_encryptors s l' = Some g"
      "l' = l \<and> m = ?n \<or> m < count (es_counter (ss_cells s ! se_cell g))" "m < 2 ^ 64"
      using assms(2,5) by (auto simp: issued_def)
    then have "m < count (es_counter (ss_cells s' ! se_cell g))"
      using cnt [OF g(2)] assms(2) by (auto split: if_splits)
    then show "z \<in> issued count s'" using g by (auto simp: issued_def enc)
  qed
qed

text \<open>The next value of a cell has not been issued.\<close>

lemma next_not_issued:
  assumes "kid_ok sl" "cells_inv sl s" "ss_encryptors s l = Some h"
    and "count (es_counter (ss_cells s ! se_cell h)) < 2 ^ 64"
  shows "Inr (se_kid h, word_of_nat (count (es_counter (ss_cells s ! se_cell h)))) \<notin> issued count s"
proof
  let ?n = "count (es_counter (ss_cells s ! se_cell h))"
  assume "Inr (se_kid h, word_of_nat ?n) \<in> issued count s"
  then obtain l' g m where g: "se_kid g = se_kid h" "(word_of_nat m :: u64) = word_of_nat ?n"
    "ss_encryptors s l' = Some g" "m < count (es_counter (ss_cells s ! se_cell g))" "m < 2 ^ 64"
    by (auto simp: issued_def)
  have "leaf_cell sl s l h" "leaf_cell sl s l' g" using assms(2,3) g(3) by (auto simp: cells_inv_def)
  then have "l' < 2 ^ 16" "l < 2 ^ 16" "kid_from sl (ss_epoch s) l' = kid_from sl (ss_epoch s) l"
    using g(1) unfolding leaf_cell_def by metis+
  then have "l' = l" by (rule kid_from_inj [OF assms(1)])
  then have "g = h" using g(3) assms(3) by simp
  moreover have "m = ?n"
    using arg_cong [OF g(2), of unat] g(5) assms(4) by (simp add: unat_of_nat)
  ultimately show False using g(4) by simp
qed

lemma sf_inv_step:
  assumes lib: "kid_ok sl" "counter_ok sl count" "cipher_ok sl" and inv: "sf_inv sl count x"
    and leaf: "\<forall>l. c = Obtain l \<longrightarrow> l < 2 ^ 16"
  shows "sf_inv sl count (sf_step sl c x)"
proof (cases c)
  case (Obtain l)
  show ?thesis
  proof (cases "session_encryptor sl l (sr_session x)")
    case (Some sh)
    obtain s h where sh: "sh = (s, h)" by force
    have "session_encryptor sl l (sr_session x) = Some (s, h)" using Some sh by simp
    note facts = cells_inv_obtain(1-3) [OF _ _ this] cells_inv_obtain(4) [OF _ _ this, where count = count]
    show ?thesis using inv leaf Obtain Some sh facts by (auto simp: sf_inv_def)
  qed (use inv Obtain in simp)
next
  case (Use i pt aad)
  show ?thesis
  proof (cases "i < length (sr_handles x)")
    case True
    let ?h = "sr_handles x ! i" and ?s = "sr_session x"
    obtain s r where run: "session_encrypt sl ?h pt aad ?s = (s, r)" by force
    have "?h \<in> ran (ss_encryptors ?s)" using True inv nth_mem unfolding sf_inv_def by blast
    then obtain l where l: "ss_encryptors ?s l = Some ?h" by (auto simp: ran_def)
    have cells: "cells_inv sl ?s" using inv by (simp add: sf_inv_def)
    from lib(2) run show ?thesis
    proof (cases rule: session_encrypt_cases)
      case exhausted
      then show ?thesis using inv True Use run by (auto simp: sf_inv_def)
    next
      case (issue c')
      let ?hd = "Inr (se_kid ?h, word_of_nat (count (es_counter (ss_cells ?s ! se_cell ?h))))"
      have iss: "issued count s = insert ?hd (issued count ?s)"
        by (rule issued_issue [where count = count, OF cells l issue(2,3,1)])
      have new: "?hd \<notin> issued count ?s" by (rule next_not_issued [where count = count, OF lib(1) cells l issue(1)])
      have inv': "cells_inv sl s" using cells_inv_issue [OF cells] issue(3) by simp
      have enc: "ss_encryptors s = ss_encryptors ?s" using issue(3) by simp
      show ?thesis
      proof (cases r)
        case (Inl e)
        then show ?thesis using inv True Use run inv' iss enc by (auto simp: sf_inv_def)
      next
        case (Inr out)
        then obtain raw where raw: "sl_encrypt sl (es_key (ss_cells ?s ! se_cell ?h))
            (word_of_nat (count (es_counter (ss_cells ?s ! se_cell ?h)))) pt aad = Some raw" "out = drop (length aad) raw"
          using issue(4) by (auto split: option.splits)
        have "leaf_cell sl ?s l ?h" using cells l by (simp add: cells_inv_def)
        then have "sl_enc_key sl (to_sframe (ss_suite ?s)) (se_kid ?h) (ss_base_key ?s) = Some (es_key (ss_cells ?s ! se_cell ?h))"
          unfolding leaf_cell_def by blast
        then have "sl_parse sl out aad = ?hd"
          using lib(3) raw unfolding cipher_ok_def by (metis option.inject)
        then have "headers sl (sr_frames x @ [(out, aad)]) = headers sl (sr_frames x) @ [?hd]"
          by (simp add: headers_def)
        then show ?thesis using inv True Use run inv' iss enc new Inr by (auto simp: sf_inv_def)
      qed
    qed
  qed (use inv Use in simp)
qed

lemma sf_inv_run:
  assumes "kid_ok sl" "counter_ok sl count" "cipher_ok sl" "sf_inv sl count x" "\<forall>l\<in>obtained cs. l < 2 ^ 16"
  shows "sf_inv sl count (fold (sf_step sl) cs x)"
  using assms(4,5)
proof (induction cs arbitrary: x)
  case (Cons c cs)
  have "sf_inv sl count (sf_step sl c x)"
    by (rule sf_inv_step [OF assms(1-3) Cons.prems(1)]) (use Cons.prems(2) in \<open>auto simp: obtained_def\<close>)
  then show ?case using Cons.IH Cons.prems(2) by (simp add: obtained_def)
qed simp

text \<open>
  C12. No nonce is used twice. Whatever handles are obtained from a session, cloned and used in whatever
  order, the frames that come out have pairwise different (key id, counter) headers, so the cipher
  never sees the same key and counter twice, as long as leaf indices fit the 16 bits of a key id.
\<close>

theorem sframe_no_nonce_reuse:
  assumes "kid_ok sl" and "counter_ok sl count" and "cipher_ok sl"
    and "\<forall>l\<in>obtained cs. l < 2 ^ 16"
  shows "distinct (headers sl (sr_frames (fold (sf_step sl) cs (sf_start base_key epoch suite))))"
proof -
  have "sf_inv sl count (sf_start base_key epoch suite)"
    by (simp add: sf_inv_def sf_start_def session_new_def cells_inv_def headers_def)
  from sf_inv_run [OF assms(1-3) this assms(4)] show ?thesis by (simp add: sf_inv_def)
qed

subsection \<open>Receiving\<close>

text \<open>Feeding a decryptor a sequence of payloads, genuine or not: those it accepts, and its final state.\<close>

fun sf_receive ::
    "('k, 'd, 'c, 'r) sframe_lib \<Rightarrow> (bytes \<times> bytes) list \<Rightarrow> ('d, 'r) sframe_decryptor \<Rightarrow>
      (bytes \<times> bytes) list \<times> ('d, 'r) sframe_decryptor" where
  "sf_receive sl [] d = ([], d)"
| "sf_receive sl ((p, aad) # ps) d =
     (case sframe_decrypt sl p aad d of
        None \<Rightarrow> ([], d)
      | Some (d1, Inl e) \<Rightarrow> sf_receive sl ps d1
      | Some (d1, Inr m) \<Rightarrow> (case sf_receive sl ps d1 of (acc, d2) \<Rightarrow> ((p, aad) # acc, d2)))"

definition keys_inv :: "('k, 'd, 'c, 'r) sframe_lib \<Rightarrow> ('d, 'r) sframe_decryptor \<Rightarrow> bool" where
  "keys_inv sl d \<longleftrightarrow> (\<forall>kid key. sd_keys d kid = Some key \<longrightarrow>
     sl_dec_key sl (to_sframe (sd_suite d)) kid (sd_base_key d) = Some key)"

definition same_session :: "('d, 'r) sframe_decryptor \<Rightarrow> ('d, 'r) sframe_decryptor \<Rightarrow> bool" where
  "same_session d d' \<longleftrightarrow> sd_base_key d' = sd_base_key d \<and> sd_epoch d' = sd_epoch d \<and> sd_suite d' = sd_suite d"

text \<open>
  A decryptor whose key cache is right behaves as one without a cache: its answer depends on the
  session's parameters and the replay store only.
\<close>

definition decrypt_answer ::
    "('k, 'd, 'c, 'r) sframe_lib \<Rightarrow> bytes \<Rightarrow> bytes \<Rightarrow> ('d, 'r) sframe_decryptor \<Rightarrow>
      ('r \<times> (sframe_error + bytes \<times> u32)) option" where
  "decrypt_answer sl p aad d =
     (case sl_parse sl p aad of Inl e \<Rightarrow> Some (sd_replay d, Inl (Header e))
      | Inr (kid, ctr) \<Rightarrow>
        (if epoch_from_kid sl kid \<noteq> epoch_lsb sl (sd_epoch d) then Some (sd_replay d, Inl (UnknownKid kid))
         else if \<not> sl_inspect sl (sd_replay d) kid ctr then Some (sd_replay d, Inl (Replay kid ctr))
         else case sl_dec_key sl (to_sframe (sd_suite d)) kid (sd_base_key d) of None \<Rightarrow> None
           | Some key \<Rightarrow>
             (case sl_decrypt sl key p aad of None \<Rightarrow> Some (sd_replay d, Inl Decrypt)
              | Some media \<Rightarrow>
                (case sl_validate sl (sd_replay d) kid ctr of None \<Rightarrow> Some (sd_replay d, Inl (Replay kid ctr))
                 | Some r' \<Rightarrow> Some (r', Inr (media, leaf_from_kid sl kid))))))"

lemma sframe_decrypt_answer:
  assumes "keys_inv sl d"
  shows "map_option (\<lambda>(d', r). (sd_replay d', r)) (sframe_decrypt sl p aad d) = decrypt_answer sl p aad d"
  using assms
  by (auto simp: sframe_decrypt_def decrypt_answer_def keys_inv_def Let_def split: sum.splits option.splits prod.splits)

lemma sframe_decrypt_inv:
  assumes "keys_inv sl d" "sframe_decrypt sl p aad d = Some (d', r)"
  shows "keys_inv sl d'" and "same_session d d'"
  using assms
  by (auto simp: sframe_decrypt_def keys_inv_def same_session_def Let_def
      split: sum.splits option.splits prod.splits if_splits)

lemma decrypt_answer_cong:
  assumes "same_session d d'" "sd_replay d' = sd_replay d"
  shows "decrypt_answer sl p aad d' = decrypt_answer sl p aad d"
proof -
  have "sd_base_key d' = sd_base_key d" "sd_epoch d' = sd_epoch d" "sd_suite d' = sd_suite d"
    using assms(1) by (simp_all add: same_session_def)
  then show ?thesis unfolding decrypt_answer_def using assms(2) by presburger
qed

lemma decrypt_answer_Inl: "decrypt_answer sl p aad d = Some (r, Inl e) \<Longrightarrow> r = sd_replay d"
  by (auto simp: decrypt_answer_def split: sum.splits option.splits prod.splits if_splits)

lemma decrypt_answer_Inr:
  assumes "decrypt_answer sl p aad d = Some (r, Inr m)"
  obtains kid ctr where "sl_parse sl p aad = Inr (kid, ctr)" "sl_inspect sl (sd_replay d) kid ctr"
    "sl_validate sl (sd_replay d) kid ctr = Some r"
  using assms by (auto simp: decrypt_answer_def split: sum.splits option.splits prod.splits if_splits)

lemma keys_inv_new [simp]: "keys_inv sl (session_decryptor sl s)"
  by (simp add: keys_inv_def session_decryptor_def decryptor_new_def)

lemma sf_receive_distinct:
  assumes "store_ok sl noted" "keys_inv sl d" "sf_receive sl ps d = (acc, d')"
  shows "distinct (headers sl acc) \<and> (\<forall>h\<in>set (headers sl acc). \<exists>k c. h = Inr (k, c) \<and> (k, c) \<notin> noted (sd_replay d))"
  using assms(2,3)
proof (induction ps arbitrary: d acc)
  case (Cons p ps)
  obtain pl aad where p: "p = (pl, aad)" by force
  show ?case
  proof (cases "sframe_decrypt sl pl aad d")
    case None
    then show ?thesis using Cons.prems(2) p by (simp add: headers_def)
  next
    case (Some dr)
    obtain d1 r where dr: "dr = (d1, r)" by force
    have inv1: "keys_inv sl d1" using sframe_decrypt_inv(1) [OF Cons.prems(1)] Some dr by simp
    have ans: "decrypt_answer sl pl aad d = Some (sd_replay d1, r)"
      using sframe_decrypt_answer [OF Cons.prems(1), of pl aad] Some dr by simp
    show ?thesis
    proof (cases r)
      case (Inl e)
      then have "sd_replay d1 = sd_replay d" using ans decrypt_answer_Inl by metis
      then show ?thesis using Cons.IH [OF inv1] Cons.prems(2) Some dr p Inl by simp
    next
      case (Inr m)
      obtain acc' where acc': "sf_receive sl ps d1 = (acc', d')" "acc = (pl, aad) # acc'"
        using Cons.prems(2) Some dr p Inr by (auto split: prod.splits)
      from ans Inr have "decrypt_answer sl pl aad d = Some (sd_replay d1, Inr m)" by simp
      from decrypt_answer_Inr [OF this] obtain kid ctr where kc: "sl_parse sl pl aad = Inr (kid, ctr)"
        "sl_inspect sl (sd_replay d) kid ctr" "sl_validate sl (sd_replay d) kid ctr = Some (sd_replay d1)" .
      then have "(kid, ctr) \<notin> noted (sd_replay d)" "insert (kid, ctr) (noted (sd_replay d)) \<subseteq> noted (sd_replay d1)"
        using assms(1) unfolding store_ok_def by fastforce+
      then show ?thesis using Cons.IH [OF inv1 acc'(1)] acc'(2) kc(1) by (fastforce simp: headers_def)
    qed
  qed
qed (simp add: headers_def)

text \<open>
  C15. Replays are refused. Whatever an attacker feeds to the decryptor of a session, in whatever order
  and however often, the payloads it accepts have pairwise different (key id, counter) headers.
\<close>

theorem sframe_replay_protection:
  assumes "store_ok sl noted" and "sf_receive sl ps (session_decryptor sl s) = (acc, d)"
  shows "distinct (headers sl acc)"
  using sf_receive_distinct [OF assms(1) keys_inv_new assms(2)] by simp

subsection \<open>Genuine frames get through\<close>

definition params :: "('k, 'c) sframe_session \<Rightarrow> bytes \<times> u64 \<times> cipher_suite" where
  "params s = (ss_base_key s, ss_epoch s, ss_suite s)"

lemma params_step: "params (sr_session (sf_step sl c x)) = params (sr_session x)"
  by (cases c) (auto simp: params_def session_encryptor_def session_encrypt_def Let_def
      split: option.splits prod.splits sum.splits)

lemma params_run: "params (sr_session (fold (sf_step sl) cs x)) = params (sr_session x)"
  by (induction cs arbitrary: x) (simp_all add: params_step)

lemma sf_receive_refused:
  assumes "keys_inv sl d" "sf_receive sl ps d = ([], d')"
  shows "keys_inv sl d' \<and> same_session d d' \<and> sd_replay d' = sd_replay d"
  using assms
proof (induction ps arbitrary: d)
  case (Cons p ps)
  obtain pl aad where p: "p = (pl, aad)" by force
  show ?case
  proof (cases "sframe_decrypt sl pl aad d")
    case None
    then show ?thesis using Cons.prems p by (simp add: same_session_def)
  next
    case (Some dr)
    obtain d1 r where dr: "dr = (d1, r)" by force
    then obtain e where e: "r = Inl e" "sf_receive sl ps d1 = ([], d')"
      using Cons.prems(2) Some p by (auto split: sum.splits prod.splits)
    have dec: "sframe_decrypt sl pl aad d = Some (d1, r)" using Some dr by simp
    have "decrypt_answer sl pl aad d = Some (sd_replay d1, Inl e)"
      using sframe_decrypt_answer [OF Cons.prems(1), of pl aad] dec e(1) by simp
    from decrypt_answer_Inl [OF this] show ?thesis
      using Cons.IH [OF sframe_decrypt_inv(1) [OF Cons.prems(1) dec] e(2)] sframe_decrypt_inv(2) [OF Cons.prems(1) dec]
      unfolding same_session_def by metis
  qed
qed (simp add: same_session_def)

lemma genuine_header:
  assumes "counter_ok sl count" "cipher_ok sl" "leaf_cell sl s leaf h" "session_encrypt sl h pt aad s = (s', Inr out)"
  obtains ctr d where "sl_parse sl out aad = Inr (kid_from sl (ss_epoch s) leaf, ctr)"
    "sl_dec_key sl (to_sframe (ss_suite s)) (kid_from sl (ss_epoch s) leaf) (ss_base_key s) = Some d"
    "sl_decrypt sl d out aad = Some pt"
proof -
  from assms(1,4) obtain ctr raw where raw:
    "sl_encrypt sl (es_key (ss_cells s ! se_cell h)) ctr pt aad = Some raw" "out = drop (length aad) raw"
    by (cases rule: session_encrypt_cases) (auto split: option.splits)
  have "se_kid h = kid_from sl (ss_epoch s) leaf"
    "sl_enc_key sl (to_sframe (ss_suite s)) (se_kid h) (ss_base_key s) = Some (es_key (ss_cells s ! se_cell h))"
    using assms(3) unfolding leaf_cell_def by blast+
  then have enc: "sl_enc_key sl (to_sframe (ss_suite s)) (kid_from sl (ss_epoch s) leaf) (ss_base_key s)
      = Some (es_key (ss_cells s ! se_cell h))" by simp
  from assms(2) obtain k d where kd:
    "sl_enc_key sl (to_sframe (ss_suite s)) (kid_from sl (ss_epoch s) leaf) (ss_base_key s) = Some k"
    "sl_dec_key sl (to_sframe (ss_suite s)) (kid_from sl (ss_epoch s) leaf) (ss_base_key s) = Some d"
    "\<And>ctr pt aad out. sl_encrypt sl k ctr pt aad = Some out \<Longrightarrow>
       sl_parse sl (drop (length aad) out) aad = Inr (kid_from sl (ss_epoch s) leaf, ctr)
       \<and> sl_decrypt sl d (drop (length aad) out) aad = Some pt"
    unfolding cipher_ok_def by meson
  have "k = es_key (ss_cells s ! se_cell h)" using kd(1) enc by simp
  then show ?thesis using kd(2) kd(3) [of ctr pt aad raw] raw that by blast
qed

text \<open>
  C16. Forged frames cannot keep genuine ones out. A frame encrypted through any handle of a session is
  decrypted by the session's receiver to its plaintext and the leaf the handle was obtained for, after
  whatever payloads the receiver has refused before: a refused payload (malformed, of another epoch, or
  failing authentication) leaves the replay window as it was.
\<close>

theorem sframe_genuine_after_forgeries:
  assumes "kid_ok sl" and "counter_ok sl count" and "cipher_ok sl" and "store_ok sl noted"
    and "\<forall>kid ctr. sl_inspect sl (sl_store sl REPLAY_WINDOW) kid ctr"
    and "\<forall>l\<in>obtained cs. l < 2 ^ 16"
    and "x = fold (sf_step sl) cs (sf_start base_key epoch suite)" and "i < length (sr_handles x)"
    and "session_encrypt sl (sr_handles x ! i) pt aad (sr_session x) = (s', Inr out)"
    and "sf_receive sl ps (decryptor_new sl base_key epoch suite) = ([], d)"
  shows "\<exists>d' leaf. sframe_decrypt sl out aad d = Some (d', Inr (pt, leaf))
    \<and> ss_encryptors (sr_session x) leaf = Some (sr_handles x ! i)"
proof -
  let ?s = "sr_session x" and ?h = "sr_handles x ! i" and ?d0 = "decryptor_new sl base_key epoch suite"
  have "sf_inv sl count (sf_start base_key epoch suite)"
    by (simp add: sf_inv_def sf_start_def session_new_def cells_inv_def headers_def)
  then have inv: "sf_inv sl count x" using sf_inv_run [OF assms(1-3) _ assms(6)] assms(7) by simp
  then have "?h \<in> ran (ss_encryptors ?s)" using assms(8) nth_mem unfolding sf_inv_def by blast
  then obtain leaf where leaf: "ss_encryptors ?s leaf = Some ?h" by (auto simp: ran_def)
  then have cell: "leaf_cell sl ?s leaf ?h" using inv by (simp add: sf_inv_def cells_inv_def)
  have par: "ss_base_key ?s = base_key" "ss_epoch ?s = epoch" "ss_suite ?s = suite"
    using params_run [of sl cs "sf_start base_key epoch suite"] assms(7)
    by (simp_all add: params_def sf_start_def session_new_def)
  from genuine_header [OF assms(2,3) cell assms(9)] obtain ctr key where g:
    "sl_parse sl out aad = Inr (kid_from sl epoch leaf, ctr)"
    "sl_dec_key sl (to_sframe suite) (kid_from sl epoch leaf) base_key = Some key" "sl_decrypt sl key out aad = Some pt"
    unfolding par .
  have "keys_inv sl ?d0" by (simp add: keys_inv_def decryptor_new_def)
  note d = sf_receive_refused [OF this assms(10)]
  have lt: "leaf < 2 ^ 16" using cell by (simp add: leaf_cell_def)
  obtain r' where r': "sl_validate sl (sl_store sl REPLAY_WINDOW) (kid_from sl epoch leaf) ctr = Some r'"
    using assms(4,5) unfolding store_ok_def by blast
  have "decrypt_answer sl out aad ?d0 = Some (r', Inr (pt, leaf))"
    using g r' assms(5) leaf_kid [OF assms(1) lt, of epoch] by (simp add: decrypt_answer_def decryptor_new_def)
  then have "decrypt_answer sl out aad d = Some (r', Inr (pt, leaf))"
    by (subst decrypt_answer_cong [of ?d0]) (use d in blast)+
  then have "map_option (\<lambda>(d', r). (sd_replay d', r)) (sframe_decrypt sl out aad d) = Some (r', Inr (pt, leaf))"
    using sframe_decrypt_answer [of sl d out aad] d by simp
  then show ?thesis using leaf by auto
qed

subsection \<open>A concrete instance\<close>

text \<open>Keys are their inputs, counters count, the store is the list of what it accepted, nothing is hidden.\<close>

definition toy_sframe :: "(u64, u64, nat, (u64 \<times> u64) list) sframe_lib" where
  "toy_sframe =
    \<lparr>sl_key_id = (\<lambda>c e i eb ib. push_bit 16 i OR take_bit 16 e),
     sl_epoch_lsb = (\<lambda>k eb ib. take_bit 16 k), sl_member_index = (\<lambda>k eb ib. drop_bit 16 k),
     sl_enc_key = (\<lambda>su kid b. Some kid), sl_dec_key = (\<lambda>su kid b. Some kid),
     sl_counter = 0, sl_current = word_of_nat, sl_is_exhausted = (\<lambda>c. 2 ^ 64 \<le> c),
     sl_next = (\<lambda>c. (word_of_nat c, Suc c)),
     sl_encrypt = (\<lambda>k ctr pt aad. Some (aad @ bits_of k @ bits_of ctr @ pt)),
     sl_parse = (\<lambda>p aad. if length p < 128 then Inl ''short'' else Inr (of_bits (take 64 p), of_bits (take 64 (drop 64 p)))),
     sl_decrypt = (\<lambda>k p aad. Some (drop 128 p)),
     sl_store = (\<lambda>t. []), sl_inspect = (\<lambda>r kid ctr. (kid, ctr) \<notin> set r),
     sl_validate = (\<lambda>r kid ctr. if (kid, ctr) \<in> set r then None else Some ((kid, ctr) # r))\<rparr>"

lemma toy_sframe_ok [simp]:
  "kid_ok toy_sframe" "counter_ok toy_sframe id" "cipher_ok toy_sframe" "store_ok toy_sframe set"
proof -
  have "take_bit 16 (push_bit 16 i OR take_bit 16 e) = take_bit 16 e"
    "i < 2 ^ 16 \<longrightarrow> drop_bit 16 (push_bit 16 i OR take_bit 16 e) = i" for i e :: u64
  proof -
    show "take_bit 16 (push_bit 16 i OR take_bit 16 e) = take_bit 16 e"
      by (rule bit_word_eqI) (auto simp: bit_simps)
    show "i < 2 ^ 16 \<longrightarrow> drop_bit 16 (push_bit 16 i OR take_bit 16 e) = i"
    proof
      assume "i < 2 ^ 16"
      then have "take_bit 16 (unat i) = unat i" by (simp add: take_bit_nat_eq_self_iff word_less_nat_alt)
      then have "bit (unat i) n \<Longrightarrow> n < 16" for n by (metis bit_take_bit_iff)
      then have lt: "bit i n \<Longrightarrow> n < 16" for n by (metis bit_imp_le_length bit_unsigned_iff possible_bit_nat)
      then have "bit i n \<Longrightarrow> n < 48" for n using lt [of n] by linarith
      then show "drop_bit 16 (push_bit 16 i OR take_bit 16 e) = i"
        using lt by (intro bit_word_eqI) (auto simp: bit_simps)
    qed
  qed
  then show "kid_ok toy_sframe" by (simp add: kid_ok_def toy_sframe_def)
  show "counter_ok toy_sframe id" by (simp add: counter_ok_def toy_sframe_def)
  show "cipher_ok toy_sframe" by (simp add: cipher_ok_def toy_sframe_def)
  show "store_ok toy_sframe set" by (auto simp: store_ok_def toy_sframe_def)
qed

theorem sframe_no_nonce_reuse_witness:
  "distinct (headers toy_sframe (sr_frames (fold (sf_step toy_sframe)
     [Obtain 3, Use 0 [1] [], Obtain 3, Use 1 [2] [9], Obtain 4, Use 2 [3] [], Use 0 [4] []]
     (sf_start [] 7 Aes128Gcm))))"
  by (rule sframe_no_nonce_reuse [OF toy_sframe_ok(1,2,3)]) (auto simp: obtained_def)

theorem sframe_replay_protection_witness:
  "distinct (headers toy_sframe (fst (sf_receive toy_sframe
     [(bits_of (0 :: u64) @ bits_of (5 :: u64) @ [1], []), (bits_of (0 :: u64) @ bits_of (5 :: u64) @ [2], [])]
     (session_decryptor toy_sframe (session_new [] 0 Aes128Gcm)))))"
proof -
  obtain acc d where r: "sf_receive toy_sframe
     [(bits_of (0 :: u64) @ bits_of (5 :: u64) @ [1], []), (bits_of (0 :: u64) @ bits_of (5 :: u64) @ [2], [])]
     (session_decryptor toy_sframe (session_new [] 0 Aes128Gcm)) = (acc, d)" by force
  from sframe_replay_protection [OF toy_sframe_ok(4) this] show ?thesis by (simp only: r fst_conv)
qed

theorem sframe_genuine_after_forgeries_witness:
  "\<exists>d leaf. sframe_decrypt toy_sframe (bits_of (push_bit 16 3 OR 7 :: u64) @ bits_of (0 :: u64) @ [1]) []
     (snd (sf_receive toy_sframe [([1, 2], [])] (decryptor_new toy_sframe [] 7 Aes128Gcm))) = Some (d, Inr ([1], leaf))"
proof -
  let ?x = "fold (sf_step toy_sframe) [Obtain 3] (sf_start [] 7 Aes128Gcm)"
  have x: "sr_handles ?x = [\<lparr>se_cell = 0, se_kid = push_bit 16 3 OR 7\<rparr>]"
    "ss_cells (sr_session ?x) = [\<lparr>es_key = push_bit 16 3 OR 7, es_counter = 0\<rparr>]"
    by (simp_all add: sf_start_def session_new_def session_encryptor_def encryptor_new_def Let_def toy_sframe_def
        kid_from_def)
  then have enc: "\<exists>s'. session_encrypt toy_sframe (sr_handles ?x ! 0) [1] [] (sr_session ?x)
      = (s', Inr (bits_of (push_bit 16 3 OR 7 :: u64) @ bits_of (0 :: u64) @ [1]))"
    by (simp add: session_encrypt_def sframe_encrypt_def Let_def toy_sframe_def)
  then obtain s' where s': "session_encrypt toy_sframe (sr_handles ?x ! 0) [1] [] (sr_session ?x)
      = (s', Inr (bits_of (push_bit 16 3 OR 7 :: u64) @ bits_of (0 :: u64) @ [1]))" by blast
  have rec: "sf_receive toy_sframe [([1, 2], [])] (decryptor_new toy_sframe [] 7 Aes128Gcm)
      = ([], decryptor_new toy_sframe [] 7 Aes128Gcm)"
    by (simp add: sframe_decrypt_def toy_sframe_def)
  have "\<forall>kid ctr. sl_inspect toy_sframe (sl_store toy_sframe REPLAY_WINDOW) kid ctr" by (simp add: toy_sframe_def)
  moreover have "\<forall>l\<in>obtained [Obtain 3]. l < 2 ^ 16" by (auto simp: obtained_def)
  moreover have "0 < length (sr_handles ?x)" using x(1) by simp
  ultimately have "\<exists>d' leaf. sframe_decrypt toy_sframe (bits_of (push_bit 16 3 OR 7 :: u64) @ bits_of (0 :: u64) @ [1]) []
      (decryptor_new toy_sframe [] 7 Aes128Gcm) = Some (d', Inr ([1], leaf))"
    using sframe_genuine_after_forgeries [OF toy_sframe_ok _ _ refl _ s' rec] by blast
  then show ?thesis unfolding rec snd_conv .
qed

end
