(* ===== verification/Gbp_Quic.thy ===== *)
theory Gbp_Quic
  imports Gbp_Transport
begin

section \<open>QUIC endpoints and streams (\<^verbatim>\<open>gbp-transport\<close>, \<^verbatim>\<open>quic.rs\<close>)\<close>

text \<open>
  The rest of \<^verbatim>\<open>quic.rs\<close>: the endpoints with their TLS configuration, the opening, accepting and finishing of
  streams, and the verifier that replaces certificate verification when no authority is given. What
  quinn and rustls do is a parameter, with their errors as the texts they display. The theorems say when an
  endpoint is made and what it trusts, and what a peer reads from a stream that has been finished.
\<close>

subsection \<open>The libraries\<close>

text \<open>
  A certificate verifier is the object of the trait \<^verbatim>\<open>ServerCertVerifier\<close>; a crypto provider has the signature checks
  and the schemes it supports. Of the time and the stapled response the verifier of this file uses nothing.
\<close>

record ('name, 'dss, 'scheme) cert_verifier =
  cv_server_cert :: "bytes \<Rightarrow> bytes list \<Rightarrow> 'name \<Rightarrow> bytes \<Rightarrow> u64 \<Rightarrow> string + unit"
  cv_tls12 :: "bytes \<Rightarrow> bytes \<Rightarrow> 'dss \<Rightarrow> string + unit"
  cv_tls13 :: "bytes \<Rightarrow> bytes \<Rightarrow> 'dss \<Rightarrow> string + unit"
  cv_schemes :: "'scheme list"

record ('alg, 'dss, 'scheme) crypto_lib =
  cl_algorithms :: 'alg
  cl_verify12 :: "bytes \<Rightarrow> bytes \<Rightarrow> 'dss \<Rightarrow> 'alg \<Rightarrow> string + unit"
  cl_verify13 :: "bytes \<Rightarrow> bytes \<Rightarrow> 'dss \<Rightarrow> 'alg \<Rightarrow> string + unit"
  cl_supported :: "'alg \<Rightarrow> 'scheme list"

record ('key, 'sc, 'roots, 'v, 'rc, 'qc, 'cc, 'addr, 'ep) quinn_lib =
  ql_private_key :: "bytes \<Rightarrow> string + 'key"
  ql_single_cert :: "bytes list \<Rightarrow> 'key \<Rightarrow> string + 'sc"
  ql_server :: "'sc \<Rightarrow> 'addr \<Rightarrow> string + 'ep"
  ql_no_roots :: 'roots
  ql_add_root :: "bytes \<Rightarrow> 'roots \<Rightarrow> string + 'roots"
  ql_with_roots :: "'roots \<Rightarrow> string + 'cc"
  ql_with_verifier :: "'v \<Rightarrow> 'rc"
  ql_quic_crypto :: "'rc \<Rightarrow> string + 'qc"
  ql_client_config :: "'qc \<Rightarrow> 'cc"
  ql_client :: "'addr \<Rightarrow> string + 'ep"
  ql_set_default :: "'cc \<Rightarrow> 'ep \<Rightarrow> 'ep"

text \<open>\<^verbatim>\<open>map_err\<close> with the text in front, followed by the question mark operator.\<close>

definition quic_try :: "string \<Rightarrow> string + 'a \<Rightarrow> ('a \<Rightarrow> wire_error + 'b) \<Rightarrow> wire_error + 'b" where
  "quic_try what r k = (case r of Inl e \<Rightarrow> Inl (Quic (what @ e)) | Inr x \<Rightarrow> k x)"

lemma quic_try_Inr: "quic_try what r k = Inr y \<longleftrightarrow> (\<exists>x. r = Inr x \<and> k x = Inr y)"
  by (cases r) (simp_all add: quic_try_def)

lemma quic_try_Inl: "quic_try what r k = Inl e \<longleftrightarrow> (\<exists>t. r = Inl t \<and> e = Quic (what @ t)) \<or> (\<exists>x. r = Inr x \<and> k x = Inl e)"
  by (cases r) (auto simp: quic_try_def)

lemmas quic_try_simps = quic_try_Inr quic_try_Inl

subsection \<open>Verification skipped\<close>

definition skip_server_verification :: "('alg, 'dss, 'scheme) crypto_lib \<Rightarrow> ('name, 'dss, 'scheme) cert_verifier" where
  "skip_server_verification p =
     \<lparr>cv_server_cert = (\<lambda>end_entity intermediates server_name ocsp_response now. Inr ()),
      cv_tls12 = (\<lambda>message cert dss. cl_verify12 p message cert dss (cl_algorithms p)),
      cv_tls13 = (\<lambda>message cert dss. cl_verify13 p message cert dss (cl_algorithms p)),
      cv_schemes = cl_supported p (cl_algorithms p)\<rparr>"

subsection \<open>Endpoints\<close>

definition make_server_config where
  "make_server_config q cert_der key_der =
     quic_try ''invalid private key: '' (ql_private_key q key_der) (\<lambda>key.
     quic_try ''tls server config: '' (ql_single_cert q [cert_der] key) Inr)"

definition make_server_endpoint where
  "make_server_endpoint q addr cert_der key_der =
     (case make_server_config q cert_der key_der of Inl e \<Rightarrow> Inl e
      | Inr config \<Rightarrow> quic_try [] (ql_server q config addr) Inr)"

definition make_client_endpoint where
  "make_client_endpoint q p local_addr ca_cert_der =
     (case (case ca_cert_der of
              Some ca \<Rightarrow>
                quic_try ''add CA cert: '' (ql_add_root q ca (ql_no_roots q)) (\<lambda>roots.
                quic_try ''tls client config: '' (ql_with_roots q roots) Inr)
            | None \<Rightarrow>
                (let crypto = ql_with_verifier q (skip_server_verification p) in
                 quic_try ''quic client crypto: '' (ql_quic_crypto q crypto) (\<lambda>quic_cfg. Inr (ql_client_config q quic_cfg)))) of
        Inl e \<Rightarrow> Inl e
      | Inr client_cfg \<Rightarrow>
        quic_try [] (ql_client q local_addr) (\<lambda>endpoint. Inr (ql_set_default q client_cfg endpoint)))"

subsection \<open>Streams\<close>

text \<open>A connection hands out the two halves of a stream; finishing concerns the sending half only.\<close>

definition quic_open where
  "quic_open open_bi conn =
     (case open_bi conn of (conn1, r) \<Rightarrow>
       (conn1, quic_try [] r (\<lambda>(send, recv). Inr \<lparr>qs_send = send, qs_recv = recv\<rparr>)))"

definition quic_accept where
  "quic_accept accept_bi conn =
     (case accept_bi conn of (conn1, r) \<Rightarrow>
       (conn1, quic_try [] r (\<lambda>(send, recv). Inr \<lparr>qs_send = send, qs_recv = recv\<rparr>)))"

definition quic_finish :: "(sink \<Rightarrow> sink \<times> (string + unit)) \<Rightarrow> quic_stream \<Rightarrow> quic_stream \<times> (wire_error + unit)" where
  "quic_finish fin q = (case fin (qs_send q) of (s, r) \<Rightarrow> (q\<lparr>qs_send := s\<rparr>, quic_try [] r Inr))"

text \<open>What quinn documents of \<^verbatim>\<open>finish\<close>: what was written stays, and nothing more is taken.\<close>

definition finish_ok :: "(sink \<Rightarrow> sink \<times> (string + unit)) \<Rightarrow> bool" where
  "finish_ok fin \<longleftrightarrow> (\<forall>s s'. fin s = (s', Inr ()) \<longrightarrow> sk_taken s' = sk_taken s \<and> sk_room s' = 0)"

subsection \<open>What an endpoint trusts\<close>

text \<open>
  Every error of the two constructors is a QUIC error. A client that was given an authority is made exactly when the
  authority can be added to an empty store and the address can be bound, and its configuration is the one for that store:
  the skipping verifier is used on no path. Without an authority the verifier accepts every chain for every
  name, but the signature over the handshake is still the provider's check.
\<close>

lemma endpoint_errors:
  "make_server_endpoint q a cert key = Inl e \<Longrightarrow> \<exists>t. e = Quic t"
  "make_client_endpoint q p a ca = Inl e \<Longrightarrow> \<exists>t. e = Quic t"
  by (auto simp: make_server_endpoint_def make_server_config_def make_client_endpoint_def quic_try_simps
      split: sum.splits option.splits)

lemma client_endpoint_pinned:
  "make_client_endpoint q p a (Some ca) = Inr ep \<longleftrightarrow>
     (\<exists>roots cfg ep0. ql_add_root q ca (ql_no_roots q) = Inr roots \<and> ql_with_roots q roots = Inr cfg
        \<and> ql_client q a = Inr ep0 \<and> ep = ql_set_default q cfg ep0)"
  by (auto simp: make_client_endpoint_def quic_try_simps split: sum.splits)

lemma client_endpoint_unpinned:
  "make_client_endpoint q p a None = Inr ep \<longleftrightarrow>
     (\<exists>qc ep0. ql_quic_crypto q (ql_with_verifier q (skip_server_verification p)) = Inr qc
        \<and> ql_client q a = Inr ep0 \<and> ep = ql_set_default q (ql_client_config q qc) ep0)"
  by (auto simp: make_client_endpoint_def quic_try_simps split: sum.splits)

subsection \<open>A finished stream\<close>

lemma quic_write_blob_full:
  assumes "sk_room (qs_send q) = 0"
  shows "\<exists>e. quic_write_blob p q = (q, Inl e)"
proof (cases "length p \<le> MAX_FRAME")
  case True
  moreover have "write_all (le_bytes32 w) (qs_send q) = (qs_send q, Inl (sk_error (qs_send q)))" for w
    using assms by (simp add: write_all_def)
  ultimately show ?thesis by (simp add: quic_write_blob_def Let_def)
qed (simp add: quic_write_blob_def)

lemma quic_read_frames_error:
  "read_frames fc n (qs_recv q) = (r, Inl e) \<Longrightarrow> \<exists>e'. quic_read_frames fc n q = (q\<lparr>qs_recv := r\<rparr>, Inl e')"
proof (induction n arbitrary: q)
  case (Suc n)
  obtain s1 x where x: "read_frame fc (qs_recv q) = (s1, x)" by force
  show ?case
  proof (cases x)
    case (Inl d)
    then have "s1 = r" using Suc.prems x by simp
    moreover obtain d' where "as_quic (Inl d :: wire_error + gbp_frame) = Inl d'" by (cases d) simp_all
    ultimately show ?thesis using Inl x by (simp add: quic_read_frame_tcp)
  next
    case (Inr f)
    then have "read_frames fc n s1 = (r, Inl e)" using Suc.prems x by (auto split: prod.splits sum.splits)
    then show ?thesis using Suc.IH [of "q\<lparr>qs_recv := s1\<rparr>"] Inr x by (fastforce simp: quic_read_frame_tcp)
  qed
qed simp

text \<open>
  A finished QUIC stream carries exactly the frames written before. When well-formed frames have been
  written to a new stream that takes them and the stream is finished, every later write is refused and sends
  nothing; the peer, which reads what was sent, gets the first \<open>n\<close> frames for every \<open>n\<close> up to their number,
  and an error when it asks for more.
\<close>

theorem finished_stream_exact:
  assumes "finish_ok fin" and "reads_back fc" and "\<forall>f\<in>set fs. frame_fits fc f"
    and "sk_taken (qs_send q) = []" and "length (wire_of fc fs) \<le> sk_room (qs_send q)"
    and "quic_write_frames fc fs q = (q1, res)" and "quic_finish fin q1 = (q2, Inr ())"
    and "qs_recv peer = sk_taken (qs_send q2)"
  shows "res = Inr () \<and> (\<forall>p. \<exists>e. quic_write_blob p q2 = (q2, Inl e))
    \<and> (case snd (quic_read_frames fc n peer) of Inr gs \<Rightarrow> gs = take n fs \<and> n \<le> length fs | Inl e \<Rightarrow> length fs < n)"
proof -
  let ?s = "(qs_send q)\<lparr>sk_taken := wire_of fc fs, sk_room := sk_room (qs_send q) - length (wire_of fc fs)\<rparr>"
  have w: "write_frames fc fs (qs_send q) = (?s, Inr ())" using write_frames_room [OF assms(3,5)] assms(4) by simp
  from quic_write_frames_tcp [OF this] have q1: "q1 = q\<lparr>qs_send := ?s\<rparr>" "res = Inr ()" using assms(6) by simp_all
  have "fin (qs_send q1) = (qs_send q2, Inr ())"
    using assms(7) by (auto simp: quic_finish_def quic_try_simps split: prod.splits)
  then have q2: "sk_taken (qs_send q2) = wire_of fc fs" "sk_room (qs_send q2) = 0"
    using assms(1) q1(1) unfolding finish_ok_def by fastforce+
  have whole: "length (wire_of fc (take n fs)) \<le> length (wire_of fc fs)"
    by (metis append_take_drop_id concat_append length_append le_add1 map_append wire_of_def)
  obtain r x where x: "read_frames fc n (wire_of fc fs) = (r, x)" by force
  have "case x of Inr gs \<Rightarrow> gs = take n fs \<and> n \<le> length fs | Inl e \<Rightarrow> length fs < n"
    using cut_stream_yields_prefix [OF assms(2,3), of n "length (wire_of fc fs)"] x whole by (auto split: sum.splits)
  then have "case snd (quic_read_frames fc n peer) of Inr gs \<Rightarrow> gs = take n fs \<and> n \<le> length fs | Inl e \<Rightarrow> length fs < n"
    using quic_read_frames_tcp [of fc n peer r] quic_read_frames_error [of fc n peer r] x q2(1) assms(8)
    by (cases x) fastforce+
  then show ?thesis using q1(2) quic_write_blob_full [OF q2(2)] by blast
qed

text \<open>A stream that is finished by taking nothing more.\<close>

definition toy_finish :: "sink \<Rightarrow> sink \<times> (string + unit)" where
  "toy_finish s = (if sk_error s = ''closed'' then (s, Inl ''closed'') else (s\<lparr>sk_room := 0, sk_error := ''closed''\<rparr>, Inr ()))"

lemma toy_finish_ok: "finish_ok toy_finish"
  by (auto simp: finish_ok_def toy_finish_def split: if_splits)

theorem finished_stream_exact_witness:
  "\<exists>q1 q2. quic_write_frames toy_frame_codec [toy_wire_frame 1 [5]]
       \<lparr>qs_send = \<lparr>sk_taken = [], sk_room = 5000, sk_error = ''reset''\<rparr>, qs_recv = []\<rparr> = (q1, Inr ())
     \<and> quic_finish toy_finish q1 = (q2, Inr ()) \<and> (\<forall>p. \<exists>e. quic_write_blob p q2 = (q2, Inl e))
     \<and> snd (quic_read_frames toy_frame_codec 1 (q2\<lparr>qs_recv := sk_taken (qs_send q2)\<rparr>)) = Inr [toy_wire_frame 1 [5]]"
proof -
  let ?fs = "[toy_wire_frame 1 [5]]" and ?q = "\<lparr>qs_send = \<lparr>sk_taken = [], sk_room = 5000, sk_error = ''reset''\<rparr>, qs_recv = []\<rparr>"
  have room: "length (wire_of toy_frame_codec ?fs) \<le> sk_room (qs_send ?q)"
    by (simp add: toy_wire_frame_def frame_new_def frame_to_cbor_def toy_frame_codec_def field_codec_def
        put_fields_def bits_of_def)
  have fits: "\<forall>f\<in>set ?fs. frame_fits toy_frame_codec f" using toy_wire_frame_fits by simp
  obtain q1 where w: "quic_write_frames toy_frame_codec ?fs ?q = (q1, Inr ())" "sk_error (qs_send q1) = ''reset''"
    using quic_write_frames_tcp [of toy_frame_codec ?fs ?q, OF write_frames_room [OF fits room]] by simp
  then obtain q2 where f: "quic_finish toy_finish q1 = (q2, Inr ())"
    by (simp add: quic_finish_def toy_finish_def quic_try_def)
  from finished_stream_exact [OF toy_finish_ok _ fits _ room w(1) f, of "q2\<lparr>qs_recv := sk_taken (qs_send q2)\<rparr>" 1] w(1) f
  show ?thesis by (auto split: sum.splits)
qed

end
