(* ===== verification/Lock_Order.thy ===== *)
theory Lock_Order
  imports Gbp_Prelude
begin

section \<open>Threads that take locks\<close>

text \<open>
  Threads over mutexes, as far as blocking is concerned: a thread is the sequence of acquisitions and releases it has
  still to do, a mutex has at most one owner, an acquisition waits until the mutex is free, and the scheduler
  picks any thread that can go on. The classical discipline is stated as an interface: when every script of a
  program takes its locks in increasing rank and gives all of them back, any number of threads that run
  any scripts one after the other never block each other for good.
\<close>

datatype 'l lock_op = Acquire 'l | Release 'l

subsection \<open>One thread\<close>

text \<open>The locks held after a script, if it acquires in increasing rank and releases only what it holds.\<close>

fun locks_after :: "('l \<Rightarrow> nat) \<Rightarrow> 'l set \<Rightarrow> 'l lock_op list \<Rightarrow> 'l set option" where
  "locks_after rank H [] = Some H"
| "locks_after rank H (Acquire l # ops) =
     (if \<forall>l'\<in>H. rank l' < rank l then locks_after rank (insert l H) ops else None)"
| "locks_after rank H (Release l # ops) = (if l \<in> H then locks_after rank (H - {l}) ops else None)"

definition balanced :: "('l \<Rightarrow> nat) \<Rightarrow> 'l lock_op list \<Rightarrow> bool" where
  "balanced rank ops \<longleftrightarrow> locks_after rank {} ops = Some {}"

lemma locks_after_append:
  "locks_after rank H (xs @ ys) = Option.bind (locks_after rank H xs) (\<lambda>H'. locks_after rank H' ys)"
  by (induction rank H xs rule: locks_after.induct) auto

lemma balanced_concat: "\<forall>ops\<in>set scripts. balanced rank ops \<Longrightarrow> balanced rank (concat scripts)"
  by (induction scripts) (simp_all add: balanced_def locks_after_append)

subsection \<open>All threads\<close>

record 'l threads =
  owner :: "'l \<rightharpoonup> nat"
  todo :: "'l lock_op list list"

definition start :: "'l lock_op list list \<Rightarrow> 'l threads" where
  "start programs = \<lparr>owner = Map.empty, todo = programs\<rparr>"

inductive sched :: "'l threads \<Rightarrow> 'l threads \<Rightarrow> bool" where
  acquire: "i < length (todo s) \<Longrightarrow> todo s ! i = Acquire l # ops \<Longrightarrow> owner s l = None \<Longrightarrow>
    sched s (s\<lparr>owner := (owner s)(l \<mapsto> i), todo := (todo s)[i := ops]\<rparr>)"
| release: "i < length (todo s) \<Longrightarrow> todo s ! i = Release l # ops \<Longrightarrow> owner s l = Some i \<Longrightarrow>
    sched s (s\<lparr>owner := (owner s)(l := None), todo := (todo s)[i := ops]\<rparr>)"

inductive scheds :: "nat \<Rightarrow> 'l threads \<Rightarrow> 'l threads \<Rightarrow> bool" where
  none: "scheds 0 s s"
| more: "scheds n s s' \<Longrightarrow> sched s' s'' \<Longrightarrow> scheds (Suc n) s s''"

definition held :: "'l threads \<Rightarrow> nat \<Rightarrow> 'l set" where
  "held s i = {l. owner s l = Some i}"

definition disciplined :: "('l \<Rightarrow> nat) \<Rightarrow> 'l threads \<Rightarrow> bool" where
  "disciplined rank s \<longleftrightarrow>
     (\<forall>i<length (todo s). locks_after rank (held s i) (todo s ! i) = Some {})
     \<and> (\<forall>l i. owner s l = Some i \<longrightarrow> i < length (todo s))"

lemma disciplined_start: "\<forall>p\<in>set programs. balanced rank p \<Longrightarrow> disciplined rank (start programs)"
  by (simp add: disciplined_def start_def held_def balanced_def)

lemma held_upd:
  "held (s\<lparr>owner := (owner s)(l \<mapsto> i), todo := t\<rparr>) j = (if j = i then insert l (held s i) else held s j - {l})"
  "held (s\<lparr>owner := (owner s)(l := None), todo := t\<rparr>) j = held s j - {l}"
  by (auto simp: held_def)

lemma disciplined_sched: "sched s s' \<Longrightarrow> disciplined rank s \<Longrightarrow> disciplined rank s'"
proof (induction rule: sched.induct)
  case (acquire i s l ops)
  have "locks_after rank (held s i) (Acquire l # ops) = Some {}" using acquire unfolding disciplined_def by metis
  moreover have "held s j - {l} = held s j" for j using acquire(3) by (auto simp: held_def)
  ultimately show ?case using acquire unfolding disciplined_def held_upd
    by (auto simp: nth_list_update split: if_splits)
next
  case (release i s l ops)
  have "locks_after rank (held s i) (Release l # ops) = Some {}" using release unfolding disciplined_def by metis
  moreover have "j \<noteq> i \<Longrightarrow> held s j - {l} = held s j" for j using release(3) by (auto simp: held_def)
  ultimately show ?case using release unfolding disciplined_def held_upd
    by (auto simp: nth_list_update split: if_splits)
qed

lemma disciplined_scheds: "scheds n s s' \<Longrightarrow> disciplined rank s \<Longrightarrow> disciplined rank s'"
  by (induction rule: scheds.induct) (auto intro: disciplined_sched)

text \<open>Each step does one operation of one thread.\<close>

definition remaining :: "'l threads \<Rightarrow> nat" where
  "remaining s = sum_list (map length (todo s))"

lemma sum_lengths_update:
  "i < length xs \<Longrightarrow> sum_list (map length (xs[i := y])) + length (xs ! i) = sum_list (map length xs) + length y"
  by (induction xs arbitrary: i) (auto simp: less_Suc_eq_0_disj)

lemma sched_remaining: "sched s s' \<Longrightarrow> Suc (remaining s') = remaining s"
proof (induction rule: sched.induct)
  case (acquire i s l ops)
  then show ?case using sum_lengths_update [OF acquire(1), of ops] by (simp add: remaining_def)
next
  case (release i s l ops)
  then show ?case using sum_lengths_update [OF release(1), of ops] by (simp add: remaining_def)
qed

lemma scheds_remaining: "scheds n s s' \<Longrightarrow> n + remaining s' = remaining s"
  by (induction rule: scheds.induct) (auto dest!: sched_remaining)

subsection \<open>Progress\<close>

text \<open>Of all threads that wait, the one that waits for the lock of highest rank waits for nobody.\<close>

lemma disciplined_progress:
  assumes d: "disciplined rank s" and i: "i < length (todo s)" "todo s ! i \<noteq> []"
  shows "\<exists>s'. sched s s'"
proof (rule ccontr)
  assume stuck: "\<nexists>s'. sched s s'"
  define busy where "busy = {j. j < length (todo s) \<and> todo s ! j \<noteq> []}"
  have waits: "\<exists>l ops k. todo s ! j = Acquire l # ops \<and> owner s l = Some k \<and> k \<in> busy" if "j \<in> busy" for j
  proof -
    obtain x ops where x: "todo s ! j = x # ops" "j < length (todo s)"
      using \<open>j \<in> busy\<close> by (cases "todo s ! j") (auto simp: busy_def)
    have locks: "locks_after rank (held s j) (x # ops) = Some {}" using d x unfolding disciplined_def by metis
    show ?thesis
    proof (cases x)
      case (Release l)
      then have "owner s l = Some j" using locks by (auto simp: held_def split: if_splits)
      then show ?thesis using stuck sched.release [OF x(2)] x(1) Release by blast
    next
      case (Acquire l)
      then obtain k where k: "owner s l = Some k" using stuck sched.acquire [OF x(2)] x(1) by (cases "owner s l") blast+
      then have "k < length (todo s)" "l \<in> held s k" using d by (auto simp: disciplined_def held_def)
      moreover from this have "todo s ! k \<noteq> []" using d by (force simp: disciplined_def)
      ultimately show ?thesis using x Acquire k by (auto simp: busy_def)
    qed
  qed
  define want where "want j = (case hd (todo s ! j) of Acquire l \<Rightarrow> rank l | Release l \<Rightarrow> 0)" for j
  have "finite busy" "i \<in> busy" using i by (auto simp: busy_def)
  then obtain j where j: "j \<in> busy" "\<And>k. k \<in> busy \<Longrightarrow> want k \<le> want j"
    using obtains_MAX [of busy want] by (metis Max_ge empty_iff finite_imageI imageI)
  obtain l ops k where l: "todo s ! j = Acquire l # ops" "owner s l = Some k" "k \<in> busy" using waits [OF j(1)] by blast
  obtain l' ops' where l': "todo s ! k = Acquire l' # ops'" using waits [OF l(3)] by blast
  have "locks_after rank (held s k) (todo s ! k) = Some {}" using d l(3) by (auto simp: disciplined_def busy_def)
  then have "rank l < rank l'" using l(2) l' by (auto simp: held_def split: if_splits)
  then show False using j(2) [OF l(3)] l(1) l' by (simp add: want_def)
qed

subsection \<open>Programs made of scripts\<close>

text \<open>A thread makes calls one after the other; what a call does with locks depends on the call and on its outcome.\<close>

definition program :: "('o \<Rightarrow> 'c \<Rightarrow> 'l lock_op list) \<Rightarrow> ('o \<times> 'c) list \<Rightarrow> 'l lock_op list" where
  "program script calls = concat (map (\<lambda>(oc, c). script oc c) calls)"

locale ordered_scripts =
  fixes rank :: "'l \<Rightarrow> nat"
    and script :: "'o \<Rightarrow> 'c \<Rightarrow> 'l lock_op list"
  assumes script_balanced: "balanced rank (script oc c)"
begin

lemma program_balanced: "balanced rank (program script calls)"
  unfolding program_def by (rule balanced_concat) (auto intro: script_balanced)

lemma threads_disciplined: "scheds n (start (map (program script) threads)) s \<Longrightarrow> disciplined rank s"
  by (erule disciplined_scheds) (auto intro!: disciplined_start program_balanced)

lemma never_deadlocked:
  assumes "scheds n (start (map (program script) threads)) s" and "\<forall>s'. \<not> sched s s'"
  shows "\<forall>p\<in>set (todo s). p = []" and "owner s = Map.empty"
proof -
  have d: "disciplined rank s" by (rule threads_disciplined [OF assms(1)])
  show fin: "\<forall>p\<in>set (todo s). p = []"
    using disciplined_progress [OF d] assms(2) by (metis in_set_conv_nth)
  show "owner s = Map.empty"
  proof (rule ext)
    fix l show "owner s l = None"
    proof (cases "owner s l")
      case (Some i)
      then have "i < length (todo s)" "l \<in> held s i" using d by (auto simp: disciplined_def held_def)
      moreover from this have "locks_after rank (held s i) [] = Some {}" using d fin by (metis disciplined_def nth_mem)
      ultimately show ?thesis by simp
    qed simp
  qed
qed

lemma steps_bounded: "scheds n (start (map (program script) threads)) s \<Longrightarrow> n \<le> sum_list (map (length \<circ> program script) threads)"
  using scheds_remaining [of n _ s] by (fastforce simp: remaining_def start_def)

end

end
