(* ===== verification/Ffi_Handles.thy ===== *)
theory Ffi_Handles
  imports Gbp_Prelude
begin

section \<open>Handles and memory of the C interface\<close>

text \<open>
  The two protocols by which \<^verbatim>\<open>crates/gbp/stack-ffi/src/lib.rs\<close> hands objects to a foreign caller. Long-lived
  objects stay on the Rust side in registries and are named by \<^verbatim>\<open>i32\<close> handles (a 32-bit word; a handle is positive
  when its sign bit is clear); byte strings and C strings are moved to blocks that the caller has to release.

  A registry entry is a shared cell behind a mutex, and the registry holds its only lasting reference, so
  between calls an entry is a value and an update in place is \<open>reg_put\<close>. A poisoned mutex needs a
  panic, and a panic in an \<^verbatim>\<open>extern "C"\<close> function aborts the process.
\<close>

type_synonym i32 = "32 word"

subsection \<open>Registries\<close>

record 'a registry =
  rg_next :: i32
  rg_map :: "i32 \<rightharpoonup> 'a"

definition reg_new :: "'a registry" where
  "reg_new = \<lparr>rg_next = 1, rg_map = Map.empty\<rparr>"

definition reg_insert :: "'a \<Rightarrow> 'a registry \<Rightarrow> 'a registry \<times> i32" where
  "reg_insert v r = (let h = rg_next r in (r\<lparr>rg_next := h + 1, rg_map := (rg_map r)(h \<mapsto> v)\<rparr>, h))"

definition reg_remove :: "i32 \<Rightarrow> 'a registry \<Rightarrow> 'a registry" where
  "reg_remove h r = r\<lparr>rg_map := (rg_map r)(h := None)\<rparr>"

definition reg_get :: "'a registry \<Rightarrow> i32 \<Rightarrow> 'a option" where
  "reg_get r h = rg_map r h"

definition reg_put :: "i32 \<Rightarrow> 'a \<Rightarrow> 'a registry \<Rightarrow> 'a registry" where
  "reg_put h v r = r\<lparr>rg_map := (rg_map r)(h \<mapsto> v)\<rparr>"

text \<open>
  What a client relies on of a table of handles, whatever it holds: an insertion answers with a positive
  handle that named nothing before and names the inserted object now, and no other name changes; \<open>wf k\<close>
  describes a table after \<open>k\<close> insertions.
\<close>

locale handle_table =
  fixes insert :: "'a \<Rightarrow> 'r \<Rightarrow> 'r \<times> i32"
    and remove :: "i32 \<Rightarrow> 'r \<Rightarrow> 'r"
    and put :: "i32 \<Rightarrow> 'a \<Rightarrow> 'r \<Rightarrow> 'r"
    and get :: "'r \<Rightarrow> i32 \<Rightarrow> 'a option"
    and wf :: "nat \<Rightarrow> 'r \<Rightarrow> bool"
  assumes get_insert: "insert v r = (r', h) \<Longrightarrow> get r' h' = (if h' = h then Some v else get r h')"
    and get_remove: "get (remove h r) h' = (if h' = h then None else get r h')"
    and get_put: "get (put h v r) h' = (if h' = h then Some v else get r h')"
    and wf_insert: "wf k r \<Longrightarrow> k < 2 ^ 31 - 1 \<Longrightarrow> insert v r = (r', h) \<Longrightarrow>
        wf (Suc k) r' \<and> unat h = Suc k"
    and wf_remove: "wf k r \<Longrightarrow> wf k (remove h r)"
    and wf_put: "wf k r \<Longrightarrow> get r h \<noteq> None \<Longrightarrow> wf k (put h v r)"
    and wf_get: "wf k r \<Longrightarrow> get r h \<noteq> None \<Longrightarrow> 0 < unat h \<and> unat h \<le> k"
begin

lemma insert_fresh:
  assumes "wf k r" "k < 2 ^ 31 - 1" "insert v r = (r', h)"
  shows "get r h = None" and "h \<noteq> 0"
proof -
  have "unat h = Suc k" using wf_insert [OF assms] by simp
  then show "get r h = None" using wf_get [OF assms(1), of h] by force
  show "h \<noteq> 0" using \<open>unat h = Suc k\<close> by auto
qed

lemma get_after_insert: "insert v r = (r', h) \<Longrightarrow> get r' h = Some v"
  by (simp add: get_insert)

fun insert_all :: "'a list \<Rightarrow> 'r \<Rightarrow> 'r \<times> i32 list" where
  "insert_all [] r = (r, [])"
| "insert_all (v # vs) r =
     (case insert v r of (r1, h) \<Rightarrow> case insert_all vs r1 of (r2, hs) \<Rightarrow> (r2, h # hs))"

lemma insert_all_handles:
  "wf k r \<Longrightarrow> k + length vs < 2 ^ 31 \<Longrightarrow> insert_all vs r = (r', hs) \<Longrightarrow>
     wf (k + length vs) r' \<and> map unat hs = [Suc k ..< Suc (k + length vs)]"
proof (induction vs arbitrary: k r hs)
  case (Cons v vs)
  obtain r1 h hs' where s: "insert v r = (r1, h)" "insert_all vs r1 = (r', hs')" "hs = h # hs'"
    using Cons.prems(3) by (auto split: prod.splits)
  have h: "wf (Suc k) r1" "unat h = Suc k" using wf_insert [OF Cons.prems(1) _ s(1)] Cons.prems(2) by simp_all
  have "[Suc k ..< Suc (k + length (v # vs))] = Suc k # [Suc (Suc k) ..< Suc (Suc k + length vs)]"
    by (subst upt_conv_Cons) (simp_all del: upt_Suc)
  then show ?case using Cons.IH [OF h(1) _ s(2)] Cons.prems(2) s(3) h(2) by (simp del: upt_Suc)
qed simp

lemma insert_all_distinct:
  assumes "wf k r" "k + length vs < 2 ^ 31" "insert_all vs r = (r', hs)"
  shows "distinct hs"
  using insert_all_handles [OF assms] by (metis distinct_map distinct_upt)

end

definition reg_wf :: "nat \<Rightarrow> 'a registry \<Rightarrow> bool" where
  "reg_wf k r \<longleftrightarrow> rg_next r = word_of_nat (Suc k) \<and> (\<forall>h\<in>dom (rg_map r). 0 < unat h \<and> unat h \<le> k)"

interpretation reg: handle_table reg_insert reg_remove reg_put reg_get reg_wf
proof
  fix k v and r r' :: "'a registry" and h
  assume wf: "reg_wf k r" and k: "k < 2 ^ 31 - 1" and i: "reg_insert v r = (r', h)"
  have h: "h = word_of_nat (Suc k)" "r' = r\<lparr>rg_next := h + 1, rg_map := (rg_map r)(h \<mapsto> v)\<rparr>"
    using i wf by (auto simp: reg_insert_def reg_wf_def Let_def)
  have "unat h = Suc k" using k unfolding h(1) by (simp add: unsigned_of_nat take_bit_nat_eq_self del: of_nat_Suc)
  moreover have "h + 1 = word_of_nat (Suc (Suc k))" by (simp add: h(1))
  ultimately show "reg_wf (Suc k) r' \<and> unat h = Suc k"
    using wf h(2) by (auto simp: reg_wf_def dest!: bspec)
next
  fix k and r :: "'a registry" and h v
  assume "reg_wf k r" "reg_get r h \<noteq> None"
  then show "reg_wf k (reg_put h v r)"
    by (auto simp: reg_wf_def reg_put_def reg_get_def)
qed (auto simp: reg_insert_def reg_get_def reg_remove_def reg_put_def reg_wf_def Let_def)

lemma reg_wf_new: "reg_wf 0 reg_new"
  by (simp add: reg_wf_def reg_new_def)

subsection \<open>Blocks\<close>

text \<open>
  Addresses are numbers, 0 is null and 1 the dangling pointer of a vector without an allocation. The
  allocator hands out addresses never used before. The spare capacity of a vector is only given
  back to the allocator on release, so the model leaves it out: the capacity of a moved vector is its length.
  \<open>None\<close> is undefined behaviour: a release of what is not a live block of the right kind.
\<close>

datatype block = VecBlock bytes | StrBlock bytes

record memory =
  mm_next :: nat
  mm_blocks :: "nat \<rightharpoonup> block"

record gbp_buffer =
  gb_ptr :: nat
  gb_len :: nat
  gb_cap :: nat

definition mem_new :: memory where
  "mem_new = \<lparr>mm_next = 2, mm_blocks = Map.empty\<rparr>"

definition mem_alloc :: "block \<Rightarrow> memory \<Rightarrow> memory \<times> nat" where
  "mem_alloc b m = (m\<lparr>mm_next := Suc (mm_next m), mm_blocks := (mm_blocks m)(mm_next m \<mapsto> b)\<rparr>, mm_next m)"

definition mem_release :: "nat \<Rightarrow> memory \<Rightarrow> memory" where
  "mem_release p m = m\<lparr>mm_blocks := (mm_blocks m)(p := None)\<rparr>"

definition buffer_empty :: gbp_buffer where
  "buffer_empty = \<lparr>gb_ptr = 0, gb_len = 0, gb_cap = 0\<rparr>"

definition buffer_from_vec :: "bytes \<Rightarrow> memory \<Rightarrow> memory \<times> gbp_buffer" where
  "buffer_from_vec v m =
     (if v = [] then (m, \<lparr>gb_ptr = 1, gb_len = 0, gb_cap = 0\<rparr>)
      else case mem_alloc (VecBlock v) m of (m', p) \<Rightarrow> (m', \<lparr>gb_ptr = p, gb_len = length v, gb_cap = length v\<rparr>))"

definition buffer_free :: "gbp_buffer \<Rightarrow> memory \<Rightarrow> memory option" where
  "buffer_free buf m =
     (if gb_ptr buf = 0 \<or> gb_cap buf = 0 then Some m
      else case mm_blocks m (gb_ptr buf) of
        Some (VecBlock v) \<Rightarrow>
          (if gb_cap buf = length v \<and> gb_len buf \<le> gb_cap buf then Some (mem_release (gb_ptr buf) m) else None)
      | _ \<Rightarrow> None)"

definition string_free :: "nat \<Rightarrow> memory \<Rightarrow> memory option" where
  "string_free p m =
     (if p = 0 then Some m
      else case mm_blocks m p of Some (StrBlock _) \<Rightarrow> Some (mem_release p m) | _ \<Rightarrow> None)"

definition str_bytes :: "string \<Rightarrow> bytes" where
  "str_bytes s = map of_char s"

definition bytes_str :: "bytes \<Rightarrow> string" where
  "bytes_str bs = map (\<lambda>b. char_of (unat b)) bs"

definition alloc_cstring :: "string \<Rightarrow> memory \<Rightarrow> memory \<times> nat" where
  "alloc_cstring s m =
     (let t = (if CHR 0x00 \<notin> set s then s else map (\<lambda>c. if c = CHR 0x00 then CHR ''?'' else c) s)
      in mem_alloc (StrBlock (str_bytes t @ [0])) m)"

text \<open>What the caller reads: the bytes of a buffer, and a C string up to its terminator.\<close>

definition read_buffer :: "memory \<Rightarrow> gbp_buffer \<Rightarrow> bytes option" where
  "read_buffer m buf =
     (if gb_len buf = 0 then Some []
      else case mm_blocks m (gb_ptr buf) of Some (VecBlock v) \<Rightarrow> Some (take (gb_len buf) v) | _ \<Rightarrow> None)"

definition read_cstring :: "memory \<Rightarrow> nat \<Rightarrow> string option" where
  "read_cstring m p =
     (case mm_blocks m p of Some (StrBlock bs) \<Rightarrow> Some (bytes_str (takeWhile (\<lambda>b. b \<noteq> 0) bs)) | _ \<Rightarrow> None)"

definition mem_wf :: "memory \<Rightarrow> bool" where
  "mem_wf m \<longleftrightarrow> 2 \<le> mm_next m \<and> (\<forall>p\<in>dom (mm_blocks m). 2 \<le> p \<and> p < mm_next m)"

lemma mem_wf_new: "mem_wf mem_new"
  by (simp add: mem_wf_def mem_new_def)

lemma mem_wf_alloc: "mem_wf m \<Longrightarrow> mem_alloc b m = (m', p) \<Longrightarrow>
    mem_wf m' \<and> mm_blocks m p = None \<and> mm_blocks m' = (mm_blocks m)(p \<mapsto> b) \<and> 2 \<le> p"
  by (auto simp: mem_wf_def mem_alloc_def less_Suc_eq split: if_splits dest: bspec)

lemma mem_wf_release: "mem_wf m \<Longrightarrow> mem_wf (mem_release p m)"
  by (auto simp: mem_wf_def mem_release_def)

lemma char_of_word: "char_of (unat (of_char c :: u8)) = c"
proof -
  have "unat (of_char c :: u8) = of_char c"
    using of_char_of [of "of_char c :: nat"] by (simp add: of_char_def horner_sum_bit_eq_take_bit)
  then show ?thesis by simp
qed

lemma str_bytes_nul: "0 \<in> set (str_bytes s) \<longleftrightarrow> CHR 0x00 \<in> set s"
proof -
  have "of_char c = (0 :: u8) \<longleftrightarrow> c = CHR 0x00" for c
    using char_of_word [of c] char_of_word [of "CHR 0x00"] by auto
  then show ?thesis by (auto simp: str_bytes_def image_iff)
qed

lemma bytes_str_inverse [simp]: "bytes_str (str_bytes s) = s"
  by (simp add: bytes_str_def str_bytes_def char_of_word comp_def)

lemma read_alloc_cstring:
  assumes "alloc_cstring s m = (m', p)"
  shows "read_cstring m' p = Some (map (\<lambda>c. if c = CHR 0x00 then CHR ''?'' else c) s)"
proof -
  let ?t = "map (\<lambda>c. if c = CHR 0x00 then CHR ''?'' else c) s"
  have "CHR 0x00 \<notin> set ?t" by auto
  then have "takeWhile (\<lambda>b. b \<noteq> 0) (str_bytes ?t @ [0]) = str_bytes ?t"
    using str_bytes_nul [of ?t] by (subst takeWhile_append2) auto
  moreover have "(if CHR 0x00 \<notin> set s then s else ?t) = ?t" by (auto intro!: map_idI [symmetric])
  ultimately show ?thesis
    using assms by (auto simp: alloc_cstring_def mem_alloc_def read_cstring_def Let_def)
qed

lemma read_buffer_from_vec:
  "buffer_from_vec v m = (m', buf) \<Longrightarrow> read_buffer m' buf = Some v"
  by (auto simp: buffer_from_vec_def mem_alloc_def read_buffer_def split: if_splits)

lemma buffer_from_vec_not_empty:
  "buffer_from_vec v m = (m', buf) \<Longrightarrow> mem_wf m \<Longrightarrow> gb_ptr buf \<noteq> 0 \<and> buf \<noteq> buffer_empty"
  by (auto simp: buffer_from_vec_def mem_alloc_def mem_wf_def buffer_empty_def split: if_splits)

end
