(* ===== verification/Ffi_Base64.thy ===== *)
theory Ffi_Base64
  imports Gbp_Prelude
begin

unbundle bit_operations_syntax

section \<open>Base64 of the C interface (\<^verbatim>\<open>b64\<close> of \<^verbatim>\<open>gbp-stack-ffi/lib.rs\<close>)\<close>

text \<open>
  The events a foreign caller receives carry byte strings in Base64. The encoder of the source walks
  the slice in steps of three bytes; its loop is a recursion on what is left of the slice. The reference is
  the decoder of RFC 4648, section 4, with mandatory padding.
\<close>

definition B64_ALPHABET :: string where
  "B64_ALPHABET = ''ABCDEFGHIJKLMNOPQRSTUVWXYZabcdefghijklmnopqrstuvwxyz0123456789+/''"

definition b64_char :: "u32 \<Rightarrow> char" where
  "b64_char n = B64_ALPHABET ! unat (n AND 0x3F)"

fun b64 :: "bytes \<Rightarrow> string" where
  "b64 (b0 # b1 # b2 # r) =
     (let n = push_bit 16 (ucast b0) OR push_bit 8 (ucast b1) OR ucast b2 in
      [b64_char (drop_bit 18 n), b64_char (drop_bit 12 n), b64_char (drop_bit 6 n), b64_char n] @ b64 r)"
| "b64 [b0, b1] =
     (let n = push_bit 16 (ucast b0) OR push_bit 8 (ucast b1) in
      [b64_char (drop_bit 18 n), b64_char (drop_bit 12 n), b64_char (drop_bit 6 n), CHR ''=''])"
| "b64 [b0] =
     (let n = push_bit 16 (ucast b0) in
      [b64_char (drop_bit 18 n), b64_char (drop_bit 12 n), CHR ''='', CHR ''=''])"
| "b64 [] = []"

subsection \<open>The reference decoder\<close>

fun index_in :: "char \<Rightarrow> string \<Rightarrow> nat option" where
  "index_in c [] = None"
| "index_in c (d # ds) = (if c = d then Some 0 else map_option Suc (index_in c ds))"

definition b64_value :: "char \<Rightarrow> u8 option" where
  "b64_value c = map_option word_of_nat (index_in c B64_ALPHABET)"

definition unpack1 :: "u8 \<Rightarrow> u8 \<Rightarrow> u8" where
  "unpack1 v0 v1 = push_bit 2 v0 OR drop_bit 4 v1"

definition unpack2 :: "u8 \<Rightarrow> u8 \<Rightarrow> u8" where
  "unpack2 v1 v2 = push_bit 4 v1 OR drop_bit 2 v2"

definition unpack3 :: "u8 \<Rightarrow> u8 \<Rightarrow> u8" where
  "unpack3 v2 v3 = push_bit 6 v2 OR v3"

fun b64_decode :: "string \<Rightarrow> bytes option" where
  "b64_decode [] = Some []"
| "b64_decode (c0 # c1 # c2 # c3 # r) =
     (case (b64_value c0, b64_value c1) of
        (Some v0, Some v1) \<Rightarrow>
          (if c2 = CHR ''='' then (if c3 = CHR ''='' \<and> r = [] then Some [unpack1 v0 v1] else None)
           else case b64_value c2 of None \<Rightarrow> None
           | Some v2 \<Rightarrow>
             (if c3 = CHR ''='' then (if r = [] then Some [unpack1 v0 v1, unpack2 v1 v2] else None)
              else case b64_value c3 of None \<Rightarrow> None
              | Some v3 \<Rightarrow>
                map_option (\<lambda>bs. unpack1 v0 v1 # unpack2 v1 v2 # unpack3 v2 v3 # bs) (b64_decode r)))
      | _ \<Rightarrow> None)"
| "b64_decode _ = None"

subsection \<open>Round trip\<close>

lemma index_in_nth: "distinct xs \<Longrightarrow> i < length xs \<Longrightarrow> index_in (xs ! i) xs = Some i"
  by (induction xs arbitrary: i) (auto simp: nth_Cons split: nat.splits)

lemma alphabet: "distinct B64_ALPHABET" "length B64_ALPHABET = 64" "CHR ''='' \<notin> set B64_ALPHABET"
  unfolding B64_ALPHABET_def by simp_all

lemma sextet_lt: "unat (n AND 0x3F :: u32) < 64"
proof -
  have "n AND 0x3F = take_bit 6 n" by (simp add: take_bit_eq_mask mask_eq_exp_minus_1)
  then show ?thesis by (simp add: take_bit_eq_mod unat_mod)
qed

lemma b64_char_value: "b64_value (b64_char n) = Some (ucast (n AND 0x3F))"
  using index_in_nth [OF alphabet(1), of "unat (n AND 0x3F)"] alphabet(2) sextet_lt [of n]
  by (simp add: b64_value_def b64_char_def)

lemma b64_char_not_pad: "b64_char n \<noteq> CHR ''=''"
proof -
  have "b64_char n \<in> set B64_ALPHABET"
    using sextet_lt [of n] alphabet(2) by (simp add: b64_char_def)
  then show ?thesis using alphabet(3) by metis
qed

lemma sextet: "(w :: u32) AND 0x3F = take_bit 6 w"
  by (simp add: take_bit_eq_mask mask_eq_exp_minus_1)

lemmas unpack_defs = unpack1_def unpack2_def unpack3_def

lemma unpack_group:
  fixes a b c :: u8
  defines "n \<equiv> push_bit 16 (ucast a) OR push_bit 8 (ucast b) OR ucast c :: u32"
  shows "unpack1 (ucast (drop_bit 18 n AND 0x3F)) (ucast (drop_bit 12 n AND 0x3F)) = a"
    and "unpack2 (ucast (drop_bit 12 n AND 0x3F)) (ucast (drop_bit 6 n AND 0x3F)) = b"
    and "unpack3 (ucast (drop_bit 6 n AND 0x3F)) (ucast (n AND 0x3F)) = c"
  unfolding unpack_defs sextet n_def
  by (rule octet_eqI; simp add: bit_simps)+

lemma unpack_padded:
  fixes a b :: u8
  shows "unpack1 (ucast (drop_bit 18 (push_bit 16 (ucast a) :: u32) AND 0x3F))
      (ucast (drop_bit 12 (push_bit 16 (ucast a) :: u32) AND 0x3F)) = a"
    and "unpack1 (ucast (drop_bit 18 (push_bit 16 (ucast a) OR push_bit 8 (ucast b) :: u32) AND 0x3F))
      (ucast (drop_bit 12 (push_bit 16 (ucast a) OR push_bit 8 (ucast b) :: u32) AND 0x3F)) = a"
    and "unpack2 (ucast (drop_bit 12 (push_bit 16 (ucast a) OR push_bit 8 (ucast b) :: u32) AND 0x3F))
      (ucast (drop_bit 6 (push_bit 16 (ucast a) OR push_bit 8 (ucast b) :: u32) AND 0x3F)) = b"
  using unpack_group [of a 0 0] unpack_group [of a b 0] by simp_all

lemma b64_decode_b64: "b64_decode (b64 bs) = Some bs"
proof (induction bs rule: b64.induct)
  case (1 b0 b1 b2 r)
  then show ?case
    by (simp add: Let_def b64_char_value b64_char_not_pad unpack_group del: drop_bit_or)
qed (simp_all add: Let_def b64_char_value b64_char_not_pad unpack_padded del: drop_bit_or)

lemma b64_inject [simp]: "b64 a = b64 b \<longleftrightarrow> a = b"
  by (metis b64_decode_b64 option.inject)

lemma started_groups: "(5 + n) div 3 = Suc (Suc (Suc n) div (3 :: nat))"
  by linarith

lemma length_b64: "length (b64 bs) = 4 * ((length bs + 2) div 3)"
  by (induction bs rule: b64.induct) (simp_all only: b64.simps Let_def list.size length_append, simp_all add: started_groups)

text \<open>
  The encoder is the inverse of the RFC 4648 decoder: what it writes for any byte string, padding included,
  decodes to that byte string, and its length is four characters for every started group of three bytes.
\<close>

theorem b64_decodes: "b64_decode (b64 bs) = Some bs \<and> length (b64 bs) = 4 * ((length bs + 2) div 3)"
  by (simp add: b64_decode_b64 length_b64)

end
