(* ===== verification/Gbp_Ffi.thy ===== *)
theory Gbp_Ffi
  imports Ffi_Handles Ffi_Base64 Gbp_Stack Gbp_Sframe
begin

section \<open>The C interface (\<^verbatim>\<open>gbp-stack-ffi\<close>)\<close>

text \<open>
  The exported functions of \<^verbatim>\<open>crates/gbp/stack-ffi/src/lib.rs\<close>, one definition each, over one state: the
  registries, the key package bundles, the cache of SFrame encryptors with the store of their cells, the
  blocks handed to the caller, and the error slot of the calling thread. A pointer and length pair is
  the byte string it points to (the caller's obligation under each \<^verbatim>\<open># Safety\<close> heading); an out-parameter is part
  of the result. Calls that need them take the clock, the random bytes OpenMLS draws, and the iteration order
  of the key-value store as arguments. Calls whose code can panic return an option.

  The libraries are one record: those of the lower layers, the TLS codec and validation of key
  packages, and \<^verbatim>\<open>serde_json\<close>.
\<close>

subsection \<open>Events as the caller sees them\<close>

datatype event_dto =
    DStateChanged string string
  | DPayloadReceived string u32 u32 u32 u16 u8 string
  | DControl u32 string u16 u32 u32 string
  | DError u16 string u8 bool bool string
  | DEpochAdvanced u64 u32
  | DCoordinatorElectionNeeded
  | DBecameCoordinator
  | DCoordinatorClaim u32

definition hex4 :: "u16 \<Rightarrow> string" where
  "hex4 w = (let s = hex_nat True (unat w) in replicate (4 - length s) (CHR ''0'') @ s)"

fun stream_name :: "stream_type \<Rightarrow> string" where
  "stream_name Control = ''control''"
| "stream_name Audio = ''audio''"
| "stream_name Text = ''text''"
| "stream_name Signal = ''signal''"

fun dto :: "event \<Rightarrow> event_dto" where
  "dto (StateChanged from to) = DStateChanged (node_state_display from) (node_state_display to)"
| "dto (PayloadReceived p) =
     DPayloadReceived (stream_name (dp_stream_type p)) (ucast (stream_as_u8 (dp_stream_type p))) (dp_stream_id p)
       (dp_sequence_no p) (dp_flags p) (codec_as_u8 (dp_codec p)) (b64 (dp_plaintext p))"
| "dto (ControlEv from opcode tid request args) =
     DControl from (opcode_name opcode) (opcode_as_u16 opcode) tid request (b64 args)"
| "dto (ErrorEv code cls retryable fatal reason) =
     DError code (''0x'' @ hex4 code) (class_as_u8 cls) retryable fatal reason"
| "dto (EpochAdvanced epoch tid) = DEpochAdvanced epoch tid"
| "dto CoordinatorElectionNeeded = DCoordinatorElectionNeeded"
| "dto BecameCoordinator = DBecameCoordinator"
| "dto (CoordinatorClaim claimant) = DCoordinatorClaim claimant"

record gtp_out =
  go_status :: string
  go_sender :: "u32 option"
  go_message_id :: "u64 option"
  go_text :: "bytes option"
  go_reason :: "string option"

record gap_out =
  po_status :: string
  po_source :: "u32 option"
  po_seq :: "u32 option"
  po_bytes :: "nat option"
  po_reason :: "string option"

record gsp_out =
  so_status :: string
  so_signal :: "string option"
  so_signal_code :: "u32 option"
  so_sender :: "u32 option"
  so_role_claim :: "u32 option"
  so_request_id :: "u32 option"
  so_reason :: "string option"

subsection \<open>State and libraries\<close>

record ('g, 'sg, 'st, 'kp, 'm, 'w, 'ki, 'k, 'd, 'c, 'r) ffi_libs =
  lb_om :: "('g, 'sg, 'st, 'kp, 'm, 'w) openmls"
  lb_aead :: aead
  lb_frame :: "gbp_frame serialiser"
  lb_control :: "control_message serialiser"
  lb_error :: "error_object serialiser"
  lb_gtp :: gtp_codecs
  lb_gap :: gap_codecs
  lb_gsp :: gsp_codecs
  lb_value :: value_reader
  lb_sframe :: "('k, 'd, 'c, 'r) sframe_lib"
  lb_kp_ser :: "'kp \<Rightarrow> string + bytes"
  lb_kp_de :: "bytes \<Rightarrow> string + 'ki"
  lb_kp_validate :: "'ki \<Rightarrow> string + 'kp"
  lb_json_events :: "event_dto list \<Rightarrow> string option"
  lb_json_gtp :: "gtp_out \<Rightarrow> string option"
  lb_json_gap :: "gap_out \<Rightarrow> string option"
  lb_json_gsp :: "gsp_out \<Rightarrow> string option"

record ('g, 'sg, 'st, 'kp, 'k, 'd, 'c, 'r) ffi_state =
  ff_error :: string
  ff_mem :: memory
  ff_mls :: "('g, 'sg, 'st) mls_context registry"
  ff_bundles :: "i32 \<rightharpoonup> 'kp"
  ff_nodes :: "group_node registry"
  ff_gtps :: "gtp_client registry"
  ff_gaps :: "gap_client registry"
  ff_gsps :: "gsp_client registry"
  ff_sessions :: "('d, 'r) sframe_decryptor registry"
  ff_encryptors :: "sframe_encryptor registry"
  ff_dedup :: "i32 \<times> u32 \<rightharpoonup> sframe_encryptor"
  ff_cells :: "('k, 'c) cells"

definition ffi_init :: "('g, 'sg, 'st, 'kp, 'k, 'd, 'c, 'r) ffi_state" where
  "ffi_init =
     \<lparr>ff_error = [], ff_mem = mem_new, ff_mls = reg_new, ff_bundles = Map.empty, ff_nodes = reg_new,
      ff_gtps = reg_new, ff_gaps = reg_new, ff_gsps = reg_new, ff_sessions = reg_new,
      ff_encryptors = reg_new, ff_dedup = Map.empty, ff_cells = []\<rparr>"

definition set_last_error where "set_last_error e st = st\<lparr>ff_error := e\<rparr>"

definition clear_last_error where "clear_last_error st = st\<lparr>ff_error := []\<rparr>"

text \<open>The two ways a call that returns a buffer or a string ends.\<close>

definition ret_vec where
  "ret_vec v st = (case buffer_from_vec v (ff_mem st) of (m, b) \<Rightarrow> (st\<lparr>ff_mem := m\<rparr>, b))"

definition ret_str where
  "ret_str s st = (case alloc_cstring s (ff_mem st) of (m, p) \<Rightarrow> (st\<lparr>ff_mem := m\<rparr>, p))"

definition fail_buf where
  "fail_buf e st = (set_last_error e st, buffer_empty)"

definition gbp_buffer_free where
  "gbp_buffer_free buf st = map_option (\<lambda>m. st\<lparr>ff_mem := m\<rparr>) (buffer_free buf (ff_mem st))"

definition gbp_string_free where
  "gbp_string_free p st = map_option (\<lambda>m. st\<lparr>ff_mem := m\<rparr>) (string_free p (ff_mem st))"

definition gbp_last_error where
  "gbp_last_error st = ret_str (ff_error st) st"

definition gbp_version where
  "gbp_version st = ret_str ''group-protocol-stack 1.9.2-rc2 (gbp + gtp + gap + gsp)'' st"

subsection \<open>\<^verbatim>\<open>std::str::from_utf8\<close>\<close>

text \<open>
  The position up to which a byte string is valid and the length of the offending sequence (none when the
  input ends inside one), and the text of \<^verbatim>\<open>Utf8Error\<close>. \<open>i\<close> is the offset of the first byte.
\<close>

fun utf8_error_at :: "nat \<Rightarrow> bytes \<Rightarrow> (nat \<times> nat option) option" where
  "utf8_error_at i [] = None"
| "utf8_error_at i (a # r) =
     (if a < 0x80 then utf8_error_at (i + 1) r
      else if 0xC2 \<le> a \<and> a \<le> 0xDF then
        (case r of [] \<Rightarrow> Some (i, None)
         | b # r1 \<Rightarrow> if cont b then utf8_error_at (i + 2) r1 else Some (i, Some 1))
      else if 0xE0 \<le> a \<and> a \<le> 0xEF then
        (case r of [] \<Rightarrow> Some (i, None)
         | b # r1 \<Rightarrow>
           if \<not> second3 a b then Some (i, Some 1)
           else case r1 of [] \<Rightarrow> Some (i, None)
             | c # r2 \<Rightarrow> if cont c then utf8_error_at (i + 3) r2 else Some (i, Some 2))
      else if 0xF0 \<le> a \<and> a \<le> 0xF4 then
        (case r of [] \<Rightarrow> Some (i, None)
         | b # r1 \<Rightarrow>
           if \<not> second4 a b then Some (i, Some 1)
           else case r1 of [] \<Rightarrow> Some (i, None)
             | c # r2 \<Rightarrow>
               if \<not> cont c then Some (i, Some 2)
               else case r2 of [] \<Rightarrow> Some (i, None)
                 | d # r3 \<Rightarrow> if cont d then utf8_error_at (i + 4) r3 else Some (i, Some 3))
      else Some (i, Some 1))"

fun utf8_error_display :: "nat \<times> nat option \<Rightarrow> string" where
  "utf8_error_display (i, Some n) =
     ''invalid utf-8 sequence of '' @ dec_nat n @ '' bytes from index '' @ dec_nat i"
| "utf8_error_display (i, None) = ''incomplete utf-8 byte sequence from index '' @ dec_nat i"

lemma utf8_error_at_None: "utf8_error_at i bs = None \<longleftrightarrow> utf8_valid bs"
proof (induction i bs rule: utf8_error_at.induct)
  case (2 i a r)
  consider "a < 0x80" | "0xC2 \<le> a" "a \<le> 0xDF" | "0xE0 \<le> a" "a \<le> 0xEF" | "0xF0 \<le> a" "a \<le> 0xF4"
    | "\<not> a < 0x80" "\<not> (0xC2 \<le> a \<and> a \<le> 0xDF)" "\<not> (0xE0 \<le> a \<and> a \<le> 0xEF)" "\<not> (0xF0 \<le> a \<and> a \<le> 0xF4)"
    by blast
  then show ?case
  proof cases
    case 1
    then show ?thesis using 2(1) by simp
  next
    case 2
    then have "\<not> a < 0x80" by (simp add: word_le_nat_alt word_less_nat_alt)
    then show ?thesis using 2 "2.IH"(2) by (cases r) simp_all
  next
    case 3
    then have "\<not> a < 0x80" "\<not> a \<le> 0xDF" by (simp_all add: word_le_nat_alt word_less_nat_alt)
    then show ?thesis
      using 3 "2.IH"(3) by (cases r; cases "tl r") (simp_all split: if_splits)
  next
    case 4
    then have "\<not> a < 0x80" "\<not> a \<le> 0xDF" "\<not> a \<le> 0xEF" by (simp_all add: word_le_nat_alt word_less_nat_alt)
    then show ?thesis
      using 4 "2.IH"(4) by (cases r; cases "tl r"; cases "tl (tl r)") (simp_all split: if_splits)
  next
    case 5
    then have "(a < 0x80) = False" "(0xC2 \<le> a \<and> a \<le> 0xDF) = False" "(0xE0 \<le> a \<and> a \<le> 0xEF) = False"
      "(0xF0 \<le> a \<and> a \<le> 0xF4) = False" by simp_all
    then show ?thesis
      by (simp only: utf8_error_at.simps utf8_valid.simps if_False conj_assoc [symmetric] simp_thms option.simps
          split: list.split)
  qed
qed simp

subsection \<open>MLS\<close>

definition gbp_mls_create where
  "gbp_mls_create L r1 r2 r3 ident st =
     (let st1 = clear_last_error st in
      case new_member (lb_om L) r1 r2 r3 ident of
        Inr (ctx, kp) \<Rightarrow>
          (case reg_insert ctx (ff_mls st1) of (rg, h) \<Rightarrow>
             (st1\<lparr>ff_mls := rg, ff_bundles := (ff_bundles st1)(h \<mapsto> kp)\<rparr>, h))
      | Inl e \<Rightarrow> (set_last_error (mls_error_display e) st1, 0))"

definition gbp_mls_destroy where
  "gbp_mls_destroy h st =
     st\<lparr>ff_mls := reg_remove h (ff_mls st), ff_bundles := (ff_bundles st)(h := None)\<rparr>"

definition gbp_mls_epoch where
  "gbp_mls_epoch L h st = (case reg_get (ff_mls st) h of None \<Rightarrow> 0 | Some c \<Rightarrow> mls_epoch (lb_om L) c)"

text \<open>The second component is what is written to \<^verbatim>\<open>out16\<close>.\<close>

definition gbp_mls_group_id where
  "gbp_mls_group_id L h st =
     (let st1 = clear_last_error st in
      case reg_get (ff_mls st1) h of
        None \<Rightarrow> (set_last_error ''invalid MLS handle'' st1, None)
      | Some ctx \<Rightarrow> (st1, Some (group_id_16 (lb_om L) ctx)))"

definition gbp_mls_export_key_package where
  "gbp_mls_export_key_package L h st =
     (let st1 = clear_last_error st in
      case ff_bundles st1 h of None \<Rightarrow> fail_buf ''invalid MLS handle'' st1
      | Some b \<Rightarrow>
        (case lb_kp_ser L b of Inr bs \<Rightarrow> ret_vec bs st1
         | Inl e \<Rightarrow> fail_buf (''kp serialize: '' @ e) st1))"

definition put_mls where "put_mls h ctx st = st\<lparr>ff_mls := reg_put h ctx (ff_mls st)\<rparr>"

text \<open>How both invitations start: the handle, then parsing and validation of the key package.\<close>

definition invited where
  "invited L h kp_bytes st =
     (case reg_get (ff_mls st) h of None \<Rightarrow> Inl ''invalid MLS handle''
      | Some ctx \<Rightarrow>
        (case lb_kp_de L kp_bytes of Inl e \<Rightarrow> Inl (''kp parse: '' @ e)
         | Inr kp_in \<Rightarrow>
           (case lb_kp_validate L kp_in of Inl e \<Rightarrow> Inl (''kp validate: '' @ e)
            | Inr validated \<Rightarrow> Inr (ctx, validated))))"

definition gbp_mls_invite where
  "gbp_mls_invite L r h kp_bytes st =
     (let st1 = clear_last_error st in
      case invited L h kp_bytes st1 of Inl e \<Rightarrow> fail_buf e st1
      | Inr (ctx, validated) \<Rightarrow>
        (case invite (lb_om L) r ctx [validated] of
           (ctx', Inr welcome) \<Rightarrow> ret_vec welcome (put_mls h ctx' st1)
         | (ctx', Inl e) \<Rightarrow> fail_buf (mls_error_display e) (put_mls h ctx' st1)))"

definition gbp_mls_invite_full where
  "gbp_mls_invite_full L r h kp_bytes st =
     (let st1 = clear_last_error st in
      case invited L h kp_bytes st1 of Inl e \<Rightarrow> fail_buf e st1
      | Inr (ctx, validated) \<Rightarrow>
        (case invite_full (lb_om L) r ctx [validated] of
           (ctx', Inr (commit, welcome)) \<Rightarrow>
             ret_vec (le_bytes32 (word_of_nat (length commit)) @ commit @ welcome) (put_mls h ctx' st1)
         | (ctx', Inl e) \<Rightarrow> fail_buf (mls_error_display e) (put_mls h ctx' st1)))"

definition gbp_mls_remove where
  "gbp_mls_remove L r h leaf_index st =
     (let st1 = clear_last_error st in
      case reg_get (ff_mls st1) h of None \<Rightarrow> fail_buf ''invalid MLS handle'' st1
      | Some ctx \<Rightarrow>
        (case remove_members (lb_om L) r ctx [leaf_index] of
           (ctx', Inr commit) \<Rightarrow> ret_vec commit (put_mls h ctx' st1)
         | (ctx', Inl e) \<Rightarrow> fail_buf (mls_error_display e) (put_mls h ctx' st1)))"

fun processed_code :: "processed_kind \<Rightarrow> u32" where
  "processed_code KCommit = 1"
| "processed_code KApplication = 2"
| "processed_code KProposal = 3"
| "processed_code KExternal = 4"

definition gbp_mls_process_message where
  "gbp_mls_process_message L h msg st =
     (let st1 = clear_last_error st in
      case reg_get (ff_mls st1) h of None \<Rightarrow> (set_last_error ''invalid MLS handle'' st1, 0)
      | Some ctx \<Rightarrow>
        (case process_message (lb_om L) ctx msg of
           (ctx', Inr kind) \<Rightarrow> (put_mls h ctx' st1, processed_code kind)
         | (ctx', Inl e) \<Rightarrow> (set_last_error (mls_error_display e) (put_mls h ctx' st1), 0)))"

definition gbp_mls_finalize_commit where
  "gbp_mls_finalize_commit L h st =
     (let st1 = clear_last_error st in
      case reg_get (ff_mls st1) h of None \<Rightarrow> (set_last_error ''invalid MLS handle'' st1, False)
      | Some ctx \<Rightarrow>
        (case finalize_pending_commit (lb_om L) ctx of
           (ctx', Inr _) \<Rightarrow> (put_mls h ctx' st1, True)
         | (ctx', Inl e) \<Rightarrow> (set_last_error (mls_error_display e) (put_mls h ctx' st1), False)))"

definition gbp_mls_clear_pending_commit where
  "gbp_mls_clear_pending_commit L h st =
     (let st1 = clear_last_error st in
      case reg_get (ff_mls st1) h of None \<Rightarrow> (set_last_error ''invalid MLS handle'' st1, False)
      | Some ctx \<Rightarrow>
        (case clear_pending_commit (lb_om L) ctx of
           (ctx', Inr _) \<Rightarrow> (put_mls h ctx' st1, True)
         | (ctx', Inl e) \<Rightarrow> (set_last_error (mls_error_display e) (put_mls h ctx' st1), False)))"

definition gbp_mls_accept_welcome where
  "gbp_mls_accept_welcome L h welcome st =
     (let st1 = clear_last_error st in
      case reg_get (ff_mls st1) h of None \<Rightarrow> (set_last_error ''invalid MLS handle'' st1, False)
      | Some ctx \<Rightarrow>
        (case accept_welcome (lb_om L) ctx welcome of
           (ctx', Inr _) \<Rightarrow> (put_mls h ctx' st1, True)
         | (ctx', Inl e) \<Rightarrow> (set_last_error (mls_error_display e) (put_mls h ctx' st1), False)))"

definition gbp_mls_export_state where
  "gbp_mls_export_state L es h st =
     (let st1 = clear_last_error st in
      case reg_get (ff_mls st1) h of None \<Rightarrow> fail_buf ''invalid MLS handle'' st1
      | Some ctx \<Rightarrow>
        (case export_state (lb_om L) es ctx of Inr bs \<Rightarrow> ret_vec bs st1
         | Inl e \<Rightarrow> fail_buf (mls_error_display e) st1))"

definition gbp_mls_restore_state where
  "gbp_mls_restore_state L blob st =
     (let st1 = clear_last_error st in
      case restore_state (lb_om L) blob of
        Inr ctx \<Rightarrow> (case reg_insert ctx (ff_mls st1) of (rg, h) \<Rightarrow> (st1\<lparr>ff_mls := rg\<rparr>, h))
      | Inl e \<Rightarrow> (set_last_error (mls_error_display e) st1, 0))"

subsection \<open>Nodes\<close>

definition put_node where "put_node h n st = st\<lparr>ff_nodes := reg_put h n (ff_nodes st)\<rparr>"

definition gbp_node_create where
  "gbp_node_create mid gid st =
     (let st1 = clear_last_error st in
      case reg_insert (node_new mid (take 16 gid)) (ff_nodes st1) of (rg, h) \<Rightarrow> (st1\<lparr>ff_nodes := rg\<rparr>, h))"

definition gbp_node_destroy where
  "gbp_node_destroy h st = st\<lparr>ff_nodes := reg_remove h (ff_nodes st)\<rparr>"

definition gbp_node_bootstrap_creator where
  "gbp_node_bootstrap_creator h epoch st =
     (case reg_get (ff_nodes st) h of None \<Rightarrow> (st, False)
      | Some n \<Rightarrow> (put_node h (bootstrap_as_creator epoch n) st, True))"

definition gbp_node_bootstrap_joiner where
  "gbp_node_bootstrap_joiner h epoch tid st =
     (case reg_get (ff_nodes st) h of None \<Rightarrow> (st, False)
      | Some n \<Rightarrow> (put_node h (bootstrap_as_joiner epoch tid n) st, True))"

fun node_state_code :: "node_state \<Rightarrow> u32" where
  "node_state_code Idle = 0"
| "node_state_code Connecting = 1"
| "node_state_code EstablishingGroup = 2"
| "node_state_code Active = 3"
| "node_state_code Resyncing = 4"
| "node_state_code Failed = 5"
| "node_state_code Closed = 6"

definition gbp_node_state where
  "gbp_node_state h st =
     (case reg_get (ff_nodes st) h of None \<Rightarrow> - 1 | Some n \<Rightarrow> node_state_code (state n))"

definition gbp_node_epoch where
  "gbp_node_epoch h st = (case reg_get (ff_nodes st) h of None \<Rightarrow> 0 | Some n \<Rightarrow> current_epoch n)"

definition gbp_node_last_transition_id where
  "gbp_node_last_transition_id h st =
     (case reg_get (ff_nodes st) h of None \<Rightarrow> 0 | Some n \<Rightarrow> last_transition_id n)"

definition gbp_node_set_epoch where
  "gbp_node_set_epoch h epoch st =
     (case reg_get (ff_nodes st) h of None \<Rightarrow> (st, False)
      | Some n \<Rightarrow> (put_node h (n\<lparr>current_epoch := epoch\<rparr>) st, True))"

definition gbp_node_apply_transition where
  "gbp_node_apply_transition h tid st =
     (case reg_get (ff_nodes st) h of None \<Rightarrow> (st, False)
      | Some n \<Rightarrow> (put_node h (apply_transition tid n) st, True))"

definition outbound_to_buffer where
  "outbound_to_buffer out st = ret_vec (le_bytes32 (of_to out) @ of_wire out) st"

definition ffi_sealer where
  "ffi_sealer L ctx = mls_sealer (lb_om L) (lb_aead L) ctx"

definition gbp_node_send_control where
  "gbp_node_send_control L now nh mh target opcode tid request_id args st =
     (let st1 = clear_last_error st in
      case opcode_try_from opcode of Inl _ \<Rightarrow> fail_buf (''bad opcode 0x'' @ hex4 opcode) st1
      | Inr op \<Rightarrow>
        (case (reg_get (ff_nodes st1) nh, reg_get (ff_mls st1) mh) of
           (Some n, Some m) \<Rightarrow>
             (case send_control (lb_frame L) (lb_control L) (ffi_sealer L m) now target op tid request_id args n of
                (n', Inr out) \<Rightarrow> outbound_to_buffer out (put_node nh n' st1)
              | (n', Inl e) \<Rightarrow> fail_buf (node_error_display e) (put_node nh n' st1))
         | _ \<Rightarrow> fail_buf ''bad node/mls handle'' st1))"

definition events_to_json where
  "events_to_json L evs = opt_or (lb_json_events L (map dto evs)) ''[]''"

definition gbp_node_on_wire where
  "gbp_node_on_wire L now nh mh wire st =
     (let st1 = clear_last_error st in
      case (reg_get (ff_nodes st1) nh, reg_get (ff_mls st1) mh) of
        (Some n, Some m) \<Rightarrow>
          (case on_wire (lb_frame L) (lb_control L) (ffi_sealer L m) now wire n of (n', evs) \<Rightarrow>
             ret_str (events_to_json L evs) (put_node nh n' st1))
      | _ \<Rightarrow> ret_str ''[]'' (set_last_error ''bad node/mls handle'' st1))"

definition gbp_node_drain_events where
  "gbp_node_drain_events L nh st =
     (case reg_get (ff_nodes st) nh of None \<Rightarrow> ret_str ''[]'' st
      | Some n \<Rightarrow>
        (case drain_events n of (n', evs) \<Rightarrow> ret_str (events_to_json L evs) (put_node nh n' st)))"

subsection \<open>Text client\<close>

definition gtp_client_create where
  "gtp_client_create st = (case reg_insert gtp_client_new (ff_gtps st) of (rg, h) \<Rightarrow> (st\<lparr>ff_gtps := rg\<rparr>, h))"

definition gtp_client_destroy where
  "gtp_client_destroy h st = st\<lparr>ff_gtps := reg_remove h (ff_gtps st)\<rparr>"

definition gtp_client_reset where
  "gtp_client_reset h st =
     (case reg_get (ff_gtps st) h of None \<Rightarrow> st
      | Some c \<Rightarrow> st\<lparr>ff_gtps := reg_put h (gtp_reset c) (ff_gtps st)\<rparr>)"

definition codec_or_cbor :: "u8 \<Rightarrow> payload_codec" where
  "codec_or_cbor v = opt_or (codec_from_u8 v) Cbor"

definition gtp_client_send where
  "gtp_client_send L ch nh mh target message_id text codec st =
     (let st1 = clear_last_error st in
      case utf8_error_at 0 text of Some e \<Rightarrow> fail_buf (''utf8: '' @ utf8_error_display e) st1
      | None \<Rightarrow>
        (case (reg_get (ff_gtps st1) ch, reg_get (ff_nodes st1) nh, reg_get (ff_mls st1) mh) of
           (Some c, Some n, Some m) \<Rightarrow>
             (case gtp_send (lb_gtp L) (lb_frame L) (ffi_sealer L m) target message_id text (codec_or_cbor codec) c n of
                (c', n', r) \<Rightarrow>
                  (let st2 = put_node nh n' (st1\<lparr>ff_gtps := reg_put ch c' (ff_gtps st1)\<rparr>) in
                   case r of Inr out \<Rightarrow> outbound_to_buffer out st2
                   | Inl e \<Rightarrow> fail_buf (gtp_error_display e) st2))
         | _ \<Rightarrow> fail_buf ''bad handle'' st1))"

definition bad_client :: string where
  "bad_client = ''{\"status\":\"error\",\"reason\":\"bad client\"}''"

definition shown_text :: "gtp_message \<Rightarrow> bytes" where
  "shown_text m = opt_or (gtp_text m) (str_bytes ''<binary>'')"

fun gtp_outcome :: "gtp_error + gtp_accept_result \<Rightarrow> gtp_out" where
  "gtp_outcome (Inr (GtpNew m)) =
     \<lparr>go_status = ''new'', go_sender = Some (g_sender_id m), go_message_id = Some (g_message_id m),
      go_text = Some (shown_text m), go_reason = None\<rparr>"
| "gtp_outcome (Inr (GtpDuplicate m)) =
     \<lparr>go_status = ''duplicate'', go_sender = Some (g_sender_id m), go_message_id = Some (g_message_id m),
      go_text = Some (shown_text m), go_reason = None\<rparr>"
| "gtp_outcome (Inl e) =
     \<lparr>go_status = ''error'', go_sender = None, go_message_id = None, go_text = None,
      go_reason = Some (gtp_error_display e)\<rparr>"

definition gtp_client_accept where
  "gtp_client_accept L ch epoch pt codec st =
     (let st1 = clear_last_error st in
      case reg_get (ff_gtps st1) ch of None \<Rightarrow> ret_str bad_client st1
      | Some c \<Rightarrow>
        (case gtp_accept (lb_gtp L) pt epoch (codec_or_cbor codec) c of (c', r) \<Rightarrow>
           ret_str (opt_or (lb_json_gtp L (gtp_outcome r)) [])
             (st1\<lparr>ff_gtps := reg_put ch c' (ff_gtps st1)\<rparr>)))"

subsection \<open>Audio client\<close>

definition gap_client_create where
  "gap_client_create st = (case reg_insert gap_client_new (ff_gaps st) of (rg, h) \<Rightarrow> (st\<lparr>ff_gaps := rg\<rparr>, h))"

definition gap_client_destroy where
  "gap_client_destroy h st = st\<lparr>ff_gaps := reg_remove h (ff_gaps st)\<rparr>"

definition gap_client_reset where
  "gap_client_reset h st =
     (case reg_get (ff_gaps st) h of None \<Rightarrow> st
      | Some c \<Rightarrow> st\<lparr>ff_gaps := reg_put h (gap_reset c) (ff_gaps st)\<rparr>)"

definition gap_client_send where
  "gap_client_send L now ch nh mh target source timestamp opus codec st =
     (let st1 = clear_last_error st in
      case (reg_get (ff_gaps st1) ch, reg_get (ff_nodes st1) nh, reg_get (ff_mls st1) mh) of
        (Some c, Some n, Some m) \<Rightarrow>
          (case gap_send (lb_gap L) (lb_frame L) (ffi_sealer L m) now target source timestamp opus
                  (codec_or_cbor codec) c n of
             (c', n', r) \<Rightarrow>
               (let st2 = put_node nh n' (st1\<lparr>ff_gaps := reg_put ch c' (ff_gaps st1)\<rparr>) in
                case r of Inr out \<Rightarrow> outbound_to_buffer out st2
                | Inl e \<Rightarrow> fail_buf (gap_error_display e) st2))
      | _ \<Rightarrow> fail_buf ''bad handle'' st1)"

fun gap_outcome :: "gap_error + gap_accept_result \<Rightarrow> gap_out" where
  "gap_outcome (Inr (GapNew p)) =
     \<lparr>po_status = ''new'', po_source = Some (a_media_source_id p), po_seq = Some (a_rtp_sequence p),
      po_bytes = Some (length (a_opus_frame p)), po_reason = None\<rparr>"
| "gap_outcome (Inr (GapLate p)) =
     \<lparr>po_status = ''late'', po_source = Some (a_media_source_id p), po_seq = Some (a_rtp_sequence p),
      po_bytes = Some (length (a_opus_frame p)), po_reason = None\<rparr>"
| "gap_outcome (Inl e) =
     \<lparr>po_status = ''error'', po_source = None, po_seq = None, po_bytes = None,
      po_reason = Some (gap_error_display e)\<rparr>"

definition gap_client_accept where
  "gap_client_accept L now ch epoch pt codec st =
     (let st1 = clear_last_error st in
      case reg_get (ff_gaps st1) ch of None \<Rightarrow> ret_str bad_client st1
      | Some c \<Rightarrow>
        (case gap_accept (lb_gap L) now pt epoch (codec_or_cbor codec) c of (c', r) \<Rightarrow>
           ret_str (opt_or (lb_json_gap L (gap_outcome r)) [])
             (st1\<lparr>ff_gaps := reg_put ch c' (ff_gaps st1)\<rparr>)))"

subsection \<open>Signalling client\<close>

definition gsp_client_create where
  "gsp_client_create st = (case reg_insert gsp_client_new (ff_gsps st) of (rg, h) \<Rightarrow> (st\<lparr>ff_gsps := rg\<rparr>, h))"

definition gsp_client_destroy where
  "gsp_client_destroy h st = st\<lparr>ff_gsps := reg_remove h (ff_gsps st)\<rparr>"

definition gsp_client_reset where
  "gsp_client_reset h st =
     (case reg_get (ff_gsps st) h of None \<Rightarrow> st
      | Some c \<Rightarrow> st\<lparr>ff_gsps := reg_put h (gsp_reset c) (ff_gsps st)\<rparr>)"

definition gsp_client_send_with_args where
  "gsp_client_send_with_args L ch nh mh target signal_type role_claim request_id args codec st =
     (let st1 = clear_last_error st in
      case signal_try_from signal_type of Inl _ \<Rightarrow> fail_buf (''bad signal '' @ dec_word signal_type) st1
      | Inr sig \<Rightarrow>
        (case (reg_get (ff_gsps st1) ch, reg_get (ff_nodes st1) nh, reg_get (ff_mls st1) mh) of
           (Some c, Some n, Some m) \<Rightarrow>
             (case gsp_send_with_args (lb_gsp L) (lb_frame L) (ffi_sealer L m) target sig role_claim request_id args
                     (codec_or_cbor codec) c n of
                (c', n', r) \<Rightarrow>
                  (let st2 = put_node nh n' (st1\<lparr>ff_gsps := reg_put ch c' (ff_gsps st1)\<rparr>) in
                   case r of Inr out \<Rightarrow> outbound_to_buffer out st2
                   | Inl e \<Rightarrow> fail_buf (gsp_error_display e) st2))
         | _ \<Rightarrow> fail_buf ''bad handle'' st1))"

definition gsp_client_send where
  "gsp_client_send L ch nh mh target signal_type role_claim request_id codec st =
     (let st1 = clear_last_error st in
      case signal_try_from signal_type of Inl _ \<Rightarrow> fail_buf (''bad signal '' @ dec_word signal_type) st1
      | Inr sig \<Rightarrow>
        (case (reg_get (ff_gsps st1) ch, reg_get (ff_nodes st1) nh, reg_get (ff_mls st1) mh) of
           (Some c, Some n, Some m) \<Rightarrow>
             (case gsp_send (lb_gsp L) (lb_frame L) (ffi_sealer L m) target sig role_claim request_id
                     (codec_or_cbor codec) c n of
                (c', n', r) \<Rightarrow>
                  (let st2 = put_node nh n' (st1\<lparr>ff_gsps := reg_put ch c' (ff_gsps st1)\<rparr>) in
                   case r of Inr out \<Rightarrow> outbound_to_buffer out st2
                   | Inl e \<Rightarrow> fail_buf (gsp_error_display e) st2))
         | _ \<Rightarrow> fail_buf ''bad handle'' st1))"

fun gsp_outcome :: "gsp_error + gsp_accept_result \<Rightarrow> gsp_out" where
  "gsp_outcome (Inr a) =
     \<lparr>so_status = ''new'', so_signal = Some (signal_name (acc_signal a)),
      so_signal_code = Some (signal_as_u32 (acc_signal a)), so_sender = Some (acc_sender_id a),
      so_role_claim = Some (acc_role_claim a), so_request_id = Some (acc_request_id a), so_reason = None\<rparr>"
| "gsp_outcome (Inl (DuplicateRequest rid)) =
     \<lparr>so_status = ''duplicate'', so_signal = None, so_signal_code = None, so_sender = None,
      so_role_claim = None, so_request_id = Some rid, so_reason = None\<rparr>"
| "gsp_outcome (Inl e) =
     \<lparr>so_status = ''error'', so_signal = None, so_signal_code = None, so_sender = None,
      so_role_claim = None, so_request_id = None, so_reason = Some (gsp_error_display e)\<rparr>"

definition gsp_client_accept where
  "gsp_client_accept L ch epoch pt codec st =
     (let st1 = clear_last_error st in
      case reg_get (ff_gsps st1) ch of None \<Rightarrow> ret_str bad_client st1
      | Some c \<Rightarrow>
        (case gsp_accept (lb_gsp L) (lb_value L) pt epoch (codec_or_cbor codec) c of (c', r) \<Rightarrow>
           ret_str (opt_or (lb_json_gsp L (gsp_outcome r)) [])
             (st1\<lparr>ff_gsps := reg_put ch c' (ff_gsps st1)\<rparr>)))"

subsection \<open>Codec helpers\<close>

definition gbp_frame_encode_v where
  "gbp_frame_encode_v L version gid epoch tid stream_type stream_id flags sequence_no payload st =
     (let st1 = clear_last_error st;
          st_u8 = (case stream_try_from_u32 stream_type of Inr s \<Rightarrow> stream_as_u8 s | Inl _ \<Rightarrow> ucast stream_type);
          frame = \<lparr>f_version = version, f_group_id = take 16 gid, f_epoch = epoch, f_transition_id = tid,
                   f_stream_type = st_u8, f_stream_id = stream_id, f_flags = flags, f_sequence_no = sequence_no,
                   f_payload_size = word_of_nat (length payload), f_encrypted_payload = payload,
                   f_payload_format = 0\<rparr>
      in ret_vec (frame_to_cbor (lb_frame L) frame) st1)"

definition gbp_error_lookup where
  "gbp_error_lookup L code st =
     (case lookup code of
        Some sp \<Rightarrow> ret_vec (error_object_to_cbor (lb_error L) (error_object_from_spec sp (es_name sp))) st
      | None \<Rightarrow> fail_buf (''unknown error code 0x'' @ hex4 code) st)"

subsection \<open>SFrame\<close>

definition gbp_sframe_session_create where
  "gbp_sframe_session_create L mh suite label st =
     (let st1 = clear_last_error st in
      case suite_from_u8 suite of None \<Rightarrow> (set_last_error (''unknown ciphersuite '' @ dec_word suite) st1, 0)
      | Some su \<Rightarrow>
        (case utf8_error_at 0 label of Some e \<Rightarrow> (set_last_error (utf8_error_display e) st1, 0)
         | None \<Rightarrow>
           (case reg_get (ff_mls st1) mh of None \<Rightarrow> (set_last_error ''invalid MLS handle'' st1, 0)
            | Some ctx \<Rightarrow>
              (case session_from_mls (lb_om L) ctx (bytes_str label) su of
                 Inr session \<Rightarrow>
                   (case reg_insert (session_decryptor (lb_sframe L) session) (ff_sessions st1) of (rg, h) \<Rightarrow>
                      (st1\<lparr>ff_sessions := rg\<rparr>, h))
               | Inl e \<Rightarrow> (set_last_error (sframe_error_display e) st1, 0)))))"

definition gbp_sframe_session_free where
  "gbp_sframe_session_free h st =
     st\<lparr>ff_sessions := reg_remove h (ff_sessions st),
        ff_dedup := (\<lambda>(sh, leaf). if sh = h then None else ff_dedup st (sh, leaf))\<rparr>"

text \<open>
  The session of the call is a temporary object with its own map of encryptors; the cell of its one encryptor
  goes to the store of the state, where it outlives the session.
\<close>

definition gbp_sframe_encryptor_create where
  "gbp_sframe_encryptor_create L mh sh leaf suite label st =
     (let st1 = clear_last_error st in
      case suite_from_u8 suite of None \<Rightarrow> Some (set_last_error (''unknown ciphersuite '' @ dec_word suite) st1, 0)
      | Some su \<Rightarrow>
      (case utf8_error_at 0 label of Some e \<Rightarrow> Some (set_last_error (utf8_error_display e) st1, 0)
       | None \<Rightarrow>
       (if reg_get (ff_sessions st1) sh = None then Some (set_last_error ''invalid session handle'' st1, 0)
        else case ff_dedup st1 (sh, leaf) of
          Some existing \<Rightarrow>
            (case reg_insert existing (ff_encryptors st1) of (rg, h) \<Rightarrow> Some (st1\<lparr>ff_encryptors := rg\<rparr>, h))
        | None \<Rightarrow>
          (case reg_get (ff_mls st1) mh of None \<Rightarrow> Some (set_last_error ''invalid MLS handle'' st1, 0)
           | Some ctx \<Rightarrow>
             (case session_from_mls (lb_om L) ctx (bytes_str label) su of
                Inl e \<Rightarrow> Some (set_last_error (sframe_error_display e) st1, 0)
              | Inr session \<Rightarrow>
                (case session_encryptor (lb_sframe L) leaf (session\<lparr>ss_cells := ff_cells st1\<rparr>) of None \<Rightarrow> None
                 | Some (session', encryptor) \<Rightarrow>
                   (case reg_insert encryptor (ff_encryptors st1) of (rg, h) \<Rightarrow>
                      Some (st1\<lparr>ff_cells := ss_cells session', ff_encryptors := rg,
                                ff_dedup := (ff_dedup st1)((sh, leaf) \<mapsto> encryptor)\<rparr>, h))))))))"

definition gbp_sframe_encryptor_free where
  "gbp_sframe_encryptor_free h st = st\<lparr>ff_encryptors := reg_remove h (ff_encryptors st)\<rparr>"

definition gbp_sframe_encrypt where
  "gbp_sframe_encrypt L h plaintext aad st =
     (let st1 = clear_last_error st in
      case reg_get (ff_encryptors st1) h of None \<Rightarrow> fail_buf ''invalid encryptor handle'' st1
      | Some enc \<Rightarrow>
        (case sframe_encrypt (lb_sframe L) enc plaintext aad (ff_cells st1) of
           (cs, Inr payload) \<Rightarrow> ret_vec payload (st1\<lparr>ff_cells := cs\<rparr>)
         | (cs, Inl e) \<Rightarrow> fail_buf (sframe_error_display e) (st1\<lparr>ff_cells := cs\<rparr>)))"

definition with_leaf :: "u32 option \<Rightarrow> 's \<times> gbp_buffer \<Rightarrow> 's \<times> gbp_buffer \<times> u32 option" where
  "with_leaf l r = (fst r, snd r, l)"

text \<open>The last component is what is written to \<^verbatim>\<open>sender_leaf_out\<close>, if it is not null.\<close>

definition gbp_sframe_decrypt where
  "gbp_sframe_decrypt L sh payload aad st =
     (let st1 = clear_last_error st in
      case reg_get (ff_sessions st1) sh of
        None \<Rightarrow> Some (with_leaf None (fail_buf ''invalid session handle'' st1))
      | Some d \<Rightarrow>
        (case sframe_decrypt (lb_sframe L) payload aad d of None \<Rightarrow> None
         | Some (d', r) \<Rightarrow>
           (let st2 = st1\<lparr>ff_sessions := reg_put sh d' (ff_sessions st1)\<rparr> in
            case r of
              Inr (plaintext, leaf) \<Rightarrow> Some (with_leaf (Some leaf) (ret_vec plaintext st2))
            | Inl e \<Rightarrow> Some (with_leaf None (fail_buf (sframe_error_display e) st2)))))"

end
