(* ===== verification/Ffi_Runs.thy ===== *)
theory Ffi_Runs
  imports Gbp_Ffi
begin

section \<open>Sequences of calls through the C interface\<close>

text \<open>
  The exported functions as data, and what any sequence of calls keeps of the state: the invariant that
  every registry, the blocks, the cache of encryptors and the store of cells fit together, and that a
  block stays as it is until the caller releases it. A run ends (\<open>None\<close>) where the process does: on a panic,
  or when the caller releases something it does not own.
\<close>

subsection \<open>Calls\<close>

datatype util_call =
    BufferFree gbp_buffer
  | StringFree nat
  | LastError
  | Version
  | FrameEncodeV u8 bytes u64 u32 u32 u32 u16 u32 bytes
  | ErrorLookup u16

datatype mls_call =
    MlsCreate bytes bytes bytes bytes
  | MlsDestroy i32
  | MlsEpoch i32
  | MlsGroupId i32
  | MlsExportKeyPackage i32
  | MlsInvite bytes i32 bytes
  | MlsInviteFull bytes i32 bytes
  | MlsRemove bytes i32 u32
  | MlsProcessMessage i32 bytes
  | MlsFinalizeCommit i32
  | MlsClearPendingCommit i32
  | MlsAcceptWelcome i32 bytes
  | MlsExportState "(bytes \<times> bytes) list" i32
  | MlsRestoreState bytes

datatype node_call =
    NodeCreate u32 bytes
  | NodeDestroy i32
  | NodeBootstrapCreator i32 u64
  | NodeBootstrapJoiner i32 u64 u32
  | NodeState i32
  | NodeEpoch i32
  | NodeLastTransitionId i32
  | NodeSetEpoch i32 u64
  | NodeApplyTransition i32 u32
  | NodeSendControl instant i32 i32 u32 u16 u32 u32 bytes
  | NodeOnWire instant i32 i32 bytes
  | NodeDrainEvents i32

datatype gtp_call =
    GtpCreate
  | GtpDestroy i32
  | GtpReset i32
  | GtpSend i32 i32 i32 u32 u64 bytes u8
  | GtpAccept i32 u64 bytes u8

datatype gap_call =
    GapCreate
  | GapDestroy i32
  | GapReset i32
  | GapSend instant i32 i32 i32 u32 u32 u64 bytes u8
  | GapAccept instant i32 u64 bytes u8

datatype gsp_call =
    GspCreate
  | GspDestroy i32
  | GspReset i32
  | GspSend i32 i32 i32 u32 u32 u32 u32 u8
  | GspSendWithArgs i32 i32 i32 u32 u32 u32 u32 bytes u8
  | GspAccept i32 u64 bytes u8

datatype sframe_call =
    SframeSessionCreate i32 u8 bytes
  | SframeSessionFree i32
  | SframeEncryptorCreate i32 i32 u32 u8 bytes
  | SframeEncryptorFree i32
  | SframeEncrypt i32 bytes bytes
  | SframeDecrypt i32 bytes bytes

datatype ffi_call =
    Util util_call
  | Mls_Api mls_call
  | Node_Api node_call
  | Gtp_Api gtp_call
  | Gap_Api gap_call
  | Gsp_Api gsp_call
  | Sframe_Api sframe_call

datatype ffi_value =
    VUnit
  | VBool bool
  | VHandle i32
  | VU32 u32
  | VU64 u64
  | VBuf gbp_buffer
  | VBufLeaf gbp_buffer "u32 option"
  | VStr nat
  | VGid "bytes option"

definition with_value :: "('b \<Rightarrow> ffi_value) \<Rightarrow> 's \<times> 'b \<Rightarrow> ('s \<times> ffi_value) option" where
  "with_value f r = Some (fst r, f (snd r))"

primrec util_step where
  "util_step L (BufferFree b) st = map_option (\<lambda>s. (s, VUnit)) (gbp_buffer_free b st)"
| "util_step L (StringFree p) st = map_option (\<lambda>s. (s, VUnit)) (gbp_string_free p st)"
| "util_step L LastError st = with_value VStr (gbp_last_error st)"
| "util_step L Version st = with_value VStr (gbp_version st)"
| "util_step L (FrameEncodeV v gid e t sty sid flags sq payload) st =
     with_value VBuf (gbp_frame_encode_v L v gid e t sty sid flags sq payload st)"
| "util_step L (ErrorLookup code) st = with_value VBuf (gbp_error_lookup L code st)"

primrec mls_step where
  "mls_step L (MlsCreate r1 r2 r3 ident) st = with_value VHandle (gbp_mls_create L r1 r2 r3 ident st)"
| "mls_step L (MlsDestroy h) st = Some (gbp_mls_destroy h st, VUnit)"
| "mls_step L (MlsEpoch h) st = Some (st, VU64 (gbp_mls_epoch L h st))"
| "mls_step L (MlsGroupId h) st = with_value VGid (gbp_mls_group_id L h st)"
| "mls_step L (MlsExportKeyPackage h) st = with_value VBuf (gbp_mls_export_key_package L h st)"
| "mls_step L (MlsInvite r h kp) st = with_value VBuf (gbp_mls_invite L r h kp st)"
| "mls_step L (MlsInviteFull r h kp) st = with_value VBuf (gbp_mls_invite_full L r h kp st)"
| "mls_step L (MlsRemove r h leaf) st = with_value VBuf (gbp_mls_remove L r h leaf st)"
| "mls_step L (MlsProcessMessage h msg) st = with_value VU32 (gbp_mls_process_message L h msg st)"
| "mls_step L (MlsFinalizeCommit h) st = with_value VBool (gbp_mls_finalize_commit L h st)"
| "mls_step L (MlsClearPendingCommit h) st = with_value VBool (gbp_mls_clear_pending_commit L h st)"
| "mls_step L (MlsAcceptWelcome h w) st = with_value VBool (gbp_mls_accept_welcome L h w st)"
| "mls_step L (MlsExportState es h) st = with_value VBuf (gbp_mls_export_state L es h st)"
| "mls_step L (MlsRestoreState blob) st = with_value VHandle (gbp_mls_restore_state L blob st)"

primrec node_step where
  "node_step L (NodeCreate mid gid) st = with_value VHandle (gbp_node_create mid gid st)"
| "node_step L (NodeDestroy h) st = Some (gbp_node_destroy h st, VUnit)"
| "node_step L (NodeBootstrapCreator h e) st = with_value VBool (gbp_node_bootstrap_creator h e st)"
| "node_step L (NodeBootstrapJoiner h e t) st = with_value VBool (gbp_node_bootstrap_joiner h e t st)"
| "node_step L (NodeState h) st = Some (st, VU32 (gbp_node_state h st))"
| "node_step L (NodeEpoch h) st = Some (st, VU64 (gbp_node_epoch h st))"
| "node_step L (NodeLastTransitionId h) st = Some (st, VU32 (gbp_node_last_transition_id h st))"
| "node_step L (NodeSetEpoch h e) st = with_value VBool (gbp_node_set_epoch h e st)"
| "node_step L (NodeApplyTransition h t) st = with_value VBool (gbp_node_apply_transition h t st)"
| "node_step L (NodeSendControl now nh mh target opc t rid args) st =
     with_value VBuf (gbp_node_send_control L now nh mh target opc t rid args st)"
| "node_step L (NodeOnWire now nh mh wire) st = with_value VStr (gbp_node_on_wire L now nh mh wire st)"
| "node_step L (NodeDrainEvents nh) st = with_value VStr (gbp_node_drain_events L nh st)"

primrec gtp_step where
  "gtp_step L GtpCreate st = with_value VHandle (gtp_client_create st)"
| "gtp_step L (GtpDestroy h) st = Some (gtp_client_destroy h st, VUnit)"
| "gtp_step L (GtpReset h) st = Some (gtp_client_reset h st, VUnit)"
| "gtp_step L (GtpSend ch nh mh target mid text codec) st =
     with_value VBuf (gtp_client_send L ch nh mh target mid text codec st)"
| "gtp_step L (GtpAccept ch e pt codec) st = with_value VStr (gtp_client_accept L ch e pt codec st)"

primrec gap_step where
  "gap_step L GapCreate st = with_value VHandle (gap_client_create st)"
| "gap_step L (GapDestroy h) st = Some (gap_client_destroy h st, VUnit)"
| "gap_step L (GapReset h) st = Some (gap_client_reset h st, VUnit)"
| "gap_step L (GapSend now ch nh mh target src ts opus codec) st =
     with_value VBuf (gap_client_send L now ch nh mh target src ts opus codec st)"
| "gap_step L (GapAccept now ch e pt codec) st = with_value VStr (gap_client_accept L now ch e pt codec st)"

primrec gsp_step where
  "gsp_step L GspCreate st = with_value VHandle (gsp_client_create st)"
| "gsp_step L (GspDestroy h) st = Some (gsp_client_destroy h st, VUnit)"
| "gsp_step L (GspReset h) st = Some (gsp_client_reset h st, VUnit)"
| "gsp_step L (GspSend ch nh mh target sig role rid codec) st =
     with_value VBuf (gsp_client_send L ch nh mh target sig role rid codec st)"
| "gsp_step L (GspSendWithArgs ch nh mh target sig role rid args codec) st =
     with_value VBuf (gsp_client_send_with_args L ch nh mh target sig role rid args codec st)"
| "gsp_step L (GspAccept ch e pt codec) st = with_value VStr (gsp_client_accept L ch e pt codec st)"

primrec sframe_step where
  "sframe_step L (SframeSessionCreate mh suite label) st =
     with_value VHandle (gbp_sframe_session_create L mh suite label st)"
| "sframe_step L (SframeSessionFree h) st = Some (gbp_sframe_session_free h st, VUnit)"
| "sframe_step L (SframeEncryptorCreate mh sh leaf suite label) st =
     map_option (\<lambda>(s, h). (s, VHandle h)) (gbp_sframe_encryptor_create L mh sh leaf suite label st)"
| "sframe_step L (SframeEncryptorFree h) st = Some (gbp_sframe_encryptor_free h st, VUnit)"
| "sframe_step L (SframeEncrypt h pt aad) st = with_value VBuf (gbp_sframe_encrypt L h pt aad st)"
| "sframe_step L (SframeDecrypt sh payload aad) st =
     map_option (\<lambda>(s, b, l). (s, VBufLeaf b l)) (gbp_sframe_decrypt L sh payload aad st)"

primrec ffi_step where
  "ffi_step L (Util c) st = util_step L c st"
| "ffi_step L (Mls_Api c) st = mls_step L c st"
| "ffi_step L (Node_Api c) st = node_step L c st"
| "ffi_step L (Gtp_Api c) st = gtp_step L c st"
| "ffi_step L (Gap_Api c) st = gap_step L c st"
| "ffi_step L (Gsp_Api c) st = gsp_step L c st"
| "ffi_step L (Sframe_Api c) st = sframe_step L c st"

fun ffi_run where
  "ffi_run L [] st = Some (st, [])"
| "ffi_run L (c # cs) st =
     (case ffi_step L c st of None \<Rightarrow> None
      | Some (st1, v) \<Rightarrow> map_option (\<lambda>(st2, vs). (st2, v # vs)) (ffi_run L cs st1))"

lemma ffi_run_Cons:
  assumes "ffi_run L (c # cs) st = Some (st', vs)"
  obtains st1 v vs' where "ffi_step L c st = Some (st1, v)" "ffi_run L cs st1 = Some (st', vs')" "vs = v # vs'"
  using assms by (auto split: option.splits)

lemma ffi_run_invariant:
  assumes "ffi_run L cs st = Some (st', vs)" "P st"
    and "\<And>c st st' v. c \<in> set cs \<Longrightarrow> ffi_step L c st = Some (st', v) \<Longrightarrow> P st \<Longrightarrow> P st'"
  shows "P st'"
  using assms
proof (induction cs arbitrary: st vs)
  case (Cons c cs)
  from Cons.prems(1) obtain st1 v vs' where s: "ffi_step L c st = Some (st1, v)" "ffi_run L cs st1 = Some (st', vs')"
    by (rule ffi_run_Cons)
  have "P st1" using Cons.prems(3) [OF _ s(1) Cons.prems(2)] by simp
  then show ?case by (rule Cons.IH [OF s(2)]) (use Cons.prems(3) in auto)
qed simp

subsection \<open>What a call does to the registries and the blocks\<close>

definition reg_moves :: "'a registry \<Rightarrow> 'a registry \<Rightarrow> bool" where
  "reg_moves r r' \<longleftrightarrow> r' = r \<or> (\<exists>v. r' = fst (reg_insert v r)) \<or> (\<exists>h. r' = reg_remove h r)
     \<or> (\<exists>h v. reg_get r h \<noteq> None \<and> r' = reg_put h v r)"

lemma reg_moves_intros [simp]:
  "reg_moves r r" "reg_moves r (reg_remove h r)" "reg_insert v r = (r', h) \<Longrightarrow> reg_moves r r'"
  "reg_get r h = Some w \<Longrightarrow> reg_moves r (reg_put h v r)"
  by (auto simp: reg_moves_def, (metis fst_conv)+)

definition mem_moves :: "nat set \<Rightarrow> memory \<Rightarrow> memory \<Rightarrow> bool" where
  "mem_moves F m m' \<longleftrightarrow> m' = m \<or> (\<exists>b. m' = fst (mem_alloc b m)) \<or> (\<exists>p\<in>F. m' = mem_release p m)"

lemma mem_moves_refl [simp]: "mem_moves F m m"
  by (simp add: mem_moves_def)

lemma mem_moves_alloc: "mem_alloc b m = (m', p) \<Longrightarrow> mem_moves F m m'"
  unfolding mem_moves_def by (metis fst_conv)

lemma mem_moves_from_vec: "buffer_from_vec v m = (m', b) \<Longrightarrow> mem_moves F m m'"
  by (auto simp: buffer_from_vec_def mem_moves_alloc split: if_splits prod.splits)

lemma mem_moves_cstring: "alloc_cstring s m = (m', p) \<Longrightarrow> mem_moves F m m'"
  unfolding alloc_cstring_def Let_def by (rule mem_moves_alloc)

text \<open>The fields of SFrame are treated apart: only the calls of that family touch them.\<close>

definition ffi_moves where
  "ffi_moves F st st' \<longleftrightarrow>
     mem_moves F (ff_mem st) (ff_mem st') \<and> reg_moves (ff_mls st) (ff_mls st') \<and> reg_moves (ff_nodes st) (ff_nodes st')
     \<and> reg_moves (ff_gtps st) (ff_gtps st') \<and> reg_moves (ff_gaps st) (ff_gaps st') \<and> reg_moves (ff_gsps st) (ff_gsps st')
     \<and> reg_moves (ff_sessions st) (ff_sessions st') \<and> reg_moves (ff_encryptors st) (ff_encryptors st')"

definition same_encryptors where
  "same_encryptors st st' \<longleftrightarrow> ff_sessions st' = ff_sessions st \<and> ff_encryptors st' = ff_encryptors st
     \<and> ff_dedup st' = ff_dedup st \<and> ff_cells st' = ff_cells st"

lemma ret_vec_sel [simp]:
  "ff_mem (fst (ret_vec v st)) = fst (buffer_from_vec v (ff_mem st))"
  "ff_error (fst (ret_vec v st)) = ff_error st"
  "ff_mls (fst (ret_vec v st)) = ff_mls st"
  "ff_bundles (fst (ret_vec v st)) = ff_bundles st"
  "ff_nodes (fst (ret_vec v st)) = ff_nodes st"
  "ff_gtps (fst (ret_vec v st)) = ff_gtps st"
  "ff_gaps (fst (ret_vec v st)) = ff_gaps st"
  "ff_gsps (fst (ret_vec v st)) = ff_gsps st"
  "ff_sessions (fst (ret_vec v st)) = ff_sessions st"
  "ff_encryptors (fst (ret_vec v st)) = ff_encryptors st"
  "ff_dedup (fst (ret_vec v st)) = ff_dedup st"
  "ff_cells (fst (ret_vec v st)) = ff_cells st"
  by (simp_all add: ret_vec_def split: prod.split)

lemma ret_str_sel [simp]:
  "ff_mem (fst (ret_str v st)) = fst (alloc_cstring v (ff_mem st))"
  "ff_error (fst (ret_str v st)) = ff_error st"
  "ff_mls (fst (ret_str v st)) = ff_mls st"
  "ff_bundles (fst (ret_str v st)) = ff_bundles st"
  "ff_nodes (fst (ret_str v st)) = ff_nodes st"
  "ff_gtps (fst (ret_str v st)) = ff_gtps st"
  "ff_gaps (fst (ret_str v st)) = ff_gaps st"
  "ff_gsps (fst (ret_str v st)) = ff_gsps st"
  "ff_sessions (fst (ret_str v st)) = ff_sessions st"
  "ff_encryptors (fst (ret_str v st)) = ff_encryptors st"
  "ff_dedup (fst (ret_str v st)) = ff_dedup st"
  "ff_cells (fst (ret_str v st)) = ff_cells st"
  by (simp_all add: ret_str_def split: prod.split)

lemmas ffi_prims = clear_last_error_def set_last_error_def fail_buf_def put_mls_def put_node_def
  outbound_to_buffer_def with_value_def with_leaf_def Let_def

lemma mem_moves_fst [simp]:
  "mem_moves F m (fst (buffer_from_vec v m))" "mem_moves F m (fst (alloc_cstring s m))"
  by (metis mem_moves_from_vec prod.collapse) (metis mem_moves_cstring prod.collapse)

lemmas util_defs = gbp_buffer_free_def gbp_string_free_def gbp_last_error_def gbp_version_def
  gbp_frame_encode_v_def gbp_error_lookup_def

lemmas mls_defs = gbp_mls_create_def gbp_mls_destroy_def gbp_mls_epoch_def gbp_mls_group_id_def
  gbp_mls_export_key_package_def gbp_mls_invite_def invited_def gbp_mls_invite_full_def gbp_mls_remove_def
  gbp_mls_process_message_def gbp_mls_finalize_commit_def gbp_mls_clear_pending_commit_def gbp_mls_accept_welcome_def
  gbp_mls_export_state_def gbp_mls_restore_state_def

lemmas node_defs = gbp_node_create_def gbp_node_destroy_def gbp_node_bootstrap_creator_def
  gbp_node_bootstrap_joiner_def gbp_node_state_def gbp_node_epoch_def gbp_node_last_transition_id_def
  gbp_node_set_epoch_def gbp_node_apply_transition_def gbp_node_send_control_def gbp_node_on_wire_def
  gbp_node_drain_events_def

lemmas gtp_defs = gtp_client_create_def gtp_client_destroy_def gtp_client_reset_def gtp_client_send_def
  gtp_client_accept_def

lemmas gap_defs = gap_client_create_def gap_client_destroy_def gap_client_reset_def gap_client_send_def
  gap_client_accept_def

lemmas gsp_defs = gsp_client_create_def gsp_client_destroy_def gsp_client_reset_def gsp_client_send_def
  gsp_client_send_with_args_def gsp_client_accept_def

lemmas sframe_defs = gbp_sframe_session_create_def gbp_sframe_session_free_def gbp_sframe_encryptor_create_def
  gbp_sframe_encryptor_free_def gbp_sframe_encrypt_def gbp_sframe_decrypt_def

lemmas moves_defs = ffi_prims ffi_moves_def same_encryptors_def

primrec util_frees :: "util_call \<Rightarrow> nat set" where
  "util_frees (BufferFree b) = (if gb_cap b = 0 then {} else {gb_ptr b})"
| "util_frees (StringFree p) = {p}"
| "util_frees LastError = {}"
| "util_frees Version = {}"
| "util_frees (FrameEncodeV v gid e t sty sid flags sq payload) = {}"
| "util_frees (ErrorLookup code) = {}"

fun frees :: "ffi_call \<Rightarrow> nat set" where
  "frees (Util c) = util_frees c"
| "frees _ = {}"

lemma util_step_moves:
  "util_step L c st = Some (st', v) \<Longrightarrow> ffi_moves (util_frees c) st st' \<and> same_encryptors st st'"
  by (cases c)
    (auto simp: moves_defs util_defs buffer_free_def string_free_def mem_moves_def [of "{_}"]
      split: option.splits sum.splits prod.splits if_splits block.splits)

lemma mls_step_moves:
  "mls_step L c st = Some (st', v) \<Longrightarrow> ffi_moves F st st' \<and> same_encryptors st st'"
  by (cases c; simp add: with_value_def; elim conjE; hypsubst_thin?;
      simp add: moves_defs mls_defs split: option.split sum.split prod.split)

lemma node_step_moves:
  "node_step L c st = Some (st', v) \<Longrightarrow> ffi_moves F st st' \<and> same_encryptors st st'"
  by (cases c; simp add: with_value_def; elim conjE; hypsubst_thin?;
      simp add: moves_defs node_defs split: option.split sum.split prod.split)

lemma gtp_step_moves:
  "gtp_step L c st = Some (st', v) \<Longrightarrow> ffi_moves F st st' \<and> same_encryptors st st'"
  by (cases c; simp add: with_value_def; elim conjE; hypsubst_thin?;
      simp add: moves_defs gtp_defs split: option.split sum.split prod.split)

lemma gap_step_moves:
  "gap_step L c st = Some (st', v) \<Longrightarrow> ffi_moves F st st' \<and> same_encryptors st st'"
  by (cases c; simp add: with_value_def; elim conjE; hypsubst_thin?;
      simp add: moves_defs gap_defs split: option.split sum.split prod.split)

lemma gsp_step_moves:
  "gsp_step L c st = Some (st', v) \<Longrightarrow> ffi_moves F st st' \<and> same_encryptors st st'"
  by (cases c; simp add: with_value_def; elim conjE; hypsubst_thin?;
      simp add: moves_defs gsp_defs split: option.split sum.split prod.split)

lemma sframe_step_moves:
  "sframe_step L c st = Some (st', v) \<Longrightarrow> ffi_moves F st st'"
  by (cases c) (auto simp: moves_defs sframe_defs split: option.splits sum.splits prod.splits if_splits)

lemma ffi_step_moves: "ffi_step L c st = Some (st', v) \<Longrightarrow> ffi_moves (frees c) st st'"
  by (cases c) (auto dest: util_step_moves mls_step_moves node_step_moves gtp_step_moves gap_step_moves
      gsp_step_moves sframe_step_moves)

subsection \<open>The invariant\<close>

text \<open>
  \<open>n\<close> bounds the number of insertions into each registry, so it bounds the handles; the encryptors
  of the registry and of the cache refer to cells of the store, and the cache only has entries of live
  sessions.
\<close>

definition reg_fits :: "nat \<Rightarrow> 'a registry \<Rightarrow> bool" where
  "reg_fits n r \<longleftrightarrow> (\<exists>k\<le>n. reg_wf k r)"

lemma reg_fits_new: "reg_fits n reg_new"
  unfolding reg_fits_def using reg_wf_new by blast

lemma reg_fits_moves:
  assumes "reg_fits n r" "n < 2 ^ 31 - 1" "reg_moves r r'"
  shows "reg_fits (Suc n) r'"
proof -
  obtain k where k: "k \<le> n" "reg_wf k r" using assms(1) by (auto simp: reg_fits_def)
  have "\<exists>k'\<le>Suc k. reg_wf k' r'"
    using assms(3) unfolding reg_moves_def
  proof (elim disjE exE conjE)
    fix v assume "r' = fst (reg_insert v r)"
    then have "reg_insert v r = (r', snd (reg_insert v r))" by simp
    then show ?thesis using reg.wf_insert [OF k(2), of v r'] k(1) assms(2) by auto
  next
    fix h v assume "reg_get r h \<noteq> None" "r' = reg_put h v r"
    then show ?thesis using reg.wf_put [OF k(2)] by (auto intro: exI [of _ k])
  qed (use k(2) reg.wf_remove [OF k(2)] in \<open>auto intro: exI [of _ k]\<close>)
  then show ?thesis using k(1) unfolding reg_fits_def by (meson Suc_le_mono le_trans)
qed

lemma reg_fits_insert:
  assumes "reg_fits n r" "n < 2 ^ 31 - 1" "reg_insert v r = (r', h)"
  shows "h \<noteq> 0" "reg_get r h = None"
  using assms reg.insert_fresh unfolding reg_fits_def by (meson le_less_trans)+

lemma mem_wf_moves: "mem_wf m \<Longrightarrow> mem_moves F m m' \<Longrightarrow> mem_wf m'"
  unfolding mem_moves_def by (metis mem_wf_alloc mem_wf_release prod.collapse)

definition cells_ok where
  "cells_ok st \<longleftrightarrow>
     (\<forall>e\<in>ran (rg_map (ff_encryptors st)) \<union> ran (ff_dedup st). se_cell e < length (ff_cells st))
     \<and> (\<forall>sh leaf. ff_dedup st (sh, leaf) \<noteq> None \<longrightarrow> reg_get (ff_sessions st) sh \<noteq> None)"

definition ffi_inv where
  "ffi_inv n st \<longleftrightarrow>
     mem_wf (ff_mem st) \<and> reg_fits n (ff_mls st) \<and> reg_fits n (ff_nodes st) \<and> reg_fits n (ff_gtps st)
     \<and> reg_fits n (ff_gaps st) \<and> reg_fits n (ff_gsps st) \<and> reg_fits n (ff_sessions st)
     \<and> reg_fits n (ff_encryptors st) \<and> cells_ok st"

lemma rg_map_new [simp]: "rg_map reg_new = Map.empty"
  by (simp add: reg_new_def)

lemma ffi_inv_init: "ffi_inv n ffi_init"
  by (simp add: ffi_inv_def ffi_init_def mem_wf_new reg_fits_new cells_ok_def)

lemma cells_ok_same: "same_encryptors st st' \<Longrightarrow> cells_ok st \<Longrightarrow> cells_ok st'"
  by (simp add: cells_ok_def same_encryptors_def)

lemma ran_upd_subset: "x \<in> ran (m(k \<mapsto> v)) \<Longrightarrow> x = v \<or> x \<in> ran m"
  by (auto simp: ran_def split: if_splits)

lemma ran_del_subset: "x \<in> ran (m(k := None)) \<Longrightarrow> x \<in> ran m"
  by (auto simp: ran_def split: if_splits)

lemma length_sframe_encrypt:
  "sframe_encrypt sl h pt aad cs = (cs', r) \<Longrightarrow> length cs' = length cs"
  by (auto simp: sframe_encrypt_def Let_def split: if_splits prod.splits option.splits)

lemma session_encryptor_cell:
  assumes "session_encryptor sl leaf (s\<lparr>ss_cells := cs\<rparr>) = Some (s', e)" "ss_encryptors s = Map.empty"
  shows "ss_cells s' = cs @ [last (ss_cells s')] \<and> se_cell e = length cs"
  using assms by (auto simp: session_encryptor_def encryptor_new_def Let_def split: option.splits)

lemma session_from_mls_empty: "session_from_mls om ctx label su = Inr s \<Longrightarrow> ss_encryptors s = Map.empty"
  by (auto simp: session_from_mls_def session_new_def Let_def split: sum.splits)

lemma displays_not_empty [simp]:
  "mls_error_display e1 \<noteq> []" "node_error_display e2 \<noteq> []" "gtp_error_display e3 \<noteq> []"
  "gap_error_display e4 \<noteq> []" "gsp_error_display e5 \<noteq> []" "sframe_error_display e6 \<noteq> []"
  "utf8_error_display e7 \<noteq> []"
  subgoal by (cases e1) simp_all
  subgoal by (cases e2) simp_all
  subgoal by (cases e3) simp_all
  subgoal by (cases e4) simp_all
  subgoal by (cases e5) simp_all
  subgoal by (cases e6) simp_all
  subgoal by (cases e7 rule: utf8_error_display.cases) simp_all
  done

text \<open>The three ways in which the creation of an encryptor handle ends.\<close>

lemma encryptor_create_cases:
  assumes "gbp_sframe_encryptor_create L mh sh leaf su label st = Some (st', h)"
  obtains (refused) e where "e \<noteq> []" "st' = st\<lparr>ff_error := e\<rparr>" "h = 0"
    | (reconnected) x r where "reg_get (ff_sessions st) sh \<noteq> None" "ff_dedup st (sh, leaf) = Some x"
        "reg_insert x (ff_encryptors st) = (r, h)" "st' = st\<lparr>ff_error := [], ff_encryptors := r\<rparr>"
    | (new) u ctx s s' x r where "reg_get (ff_sessions st) sh \<noteq> None" "ff_dedup st (sh, leaf) = None"
        "suite_from_u8 su = Some u" "reg_get (ff_mls st) mh = Some ctx"
        "session_from_mls (lb_om L) ctx (bytes_str label) u = Inr s"
        "session_encryptor (lb_sframe L) leaf (s\<lparr>ss_cells := ff_cells st\<rparr>) = Some (s', x)"
        "reg_insert x (ff_encryptors st) = (r, h)"
        "st' = st\<lparr>ff_error := [], ff_cells := ss_cells s', ff_encryptors := r, ff_dedup := (ff_dedup st)((sh, leaf) \<mapsto> x)\<rparr>"
proof -
  consider "suite_from_u8 su = None" | e where "suite_from_u8 su \<noteq> None" "utf8_error_at 0 label = Some e"
    | u where "suite_from_u8 su = Some u" "utf8_error_at 0 label = None" by fastforce
  then show ?thesis
  proof cases
    case 1
    then show ?thesis using assms refused [of "''unknown ciphersuite '' @ dec_word su"]
      by (simp add: gbp_sframe_encryptor_create_def ffi_prims)
  next
    case 2
    then show ?thesis using assms refused [of "utf8_error_display e"]
      by (auto simp: gbp_sframe_encryptor_create_def ffi_prims)
  next
    case 3
    note d = assms [unfolded gbp_sframe_encryptor_create_def ffi_prims 3 option.case]
    show ?thesis
    proof (cases "reg_get (ff_sessions st) sh = None")
      case True
      then show ?thesis using d refused [of "''invalid session handle''"] by simp
    next
      case live: False
      show ?thesis
      proof (cases "ff_dedup st (sh, leaf)")
        case (Some x)
        then show ?thesis using d live reconnected [OF live Some] by (simp split: prod.splits)
      next
        case none: None
        show ?thesis
        proof (cases "reg_get (ff_mls st) mh")
          case None
          then show ?thesis using d live none refused [of "''invalid MLS handle''"] by simp
        next
          case (Some ctx)
          note new' = new [OF live none 3(1) Some]
          show ?thesis
            using d live none Some new' refused [OF displays_not_empty(6)] by (auto split: sum.splits option.splits prod.splits)
        qed
      qed
    qed
  qed
qed

lemma encryptor_create_new_cell:
  assumes "session_from_mls om ctx l u = Inr s" "session_encryptor sl leaf (s\<lparr>ss_cells := cs\<rparr>) = Some (s', x)"
  shows "length (ss_cells s') = Suc (length cs)" "se_cell x = length cs"
  using session_encryptor_cell [OF assms(2) session_from_mls_empty [OF assms(1)]]
  by (metis length_append_singleton)+

lemma cells_ok_encryptor_create:
  assumes "gbp_sframe_encryptor_create L mh sh leaf su label st = Some (st', h)" "cells_ok st"
  shows "cells_ok st'"
  using assms(1)
proof (cases rule: encryptor_create_cases)
  case (reconnected x r)
  then have "rg_map r = (rg_map (ff_encryptors st))(h \<mapsto> x)" by (auto simp: reg_insert_def Let_def)
  then show ?thesis using assms(2) reconnected(2,4)
    by (auto simp: cells_ok_def dest!: ran_upd_subset intro: ranI)
next
  case (new u ctx s s' x r)
  then have "rg_map r = (rg_map (ff_encryptors st))(h \<mapsto> x)" by (auto simp: reg_insert_def Let_def)
  moreover note encryptor_create_new_cell [OF new(5,6)]
  ultimately show ?thesis using assms(2) new(1,8) unfolding cells_ok_def
    by (auto dest!: ran_upd_subset; fastforce intro: less_SucI)
qed (use assms(2) in \<open>simp add: cells_ok_def\<close>)

lemma sframe_step_cells:
  assumes "sframe_step L c st = Some (st', v)" "cells_ok st"
  shows "cells_ok st'"
proof (cases c)
  case (SframeSessionFree h)
  have "ran (\<lambda>(sh, leaf). if sh = h then None else ff_dedup st (sh, leaf)) \<subseteq> ran (ff_dedup st)"
    by (auto simp: ran_def)
  then show ?thesis using assms SframeSessionFree
    by (auto simp: gbp_sframe_session_free_def cells_ok_def reg.get_remove split: if_splits; blast)
next
  case (SframeEncryptorCreate mh sh leaf su label)
  then show ?thesis using assms cells_ok_encryptor_create by auto
next
  case (SframeEncryptorFree h)
  then show ?thesis using assms
    by (auto simp: gbp_sframe_encryptor_free_def cells_ok_def reg_remove_def dest!: ran_del_subset; blast)
next
  case (SframeEncrypt h pt aad)
  then show ?thesis using assms
    by (auto simp: gbp_sframe_encrypt_def ffi_prims cells_ok_def dest: length_sframe_encrypt
        split: option.splits prod.splits sum.splits; blast)
next
  case (SframeSessionCreate mh su label)
  then show ?thesis using assms
    by (auto simp: gbp_sframe_session_create_def ffi_prims cells_ok_def reg.get_insert
        split: option.splits prod.splits sum.splits; blast)
next
  case (SframeDecrypt sh payload aad)
  then show ?thesis using assms
    by (auto simp: gbp_sframe_decrypt_def ffi_prims cells_ok_def reg.get_put
        split: option.splits prod.splits sum.splits; blast)
qed

lemma ffi_step_cells: "ffi_step L c st = Some (st', v) \<Longrightarrow> cells_ok st \<Longrightarrow> cells_ok st'"
  by (cases c) (auto dest: util_step_moves mls_step_moves node_step_moves gtp_step_moves gap_step_moves
      gsp_step_moves sframe_step_cells intro: cells_ok_same)

lemma ffi_step_inv:
  assumes "ffi_step L c st = Some (st', v)" "ffi_inv n st" "n < 2 ^ 31 - 1"
  shows "ffi_inv (Suc n) st'"
  using assms(2) ffi_step_moves [OF assms(1)] ffi_step_cells [OF assms(1)]
  unfolding ffi_inv_def ffi_moves_def by (meson assms(3) mem_wf_moves reg_fits_moves)

lemma ffi_run_inv:
  "ffi_run L cs st = Some (st', vs) \<Longrightarrow> ffi_inv n st \<Longrightarrow> n + length cs < 2 ^ 31 \<Longrightarrow> ffi_inv (n + length cs) st'"
proof (induction cs arbitrary: st n vs)
  case (Cons c cs)
  from Cons.prems(1) obtain st1 v vs' where s: "ffi_step L c st = Some (st1, v)" "ffi_run L cs st1 = Some (st', vs')"
    by (rule ffi_run_Cons)
  have "ffi_inv (Suc n) st1" using ffi_step_inv [OF s(1) Cons.prems(2)] Cons.prems(3) by simp
  then show ?case using Cons.IH [OF s(2), of "Suc n"] Cons.prems(3) by simp
qed simp

end
