(* ===== verification/Ffi_Sframe.thy ===== *)
theory Ffi_Sframe
  imports Ffi_Runs
begin

section \<open>SFrame handles of the C interface\<close>

text \<open>
  The cache of encryptors behind \<^verbatim>\<open>gbp_sframe_encryptor_create\<close> exists to keep one counter per session and
  leaf, whatever handles are created and freed. What it achieves: handles of one session and leaf are
  connected to one cell for as long as the session lives. What it does not cover: two sessions of one epoch, whose cells start with the same key and the same counter.
\<close>

subsection \<open>Cells and counters\<close>

lemma sframe_encrypt_cell:
  assumes "counter_ok sl count" "sframe_encrypt sl x pt aad cs = (cs', r)" "i < length cs"
  shows "es_key (cs' ! i) = es_key (cs ! i) \<and> count (es_counter (cs ! i)) \<le> count (es_counter (cs' ! i))"
proof (cases "sl_is_exhausted sl (es_counter (cs ! se_cell x))")
  case False
  then obtain c' where c: "sl_next sl (es_counter (cs ! se_cell x)) = (word_of_nat (count (es_counter (cs ! se_cell x))), c')"
    "count c' = Suc (count (es_counter (cs ! se_cell x)))"
    using assms(1) unfolding counter_ok_def by (meson not_le)
  have "cs' = cs[se_cell x := (cs ! se_cell x)\<lparr>es_counter := c'\<rparr>]"
    using assms(2) False c(1) by (auto simp: sframe_encrypt_def Let_def split: option.splits)
  then show ?thesis using assms(3) c(2) by (cases "i = se_cell x") simp_all
qed (use assms in \<open>simp add: sframe_encrypt_def Let_def\<close>)

lemma session_encryptor_keeps:
  assumes "session_from_mls om ctx l u = Inr s" "session_encryptor sl leaf (s\<lparr>ss_cells := cs\<rparr>) = Some (s', x)"
    "i < length cs"
  shows "ss_cells s' ! i = cs ! i" "i < length (ss_cells s')"
  using session_encryptor_cell [OF assms(2) session_from_mls_empty [OF assms(1)]] assms(3)
  by (metis nth_append, metis encryptor_create_new_cell(1) [OF assms(1,2)] less_SucI)

definition advances where
  "advances count st st' \<longleftrightarrow>
     (\<forall>i<length (ff_cells st). i < length (ff_cells st') \<and> es_key (ff_cells st' ! i) = es_key (ff_cells st ! i)
        \<and> count (es_counter (ff_cells st ! i)) \<le> (count (es_counter (ff_cells st' ! i)) :: nat))"

lemma advances_refl: "ff_cells st' = ff_cells st \<Longrightarrow> advances count st st'"
  by (simp add: advances_def)

lemma advances_trans: "advances count st st1 \<Longrightarrow> advances count st1 st2 \<Longrightarrow> advances count st st2"
  unfolding advances_def by (auto intro: order_trans)

lemma non_sframe_step:
  assumes "ffi_step L c st = Some (st', v)" "\<nexists>d. c = Sframe_Api d"
  shows "same_encryptors st st'"
  using assms
  by (cases c) (auto dest: util_step_moves mls_step_moves node_step_moves gtp_step_moves gap_step_moves gsp_step_moves)

lemma read_ret_vec: "ret_vec v st = (st', b) \<Longrightarrow> read_buffer (ff_mem st') b = Some v"
  using read_buffer_from_vec [of v "ff_mem st"] by (auto simp: ret_vec_def split: prod.splits)

lemma encrypt_step_cells:
  assumes "gbp_sframe_encrypt L h pt aad st = (st', b)"
  shows "case reg_get (ff_encryptors st) h of None \<Rightarrow> ff_cells st' = ff_cells st
    | Some x \<Rightarrow> ff_cells st' = fst (sframe_encrypt (lb_sframe L) x pt aad (ff_cells st))"
proof -
  have "st' = fst (gbp_sframe_encrypt L h pt aad st)" using assms by simp
  then show ?thesis by (simp add: gbp_sframe_encrypt_def ffi_prims split: option.split prod.split sum.split)
qed

lemma ffi_step_advances:
  assumes "counter_ok (lb_sframe L) count" "ffi_step L c st = Some (st', v)"
  shows "advances count st st'"
proof (cases "\<exists>d. c = Sframe_Api d")
  case False
  then show ?thesis using non_sframe_step [OF assms(2)] by (simp add: same_encryptors_def advances_refl)
next
  case True
  then obtain d where d: "c = Sframe_Api d" by blast
  then have step: "sframe_step L d st = Some (st', v)" using assms(2) by simp
  show ?thesis
  proof (cases d)
    case (SframeEncryptorCreate mh sh leaf su label)
    then obtain h where "gbp_sframe_encryptor_create L mh sh leaf su label st = Some (st', h)"
      using step by auto
    then show ?thesis
    proof (cases rule: encryptor_create_cases)
      case (new u ctx s s' x r)
      then show ?thesis using session_encryptor_keeps [OF new(5,6)] by (simp add: advances_def)
    qed (simp_all add: advances_refl)
  next
    case (SframeEncrypt h pt aad)
    then obtain b where b: "gbp_sframe_encrypt L h pt aad st = (st', b)"
      using step by (cases "gbp_sframe_encrypt L h pt aad st") (simp add: with_value_def)
    obtain cs r where cs: "sframe_encrypt (lb_sframe L) (the (reg_get (ff_encryptors st) h)) pt aad (ff_cells st) = (cs, r)"
      by force
    show ?thesis
      using encrypt_step_cells [OF b] cs sframe_encrypt_cell [OF assms(1) cs] length_sframe_encrypt [OF cs]
      by (auto simp: advances_def split: option.splits)
  qed (use step in \<open>auto simp: sframe_defs ffi_prims intro!: advances_refl split: option.splits sum.splits prod.splits\<close>)
qed

lemma ffi_run_advances:
  assumes "counter_ok (lb_sframe L) count" "ffi_run L cs st = Some (st', vs)"
  shows "advances count st st'"
  by (rule ffi_run_invariant [OF assms(2)])
    (auto intro: advances_refl advances_trans ffi_step_advances [OF assms(1)])

subsection \<open>One counter per session and leaf\<close>

lemma ffi_step_dedup:
  assumes "ffi_step L c st = Some (st', v)" "ff_dedup st (sh, leaf) = Some x" "c \<noteq> Sframe_Api (SframeSessionFree sh)"
  shows "ff_dedup st' (sh, leaf) = Some x"
proof (cases "\<exists>d. c = Sframe_Api d")
  case False
  then show ?thesis using non_sframe_step [OF assms(1)] assms(2) by (simp add: same_encryptors_def)
next
  case True
  then obtain d where d: "c = Sframe_Api d" by blast
  then have step: "sframe_step L d st = Some (st', v)" using assms(1) by simp
  show ?thesis
  proof (cases d)
    case (SframeEncryptorCreate mh sh' leaf' su label)
    then obtain h where "gbp_sframe_encryptor_create L mh sh' leaf' su label st = Some (st', h)"
      using step by auto
    then show ?thesis by (cases rule: encryptor_create_cases) (use assms(2) in auto)
  qed (use step assms(2,3) d in \<open>auto simp: sframe_defs ffi_prims split: option.splits sum.splits prod.splits\<close>)
qed

lemma ffi_run_dedup:
  assumes "ffi_run L cs st = Some (st', vs)" "ff_dedup st (sh, leaf) = Some x" "Sframe_Api (SframeSessionFree sh) \<notin> set cs"
  shows "ff_dedup st' (sh, leaf) = Some x"
  by (rule ffi_run_invariant [OF assms(1)]) (use assms(2,3) ffi_step_dedup in metis)+

lemma ffi_run_cells: "ffi_run L cs st = Some (st', vs) \<Longrightarrow> cells_ok st \<Longrightarrow> cells_ok st'"
  by (rule ffi_run_invariant) (auto intro: ffi_step_cells)

lemma cells_ok_init: "cells_ok ffi_init"
  by (simp add: cells_ok_def ffi_init_def)

text \<open>
  C13. A handle for the same session and leaf always reconnects. Once an encryptor has been created for a leaf of a
  session, then after any further calls that do not free the session (also ones that free every handle to the
  encryptor), a creation for that session and leaf, under whatever suite, label and MLS handle, that
  succeeds yields a handle of the same cell: the key is the same, and the counter has not gone back.
\<close>

theorem sframe_handle_reconnects:
  assumes "counter_ok (lb_sframe L) count" and "ffi_run L cs ffi_init = Some (st, us)"
    and "ff_dedup st (sh, leaf) = Some x"
    and "ffi_run L ds st = Some (st1, vs)" and "Sframe_Api (SframeSessionFree sh) \<notin> set ds"
    and "gbp_sframe_encryptor_create L mh sh leaf su label st1 = Some (st2, h)" and "ff_error st2 = []"
  shows "reg_get (ff_encryptors st2) h = Some x \<and> ff_cells st2 = ff_cells st1
    \<and> es_key (ff_cells st2 ! se_cell x) = es_key (ff_cells st ! se_cell x)
    \<and> count (es_counter (ff_cells st ! se_cell x)) \<le> count (es_counter (ff_cells st2 ! se_cell x))"
proof -
  have x: "se_cell x < length (ff_cells st)"
    using ffi_run_cells [OF assms(2) cells_ok_init] assms(3) by (auto simp: cells_ok_def intro: ranI)
  have "ff_dedup st1 (sh, leaf) = Some x" by (rule ffi_run_dedup [OF assms(4,3,5)])
  with assms(6) have "reg_get (ff_encryptors st2) h = Some x \<and> ff_cells st2 = ff_cells st1"
    by (cases rule: encryptor_create_cases) (use assms(7) in \<open>auto dest: reg.get_after_insert\<close>)
  then show ?thesis using ffi_run_advances [OF assms(1,4)] x by (simp add: advances_def)
qed

subsection \<open>Two sessions of one epoch\<close>

lemma reg_insert_next: "reg_insert v r = (r', h) \<Longrightarrow> reg_insert w r' = (r'', h') \<Longrightarrow> h' \<noteq> h"
  by (auto simp: reg_insert_def Let_def)

lemma session_create_succeeds:
  fixes L :: "('g, 'sg, 'st, 'kp, 'm, 'w, 'ki, 'k, 'd, 'c, 'r) ffi_libs" and s :: "('k, 'c) sframe_session"
  assumes "reg_get (ff_mls st) mh = Some ctx" "suite_from_u8 su = Some u" "utf8_valid label"
    "session_from_mls (lb_om L) ctx (bytes_str label) u = Inr s"
    "reg_insert (session_decryptor (lb_sframe L) s) (ff_sessions st) = (r, h)"
  shows "gbp_sframe_session_create L mh su label st = (st\<lparr>ff_error := [], ff_sessions := r\<rparr>, h)"
proof -
  have "utf8_error_at 0 label = None" using assms(3) by (simp add: utf8_error_at_None)
  then show ?thesis using assms by (simp add: gbp_sframe_session_create_def ffi_prims)
qed

lemma encryptor_create_succeeds:
  fixes L :: "('g, 'sg, 'st, 'kp, 'm, 'w, 'ki, 'k, 'd, 'c, 'r) ffi_libs" and s :: "('k, 'c) sframe_session"
  assumes "reg_get (ff_mls st) mh = Some ctx" "suite_from_u8 su = Some u" "utf8_valid label"
    "session_from_mls (lb_om L) ctx (bytes_str label) u = Inr s"
    "sl_enc_key (lb_sframe L) (to_sframe u) (kid_from (lb_sframe L) (ss_epoch s) leaf) (ss_base_key s) = Some key"
    "reg_get (ff_sessions st) sh \<noteq> None" "ff_dedup st (sh, leaf) = None"
  defines "x \<equiv> \<lparr>se_cell = length (ff_cells st), se_kid = kid_from (lb_sframe L) (ss_epoch s) leaf\<rparr>"
  shows "\<exists>st' h. gbp_sframe_encryptor_create L mh sh leaf su label st = Some (st', h)
    \<and> ff_cells st' = ff_cells st @ [\<lparr>es_key = key, es_counter = sl_counter (lb_sframe L)\<rparr>]
    \<and> ff_dedup st' = (ff_dedup st)((sh, leaf) \<mapsto> x) \<and> ff_mls st' = ff_mls st \<and> ff_sessions st' = ff_sessions st
    \<and> reg_insert x (ff_encryptors st) = (ff_encryptors st', h)"
proof -
  have "utf8_error_at 0 label = None" using assms(3) by (simp add: utf8_error_at_None)
  moreover have "ss_encryptors s = Map.empty" "ss_suite s = u"
    using assms(4) by (auto simp: session_from_mls_def session_new_def Let_def split: sum.splits)
  moreover obtain r h where "reg_insert x (ff_encryptors st) = (r, h)" by force
  ultimately show ?thesis
    using assms(1,2,4-7) unfolding x_def
    by (simp add: gbp_sframe_encryptor_create_def ffi_prims session_encryptor_def encryptor_new_def)
qed

text \<open>
  C39. Two sessions of one epoch reuse nonces. In any state the interface can reach, creating two sessions from one
  MLS context under the same label and suite, and an encryptor for the same leaf in each, gives two
  handles whose cells are different but hold the same key and the same initial counter, under the
  same key id. So the \<open>n\<close>-th frame through one and the \<open>n\<close>-th frame through the other are encrypted under the
  same key and nonce; the cache is keyed by the session handle and does not see that the sessions agree.
\<close>

theorem sframe_sessions_share_nonces:
  fixes L :: "('g, 'sg, 'st, 'kp, 'm, 'w, 'ki, 'k, 'd, 'c, 'r) ffi_libs" and s :: "('k, 'c) sframe_session"
  assumes "ffi_run L cs ffi_init = Some (st, us)" and "length cs < 2 ^ 31 - 2"
    and "reg_get (ff_mls st) mh = Some ctx" and "suite_from_u8 su = Some u" and "utf8_valid label"
    and "session_from_mls (lb_om L) ctx (bytes_str label) u = Inr s"
    and "sl_enc_key (lb_sframe L) (to_sframe u) (kid_from (lb_sframe L) (ss_epoch s) leaf) (ss_base_key s) = Some key"
  shows "\<exists>s1 s2 h1 h2 st' x1 x2.
      ffi_run L [Sframe_Api (SframeSessionCreate mh su label), Sframe_Api (SframeSessionCreate mh su label),
        Sframe_Api (SframeEncryptorCreate mh s1 leaf su label), Sframe_Api (SframeEncryptorCreate mh s2 leaf su label)] st
        = Some (st', [VHandle s1, VHandle s2, VHandle h1, VHandle h2])
    \<and> reg_get (ff_encryptors st') h1 = Some x1 \<and> reg_get (ff_encryptors st') h2 = Some x2
    \<and> se_cell x1 \<noteq> se_cell x2 \<and> se_kid x1 = se_kid x2
    \<and> ff_cells st' ! se_cell x1 = \<lparr>es_key = key, es_counter = sl_counter (lb_sframe L)\<rparr>
    \<and> ff_cells st' ! se_cell x2 = \<lparr>es_key = key, es_counter = sl_counter (lb_sframe L)\<rparr>"
proof -
  have inv: "ffi_inv (length cs) st" using ffi_run_inv [OF assms(1) ffi_inv_init [of 0]] assms(2) by simp
  obtain r1 s1 where r1: "reg_insert (session_decryptor (lb_sframe L) s) (ff_sessions st) = (r1, s1)" by force
  let ?st1 = "st\<lparr>ff_error := [], ff_sessions := r1\<rparr>"
  have c1: "gbp_sframe_session_create L mh su label st = (?st1, s1)"
    by (rule session_create_succeeds [OF assms(3-6) r1])
  then have inv1: "ffi_inv (Suc (length cs)) ?st1"
    using ffi_step_inv [of L "Sframe_Api (SframeSessionCreate mh su label)" st ?st1 "VHandle s1"] inv assms(2)
    by (simp add: with_value_def)
  obtain r2 s2 where r2: "reg_insert (session_decryptor (lb_sframe L) s) r1 = (r2, s2)" by force
  let ?st2 = "?st1\<lparr>ff_error := [], ff_sessions := r2\<rparr>"
  have c2: "gbp_sframe_session_create L mh su label ?st1 = (?st2, s2)"
    by (rule session_create_succeeds [OF _ assms(4-6)]) (use assms(3) r2 in simp_all)
  have fresh: "reg_get (ff_sessions st) s1 = None" "reg_get r1 s2 = None"
    using reg_fits_insert(2) [OF _ _ r1, of "length cs"] reg_fits_insert(2) [OF _ _ r2, of "Suc (length cs)"]
      inv inv1 assms(2) by (simp_all add: ffi_inv_def)
  have s12: "s1 \<noteq> s2" using fresh(2) reg.get_after_insert [OF r1] by auto
  have live: "reg_get r2 s1 \<noteq> None" "reg_get r2 s2 \<noteq> None"
    using reg.get_insert [OF r2] reg.get_after_insert [OF r1] by auto
  have uncached: "ff_dedup st (s1, leaf) = None" "ff_dedup st (s2, leaf) = None"
    using inv fresh reg.get_insert [OF r1] s12 unfolding ffi_inv_def cells_ok_def by (metis)+
  obtain st3 h1 where c3: "gbp_sframe_encryptor_create L mh s1 leaf su label ?st2 = Some (st3, h1)"
    and cells3: "ff_cells st3 = ff_cells st @ [\<lparr>es_key = key, es_counter = sl_counter (lb_sframe L)\<rparr>]"
    and st3: "ff_dedup st3 = (ff_dedup st)((s1, leaf) \<mapsto> \<lparr>se_cell = length (ff_cells st), se_kid = kid_from (lb_sframe L) (ss_epoch s) leaf\<rparr>)"
      "ff_mls st3 = ff_mls st" "ff_sessions st3 = r2"
    and e3: "reg_insert \<lparr>se_cell = length (ff_cells st), se_kid = kid_from (lb_sframe L) (ss_epoch s) leaf\<rparr> (ff_encryptors st) = (ff_encryptors st3, h1)"
    using encryptor_create_succeeds [of ?st2 mh ctx su u label L s leaf key s1] assms(3-7) live(1) uncached(1) by auto
  obtain st4 h2 where c4: "gbp_sframe_encryptor_create L mh s2 leaf su label st3 = Some (st4, h2)"
    and cells4: "ff_cells st4 = ff_cells st3 @ [\<lparr>es_key = key, es_counter = sl_counter (lb_sframe L)\<rparr>]"
    and e4: "reg_insert \<lparr>se_cell = length (ff_cells st3), se_kid = kid_from (lb_sframe L) (ss_epoch s) leaf\<rparr> (ff_encryptors st3) = (ff_encryptors st4, h2)"
    using encryptor_create_succeeds [of st3 mh ctx su u label L s leaf key s2] assms(3-7) live(2) uncached(2) st3 s12 by auto
  have "h1 \<noteq> h2" using reg_insert_next [OF e3 e4] by simp
  then have "reg_get (ff_encryptors st4) h1 = Some \<lparr>se_cell = length (ff_cells st), se_kid = kid_from (lb_sframe L) (ss_epoch s) leaf\<rparr>"
    "reg_get (ff_encryptors st4) h2 = Some \<lparr>se_cell = length (ff_cells st3), se_kid = kid_from (lb_sframe L) (ss_epoch s) leaf\<rparr>"
    using reg.get_insert [OF e4] reg.get_after_insert [OF e3] by simp_all
  moreover have "ffi_run L [Sframe_Api (SframeSessionCreate mh su label), Sframe_Api (SframeSessionCreate mh su label),
        Sframe_Api (SframeEncryptorCreate mh s1 leaf su label), Sframe_Api (SframeEncryptorCreate mh s2 leaf su label)] st
        = Some (st4, [VHandle s1, VHandle s2, VHandle h1, VHandle h2])"
    using c1 c2 c3 c4 by (simp add: with_value_def)
  ultimately show ?thesis using cells3 cells4
    by (intro exI [of _ s1] exI [of _ s2] exI [of _ h1] exI [of _ h2] exI [of _ st4]) (fastforce simp: nth_append)
qed

subsection \<open>Concrete runs\<close>

text \<open>A process that creates an MLS context; the libraries are the instances of the lower layers.\<close>

type_synonym toy_state = "(nat \<times> bytes, bytes, nat, bytes, u64, u64, nat, (u64 \<times> u64) list) ffi_state"

definition toy_libs ::
    "(nat \<times> bytes, bytes, nat, bytes, bytes, bytes, bytes, u64, u64, nat, (u64 \<times> u64) list) ffi_libs" where
  "toy_libs =
     \<lparr>lb_om = toy_openmls, lb_aead = toy_aead, lb_frame = toy_frame_codec, lb_control = toy_control_codec,
      lb_error = \<lparr>into_writer = (\<lambda>e. [class_as_u8 Schema]), from_reader = (\<lambda>b. Inl ''none'')\<rparr>,
      lb_gtp = toy_gtp_codecs, lb_gap = toy_gap_codecs, lb_gsp = toy_gsp_codecs, lb_value = (\<lambda>b. Inl ''none''),
      lb_sframe = toy_sframe, lb_kp_ser = Inr, lb_kp_de = Inr, lb_kp_validate = Inr,
      lb_json_events = (\<lambda>es. Some (concat (map (\<lambda>_. ''{}'') es))), lb_json_gtp = (\<lambda>r. Some (filter (\<lambda>c. c \<noteq> CHR 0x00) (go_status r))),
      lb_json_gap = (\<lambda>r. Some (filter (\<lambda>c. c \<noteq> CHR 0x00) (po_status r))),
      lb_json_gsp = (\<lambda>r. Some (filter (\<lambda>c. c \<noteq> CHR 0x00) (so_status r)))\<rparr>"

lemma toy_libs_sel [simp]:
  "lb_sframe toy_libs = toy_sframe" "lb_om toy_libs = toy_openmls" "lb_frame toy_libs = toy_frame_codec"
  "lb_control toy_libs = toy_control_codec" "lb_aead toy_libs = toy_aead" "lb_gtp toy_libs = toy_gtp_codecs"
  by (simp_all add: toy_libs_def)

definition toy_start :: ffi_call where
  "toy_start = Mls_Api (MlsCreate [1] [2] [3] [4])"

lemma toy_start_run:
  "\<exists>st ctx. ffi_run toy_libs [toy_start] ffi_init = Some (st, [VHandle 1])
     \<and> reg_get (ff_mls st) 1 = Some ctx \<and> mls_group ctx = (0, [3]) \<and> ff_dedup st = Map.empty \<and> ff_sessions st = reg_new
     \<and> ff_encryptors st = reg_new \<and> ff_cells st = []"
  by (simp add: toy_start_def gbp_mls_create_def ffi_prims new_member_def toy_openmls_def fresh_provider_def
      reg_insert_def ffi_init_def reg_new_def reg_get_def)

lemma toy_session: "mls_group ctx = (0, [3]) \<Longrightarrow>
    \<exists>key. session_from_mls toy_openmls ctx label u = Inr (session_new key 0 u)"
  by (simp add: session_from_mls_def derive_base_key_def export_raw_def mls_epoch_def toy_openmls_def) blast

theorem sframe_sessions_share_nonces_witness:
  "\<exists>st us s1 s2 h1 h2 st' x1 x2.
      ffi_run toy_libs [toy_start] ffi_init = Some (st, us)
    \<and> ffi_run toy_libs [Sframe_Api (SframeSessionCreate 1 0 []), Sframe_Api (SframeSessionCreate 1 0 []),
        Sframe_Api (SframeEncryptorCreate 1 s1 3 0 []), Sframe_Api (SframeEncryptorCreate 1 s2 3 0 [])] st
        = Some (st', [VHandle s1, VHandle s2, VHandle h1, VHandle h2])
    \<and> reg_get (ff_encryptors st') h1 = Some x1 \<and> reg_get (ff_encryptors st') h2 = Some x2
    \<and> se_cell x1 \<noteq> se_cell x2 \<and> ff_cells st' ! se_cell x1 = ff_cells st' ! se_cell x2"
proof -
  obtain st ctx where st: "ffi_run toy_libs [toy_start] ffi_init = Some (st, [VHandle 1])"
    "reg_get (ff_mls st) 1 = Some ctx" "mls_group ctx = (0, [3])"
    using toy_start_run by blast
  obtain key where s: "session_from_mls (lb_om toy_libs) ctx (bytes_str []) Aes128Gcm = Inr (session_new key 0 Aes128Gcm :: (u64, nat) sframe_session)"
    using toy_session [OF st(3)] by auto
  have "sl_enc_key (lb_sframe toy_libs) (to_sframe Aes128Gcm) kid bk = Some kid" for kid bk
    by (simp add: toy_sframe_def)
  from sframe_sessions_share_nonces [OF st(1) _ st(2) _ _ s this] st(1) show ?thesis
    by (simp add: suite_from_u8_def) metis
qed

lemma encryptor_create_cached:
  assumes "suite_from_u8 su = Some u" "utf8_valid label" "reg_get (ff_sessions st) sh \<noteq> None"
    "ff_dedup st (sh, leaf) = Some x"
  shows "\<exists>st' h. gbp_sframe_encryptor_create L mh sh leaf su label st = Some (st', h) \<and> ff_error st' = []"
proof -
  have "utf8_error_at 0 label = None" using assms(2) by (simp add: utf8_error_at_None)
  then show ?thesis using assms by (auto simp: gbp_sframe_encryptor_create_def ffi_prims split: prod.split)
qed

theorem sframe_handle_reconnects_witness:
  "\<exists>st us x st1 vs st2 h.
      ffi_run toy_libs [toy_start, Sframe_Api (SframeSessionCreate 1 0 []), Sframe_Api (SframeEncryptorCreate 1 1 3 0 [])] ffi_init
        = Some (st, us)
    \<and> ff_dedup st (1, 3) = Some x \<and> ffi_run toy_libs [Sframe_Api (SframeEncryptorFree 1)] st = Some (st1, vs)
    \<and> gbp_sframe_encryptor_create toy_libs 1 1 3 0 [] st1 = Some (st2, h)
    \<and> reg_get (ff_encryptors st2) h = Some x \<and> ff_cells st2 = ff_cells st1"
proof -
  obtain st0 ctx where st: "ffi_run toy_libs [toy_start] ffi_init = Some (st0, [VHandle 1])"
    "reg_get (ff_mls st0) 1 = Some ctx" "mls_group ctx = (0, [3])" "ff_dedup st0 = Map.empty" "ff_sessions st0 = reg_new"
    using toy_start_run by blast
  obtain key where s: "session_from_mls (lb_om toy_libs) ctx (bytes_str []) Aes128Gcm = Inr (session_new key 0 Aes128Gcm :: (u64, nat) sframe_session)"
    using toy_session [OF st(3)] by auto
  have key: "sl_enc_key (lb_sframe toy_libs) (to_sframe Aes128Gcm) kid bk = Some kid" for kid bk
    by (simp add: toy_sframe_def)
  have su: "suite_from_u8 0 = Some Aes128Gcm" by (simp add: suite_from_u8_def)
  obtain r where r: "reg_insert (session_decryptor (lb_sframe toy_libs) (session_new key 0 Aes128Gcm :: (u64, nat) sframe_session)) (ff_sessions st0) = (r, 1)"
    by (simp add: st(5) reg_insert_def reg_new_def)
  let ?st = "st0\<lparr>ff_error := [], ff_sessions := r\<rparr>"
  have c1: "gbp_sframe_session_create toy_libs 1 0 [] st0 = (?st, 1)"
    by (rule session_create_succeeds [OF st(2) su _ s r]) simp
  obtain st3 h3 where c2: "gbp_sframe_encryptor_create toy_libs 1 1 3 0 [] ?st = Some (st3, h3)"
    and st3: "ff_dedup st3 = (ff_dedup ?st)((1, 3) \<mapsto> \<lparr>se_cell = length (ff_cells ?st),
      se_kid = kid_from (lb_sframe toy_libs) (ss_epoch (session_new key 0 Aes128Gcm :: (u64, nat) sframe_session)) 3\<rparr>)" "ff_sessions st3 = r"
    using encryptor_create_succeeds [where st = ?st and leaf = 3 and sh = 1 and mh = 1, OF _ su _ s key] st(2,4)
      reg.get_after_insert [OF r] by auto
  have run: "ffi_run toy_libs [toy_start, Sframe_Api (SframeSessionCreate 1 0 []), Sframe_Api (SframeEncryptorCreate 1 1 3 0 [])] ffi_init
      = Some (st3, [VHandle 1, VHandle 1, VHandle h3])"
    using st(1) c1 c2 by (auto simp: with_value_def split: option.splits)
  let ?st4 = "gbp_sframe_encryptor_free 1 st3"
  have free: "ffi_run toy_libs [Sframe_Api (SframeEncryptorFree 1)] st3 = Some (?st4, [VUnit])" by simp
  have "reg_get (ff_sessions ?st4) 1 \<noteq> None" "ff_dedup ?st4 (1, 3) = ff_dedup st3 (1, 3)"
    using st3(2) reg.get_after_insert [OF r] by (simp_all add: gbp_sframe_encryptor_free_def)
  then obtain st5 h5 where c5: "gbp_sframe_encryptor_create toy_libs 1 1 3 0 [] ?st4 = Some (st5, h5)" "ff_error st5 = []"
    using encryptor_create_cached [OF su, of "[]" ?st4 1 3] st3(1) by fastforce
  have "counter_ok (lb_sframe toy_libs) id" by simp
  from sframe_handle_reconnects [OF this run _ free _ c5] st3(1) run free c5(1) show ?thesis by fastforce
qed

end
