(* ===== verification/Ffi_Locks.thy ===== *)
theory Ffi_Locks
  imports Lock_Order Ffi_Sframe
begin

section \<open>The C interface on several threads\<close>

text \<open>
  The exported functions may be called from several threads. Every registry is a map behind a mutex, and every object
  in it is behind a mutex of its own; the key package bundles, the cache of encryptors and the shared state of an
  encryptor have one each. The lock inside the key-value store of an MLS context is left out: it is taken and given back
  within single statements under which no other lock is taken. This theory holds what each function does with these mutexes, and two results: however
  the threads interleave they never deadlock, and the creation of an encryptor is not atomic.
\<close>

subsection \<open>The mutexes\<close>

datatype family = FMls | FNodes | FGtps | FGaps | FGsps | FSessions | FEncryptors

datatype mutex =
    MapOf family
  | Bundles
  | Dedup
  | Obj family i32
  | Cell nat

text \<open>
  What decides how far a call gets: whether its arguments are valid, which registries know the handle
  it asks for, whether the operation proper succeeds, whether an encryptor is cached and which cell it has.
\<close>

record outcome =
  oc_valid :: bool
  oc_found :: "family \<Rightarrow> bool"
  oc_ok :: bool
  oc_cached :: bool
  oc_cell :: nat

text \<open>\<^verbatim>\<open>insert\<close>, \<^verbatim>\<open>remove\<close> and \<^verbatim>\<open>get\<close> of a registry lock the map for one statement; a guard is dropped at the end of its scope.\<close>

definition reg_access :: "family \<Rightarrow> mutex lock_op list" where
  "reg_access f = [Acquire (MapOf f), Release (MapOf f)]"

definition holding :: "mutex \<Rightarrow> mutex lock_op list \<Rightarrow> mutex lock_op list" where
  "holding l ops = Acquire l # ops @ [Release l]"

definition on_object :: "outcome \<Rightarrow> family \<Rightarrow> i32 \<Rightarrow> mutex lock_op list" where
  "on_object oc f h = reg_access f @ (if oc_found oc f then holding (Obj f h) [] else [])"

subsection \<open>What each function locks\<close>

fun util_locks :: "outcome \<Rightarrow> util_call \<Rightarrow> mutex lock_op list" where
  "util_locks oc c = []"

primrec mls_locks :: "outcome \<Rightarrow> mls_call \<Rightarrow> mutex lock_op list" where
  "mls_locks oc (MlsCreate r1 r2 r3 ident) = (if oc_ok oc then reg_access FMls @ holding Bundles [] else [])"
| "mls_locks oc (MlsDestroy h) = reg_access FMls @ holding Bundles []"
| "mls_locks oc (MlsEpoch h) = on_object oc FMls h"
| "mls_locks oc (MlsGroupId h) = on_object oc FMls h"
| "mls_locks oc (MlsExportKeyPackage h) = holding Bundles []"
| "mls_locks oc (MlsInvite r h kp) = on_object oc FMls h"
| "mls_locks oc (MlsInviteFull r h kp) = on_object oc FMls h"
| "mls_locks oc (MlsRemove r h leaf) = on_object oc FMls h"
| "mls_locks oc (MlsProcessMessage h msg) = on_object oc FMls h"
| "mls_locks oc (MlsFinalizeCommit h) = on_object oc FMls h"
| "mls_locks oc (MlsClearPendingCommit h) = on_object oc FMls h"
| "mls_locks oc (MlsAcceptWelcome h w) = on_object oc FMls h"
| "mls_locks oc (MlsExportState es h) = on_object oc FMls h"
| "mls_locks oc (MlsRestoreState blob) = (if oc_ok oc then reg_access FMls else [])"

definition node_and_mls :: "outcome \<Rightarrow> i32 \<Rightarrow> i32 \<Rightarrow> mutex lock_op list" where
  "node_and_mls oc nh mh = reg_access FNodes @ reg_access FMls
     @ (if oc_found oc FNodes \<and> oc_found oc FMls then holding (Obj FNodes nh) (holding (Obj FMls mh) []) else [])"

primrec node_locks :: "outcome \<Rightarrow> node_call \<Rightarrow> mutex lock_op list" where
  "node_locks oc (NodeCreate mid gid) = reg_access FNodes"
| "node_locks oc (NodeDestroy h) = reg_access FNodes"
| "node_locks oc (NodeBootstrapCreator h e) = on_object oc FNodes h"
| "node_locks oc (NodeBootstrapJoiner h e t) = on_object oc FNodes h"
| "node_locks oc (NodeState h) = on_object oc FNodes h"
| "node_locks oc (NodeEpoch h) = on_object oc FNodes h"
| "node_locks oc (NodeLastTransitionId h) = on_object oc FNodes h"
| "node_locks oc (NodeSetEpoch h e) = on_object oc FNodes h"
| "node_locks oc (NodeApplyTransition h t) = on_object oc FNodes h"
| "node_locks oc (NodeSendControl now nh mh target opc t rid args) = (if oc_valid oc then node_and_mls oc nh mh else [])"
| "node_locks oc (NodeOnWire now nh mh wire) = node_and_mls oc nh mh"
| "node_locks oc (NodeDrainEvents nh) = on_object oc FNodes nh"

text \<open>The sending functions of the three clients look up client, node and context, then lock them in this order.\<close>

definition client_send_locks :: "outcome \<Rightarrow> family \<Rightarrow> i32 \<Rightarrow> i32 \<Rightarrow> i32 \<Rightarrow> mutex lock_op list" where
  "client_send_locks oc f ch nh mh = reg_access f @ reg_access FNodes @ reg_access FMls
     @ (if oc_found oc f \<and> oc_found oc FNodes \<and> oc_found oc FMls
        then holding (Obj f ch) (holding (Obj FNodes nh) (holding (Obj FMls mh) [])) else [])"

primrec gtp_locks :: "outcome \<Rightarrow> gtp_call \<Rightarrow> mutex lock_op list" where
  "gtp_locks oc GtpCreate = reg_access FGtps"
| "gtp_locks oc (GtpDestroy h) = reg_access FGtps"
| "gtp_locks oc (GtpReset h) = on_object oc FGtps h"
| "gtp_locks oc (GtpSend ch nh mh target mid text codec) =
     (if oc_valid oc then client_send_locks oc FGtps ch nh mh else [])"
| "gtp_locks oc (GtpAccept ch e pt codec) = on_object oc FGtps ch"

primrec gap_locks :: "outcome \<Rightarrow> gap_call \<Rightarrow> mutex lock_op list" where
  "gap_locks oc GapCreate = reg_access FGaps"
| "gap_locks oc (GapDestroy h) = reg_access FGaps"
| "gap_locks oc (GapReset h) = on_object oc FGaps h"
| "gap_locks oc (GapSend now ch nh mh target src ts opus codec) = client_send_locks oc FGaps ch nh mh"
| "gap_locks oc (GapAccept now ch e pt codec) = on_object oc FGaps ch"

primrec gsp_locks :: "outcome \<Rightarrow> gsp_call \<Rightarrow> mutex lock_op list" where
  "gsp_locks oc GspCreate = reg_access FGsps"
| "gsp_locks oc (GspDestroy h) = reg_access FGsps"
| "gsp_locks oc (GspReset h) = on_object oc FGsps h"
| "gsp_locks oc (GspSend ch nh mh target sig role rid codec) =
     (if oc_valid oc then client_send_locks oc FGsps ch nh mh else [])"
| "gsp_locks oc (GspSendWithArgs ch nh mh target sig role rid args codec) =
     (if oc_valid oc then client_send_locks oc FGsps ch nh mh else [])"
| "gsp_locks oc (GspAccept ch e pt codec) = on_object oc FGsps ch"

text \<open>
  The creation of a session inserts it while the MLS context is locked. The creation of an encryptor looks into the
  cache first; when it finds one, the guard of the cache is still there while the handle is inserted; otherwise it
  is dropped, and taken a second time under the lock of the MLS context.
\<close>

primrec sframe_locks :: "outcome \<Rightarrow> sframe_call \<Rightarrow> mutex lock_op list" where
  "sframe_locks oc (SframeSessionCreate mh suite label) =
     (if \<not> oc_valid oc then []
      else reg_access FMls @ (if \<not> oc_found oc FMls then []
        else holding (Obj FMls mh) (if oc_ok oc then reg_access FSessions else [])))"
| "sframe_locks oc (SframeSessionFree h) = reg_access FSessions @ holding Dedup []"
| "sframe_locks oc (SframeEncryptorCreate mh sh leaf suite label) =
     (if \<not> oc_valid oc then []
      else reg_access FSessions @ (if \<not> oc_found oc FSessions then []
        else if oc_cached oc then holding Dedup (reg_access FEncryptors)
        else holding Dedup [] @ reg_access FMls @ (if \<not> oc_found oc FMls then []
          else holding (Obj FMls mh) (if oc_ok oc then holding Dedup [] @ reg_access FEncryptors else []))))"
| "sframe_locks oc (SframeEncryptorFree h) = reg_access FEncryptors"
| "sframe_locks oc (SframeEncrypt h pt aad) =
     reg_access FEncryptors @ (if oc_found oc FEncryptors then holding (Obj FEncryptors h) (holding (Cell (oc_cell oc)) []) else [])"
| "sframe_locks oc (SframeDecrypt sh payload aad) = on_object oc FSessions sh"

primrec ffi_locks :: "outcome \<Rightarrow> ffi_call \<Rightarrow> mutex lock_op list" where
  "ffi_locks oc (Util c) = util_locks oc c"
| "ffi_locks oc (Mls_Api c) = mls_locks oc c"
| "ffi_locks oc (Node_Api c) = node_locks oc c"
| "ffi_locks oc (Gtp_Api c) = gtp_locks oc c"
| "ffi_locks oc (Gap_Api c) = gap_locks oc c"
| "ffi_locks oc (Gsp_Api c) = gsp_locks oc c"
| "ffi_locks oc (Sframe_Api c) = sframe_locks oc c"

subsection \<open>No deadlock\<close>

text \<open>Clients before nodes before MLS contexts before the cache before the registries.\<close>

fun obj_rank :: "family \<Rightarrow> nat" where
  "obj_rank FNodes = 1"
| "obj_rank FMls = 2"
| "obj_rank _ = 0"

fun mutex_rank :: "mutex \<Rightarrow> nat" where
  "mutex_rank (Obj f h) = obj_rank f"
| "mutex_rank Dedup = 3"
| "mutex_rank (Cell k) = 3"
| "mutex_rank (MapOf f) = 4"
| "mutex_rank Bundles = 4"

lemmas lock_shapes = reg_access_def holding_def on_object_def node_and_mls_def client_send_locks_def balanced_def

lemma sframe_locks_balanced: "balanced mutex_rank (sframe_locks oc c)"
  by (cases c) (simp_all add: lock_shapes)

lemma gtp_locks_balanced: "balanced mutex_rank (gtp_locks oc c)"
  by (cases c) (simp_all add: lock_shapes)

lemma gap_locks_balanced: "balanced mutex_rank (gap_locks oc c)"
  by (cases c) (simp_all add: lock_shapes)

lemma gsp_locks_balanced: "balanced mutex_rank (gsp_locks oc c)"
  by (cases c) (simp_all add: lock_shapes)

lemma mls_locks_balanced: "balanced mutex_rank (mls_locks oc c)"
  by (cases c) (simp_all add: lock_shapes)

lemma node_locks_balanced: "balanced mutex_rank (node_locks oc c)"
  by (cases c) (simp_all add: lock_shapes)

lemmas call_locks_balanced = sframe_locks_balanced gtp_locks_balanced gap_locks_balanced gsp_locks_balanced
  mls_locks_balanced node_locks_balanced

interpretation ffi_scripts: ordered_scripts mutex_rank ffi_locks
proof
  fix oc c show "balanced mutex_rank (ffi_locks oc c)"
    by (cases c) (simp_all add: call_locks_balanced balanced_def [of _ "[]"])
qed

text \<open>
  C9. Threads that call the C interface never deadlock. Take any number of threads, each of which makes any sequence of
  calls with whatever handles and outcomes, also on the same objects, under any scheduling: the number of lock
  operations is bounded by those of the programs, and when no thread can go on, all have finished all their
  calls and every mutex is free again.
\<close>

theorem ffi_no_deadlock:
  assumes "scheds n (start (map (program ffi_locks) threads)) s"
  shows "n \<le> sum_list (map (length \<circ> program ffi_locks) threads)
    \<and> ((\<forall>s'. \<not> sched s s') \<longrightarrow> (\<forall>p\<in>set (todo s). p = []) \<and> owner s = Map.empty)"
  using ffi_scripts.steps_bounded [OF assms] ffi_scripts.never_deadlocked [OF assms] by blast

text \<open>Two threads that create an encryptor for one session and leaf, one of which finds it in the cache, after a first step.\<close>

theorem ffi_no_deadlock_witness:
  "\<exists>n s. scheds n (start (map (program ffi_locks)
        [[(\<lparr>oc_valid = True, oc_found = (\<lambda>_. True), oc_ok = True, oc_cached = False, oc_cell = 0\<rparr>,
           Sframe_Api (SframeEncryptorCreate 1 2 3 0 []))],
         [(\<lparr>oc_valid = True, oc_found = (\<lambda>_. True), oc_ok = True, oc_cached = True, oc_cell = 0\<rparr>,
           Sframe_Api (SframeEncryptorCreate 1 2 3 0 []))]])) s
    \<and> 0 < n \<and> n \<le> 18 \<and> ((\<forall>s'. \<not> sched s s') \<longrightarrow> (\<forall>p\<in>set (todo s). p = []) \<and> owner s = Map.empty)"
proof -
  let ?p = "start (map (program ffi_locks)
        [[(\<lparr>oc_valid = True, oc_found = (\<lambda>_. True), oc_ok = True, oc_cached = False, oc_cell = 0\<rparr>,
           Sframe_Api (SframeEncryptorCreate 1 2 3 0 []))],
         [(\<lparr>oc_valid = True, oc_found = (\<lambda>_. True), oc_ok = True, oc_cached = True, oc_cell = 0\<rparr>,
           Sframe_Api (SframeEncryptorCreate 1 2 3 0 []))]])"
  have "sched ?p (?p\<lparr>owner := (owner ?p)(MapOf FSessions \<mapsto> 0), todo := (todo ?p)[0 := tl (todo ?p ! 0)]\<rparr>)"
    by (rule sched.acquire) (simp_all add: start_def program_def lock_shapes)
  from more [OF none this] obtain s where s: "scheds (Suc 0) ?p s" by blast
  show ?thesis using ffi_no_deadlock [OF s] s
    by (intro exI [of _ "Suc 0"] exI [of _ s]) (simp add: program_def lock_shapes)
qed

subsection \<open>The creation of an encryptor is not atomic\<close>

text \<open>
  \<^verbatim>\<open>gbp_sframe_encryptor_create\<close> in the two parts between which it holds no mutex. The first ends with the look
  into the cache: a handle (0 on an error) is returned, or the suite with which the second goes on. The
  second looks up the MLS context, derives the session and stores a fresh encryptor in the cache. The error slot is
  one per thread in the code; nothing below depends on it.
\<close>

definition encryptor_lookup where
  "encryptor_lookup sh leaf suite label st =
     (let st1 = clear_last_error st in
      case suite_from_u8 suite of None \<Rightarrow> (set_last_error (''unknown ciphersuite '' @ dec_word suite) st1, Inl 0)
      | Some su \<Rightarrow>
      (case utf8_error_at 0 label of Some e \<Rightarrow> (set_last_error (utf8_error_display e) st1, Inl 0)
       | None \<Rightarrow>
       (if reg_get (ff_sessions st1) sh = None then (set_last_error ''invalid session handle'' st1, Inl 0)
        else case ff_dedup st1 (sh, leaf) of
          Some existing \<Rightarrow>
            (case reg_insert existing (ff_encryptors st1) of (rg, h) \<Rightarrow> (st1\<lparr>ff_encryptors := rg\<rparr>, Inl h))
        | None \<Rightarrow> (st1, Inr su))))"

definition encryptor_install where
  "encryptor_install L mh sh leaf su label st =
     (case reg_get (ff_mls st) mh of None \<Rightarrow> Some (set_last_error ''invalid MLS handle'' st, 0)
      | Some ctx \<Rightarrow>
        (case session_from_mls (lb_om L) ctx (bytes_str label) su of
           Inl e \<Rightarrow> Some (set_last_error (sframe_error_display e) st, 0)
         | Inr session \<Rightarrow>
           (case session_encryptor (lb_sframe L) leaf (session\<lparr>ss_cells := ff_cells st\<rparr>) of None \<Rightarrow> None
            | Some (session', encryptor) \<Rightarrow>
              (case reg_insert encryptor (ff_encryptors st) of (rg, h) \<Rightarrow>
                 Some (st\<lparr>ff_cells := ss_cells session', ff_encryptors := rg,
                          ff_dedup := (ff_dedup st)((sh, leaf) \<mapsto> encryptor)\<rparr>, h)))))"

text \<open>Where a thread is in its call, and one turn of thread \<open>i\<close>; a thread that has returned does nothing more.\<close>

datatype phase = Called | Missed cipher_suite | Returned i32

definition create_turn where
  "create_turn L mh sh leaf suite label i = (\<lambda>(st, ps).
     case ps ! i of
       Called \<Rightarrow>
         (case encryptor_lookup sh leaf suite label st of
            (st1, Inl h) \<Rightarrow> Some (st1, ps[i := Returned h])
          | (st1, Inr su) \<Rightarrow> Some (st1, ps[i := Missed su]))
     | Missed su \<Rightarrow> map_option (\<lambda>(st1, h). (st1, ps[i := Returned h])) (encryptor_install L mh sh leaf su label st)
     | Returned h \<Rightarrow> Some (st, ps))"

fun create_turns where
  "create_turns L mh sh leaf suite label [] s = Some s"
| "create_turns L mh sh leaf suite label (i # turns) s =
     Option.bind (create_turn L mh sh leaf suite label i s) (create_turns L mh sh leaf suite label turns)"

lemma encryptor_create_split:
  "gbp_sframe_encryptor_create L mh sh leaf suite label st =
     (case encryptor_lookup sh leaf suite label st of
        (st1, Inl h) \<Rightarrow> Some (st1, h)
      | (st1, Inr su) \<Rightarrow> encryptor_install L mh sh leaf su label st1)"
  by (auto simp: gbp_sframe_encryptor_create_def encryptor_lookup_def encryptor_install_def Let_def
      split: option.splits prod.splits)

lemma create_alone:
  assumes "gbp_sframe_encryptor_create L mh sh leaf suite label st = Some (st', h)" "ps ! i = Called" "i < length ps"
  shows "create_turns L mh sh leaf suite label [i, i] (st, ps) = Some (st', ps[i := Returned h])"
  using assms by (auto simp: encryptor_create_split create_turn_def split: sum.splits prod.splits)

lemma lookup_misses:
  assumes "suite_from_u8 su = Some u" "utf8_valid label" "reg_get (ff_sessions st) sh \<noteq> None" "ff_dedup st (sh, leaf) = None"
  shows "encryptor_lookup sh leaf su label st = (st\<lparr>ff_error := []\<rparr>, Inr u)"
proof -
  have "utf8_error_at 0 label = None" using assms(2) by (simp add: utf8_error_at_None)
  then show ?thesis using assms by (simp add: encryptor_lookup_def ffi_prims)
qed

lemma install_succeeds:
  fixes L :: "('g, 'sg, 'st, 'kp, 'm, 'w, 'ki, 'k, 'd, 'c, 'r) ffi_libs" and s :: "('k, 'c) sframe_session"
  assumes "reg_get (ff_mls st) mh = Some ctx" "session_from_mls (lb_om L) ctx (bytes_str label) u = Inr s"
    "sl_enc_key (lb_sframe L) (to_sframe u) (kid_from (lb_sframe L) (ss_epoch s) leaf) (ss_base_key s) = Some key"
  defines "x \<equiv> \<lparr>se_cell = length (ff_cells st), se_kid = kid_from (lb_sframe L) (ss_epoch s) leaf\<rparr>"
  shows "\<exists>r h. encryptor_install L mh sh leaf u label st = Some (st\<lparr>
        ff_cells := ff_cells st @ [\<lparr>es_key = key, es_counter = sl_counter (lb_sframe L)\<rparr>], ff_encryptors := r,
        ff_dedup := (ff_dedup st)((sh, leaf) \<mapsto> x)\<rparr>, h) \<and> reg_insert x (ff_encryptors st) = (r, h)"
proof -
  have "ss_encryptors s = Map.empty" "ss_suite s = u"
    using assms(2) by (auto simp: session_from_mls_def session_new_def Let_def split: sum.splits)
  moreover obtain r h where "reg_insert x (ff_encryptors st) = (r, h)" by force
  ultimately show ?thesis
    using assms(1-3) unfolding x_def
    by (simp add: encryptor_install_def session_encryptor_def encryptor_new_def Let_def)
qed

text \<open>
  C38. Two threads that create an encryptor for the same session and leaf can end up with two counters. Take a state
  with a live session that has no encryptor for the leaf yet, and an MLS context that can export its key.
  When one thread finishes before the other begins, both handles are of the same cell. When both look into
  the cache before either has stored its encryptor, the handles are of two cells that hold the same
  key and the same initial counter under the same key id, so the \<open>n\<close>-th frame of each is encrypted under one
  key and one nonce.
\<close>

theorem encryptor_create_race:
  fixes L :: "('g, 'sg, 'st, 'kp, 'm, 'w, 'ki, 'k, 'd, 'c, 'r) ffi_libs" and s :: "('k, 'c) sframe_session"
  assumes "reg_get (ff_sessions st) sh \<noteq> None" and "ff_dedup st (sh, leaf) = None"
    and "reg_get (ff_mls st) mh = Some ctx" and "suite_from_u8 su = Some u" and "utf8_valid label"
    and "session_from_mls (lb_om L) ctx (bytes_str label) u = Inr s"
    and "sl_enc_key (lb_sframe L) (to_sframe u) (kid_from (lb_sframe L) (ss_epoch s) leaf) (ss_base_key s) = Some key"
  shows "(\<exists>st' h1 h2 x. create_turns L mh sh leaf su label [0, 0, 1, 1] (st, [Called, Called]) = Some (st', [Returned h1, Returned h2])
      \<and> h1 \<noteq> h2 \<and> reg_get (ff_encryptors st') h1 = Some x \<and> reg_get (ff_encryptors st') h2 = Some x)
    \<and> (\<exists>st' h1 h2 x1 x2. create_turns L mh sh leaf su label [0, 1, 0, 1] (st, [Called, Called]) = Some (st', [Returned h1, Returned h2])
      \<and> h1 \<noteq> h2 \<and> reg_get (ff_encryptors st') h1 = Some x1 \<and> reg_get (ff_encryptors st') h2 = Some x2
      \<and> se_cell x1 \<noteq> se_cell x2 \<and> se_kid x1 = se_kid x2
      \<and> ff_cells st' ! se_cell x1 = \<lparr>es_key = key, es_counter = sl_counter (lb_sframe L)\<rparr>
      \<and> ff_cells st' ! se_cell x2 = \<lparr>es_key = key, es_counter = sl_counter (lb_sframe L)\<rparr>)"
proof
  let ?kid = "kid_from (lb_sframe L) (ss_epoch s) leaf"
  let ?cell = "\<lparr>es_key = key, es_counter = sl_counter (lb_sframe L)\<rparr>"
  let ?st0 = "st\<lparr>ff_error := []\<rparr>"
  let ?x1 = "\<lparr>se_cell = length (ff_cells st), se_kid = ?kid\<rparr>"
  have miss: "encryptor_lookup sh leaf su label st = (?st0, Inr u)" "encryptor_lookup sh leaf su label ?st0 = (?st0, Inr u)"
    using lookup_misses [OF assms(4,5,1,2)] lookup_misses [OF assms(4,5), of ?st0 sh leaf] assms(1,2) by simp_all
  obtain r1 h1 where i1: "encryptor_install L mh sh leaf u label ?st0 =
      Some (?st0\<lparr>ff_cells := ff_cells st @ [?cell], ff_encryptors := r1, ff_dedup := (ff_dedup st)((sh, leaf) \<mapsto> ?x1)\<rparr>, h1)"
    and e1: "reg_insert ?x1 (ff_encryptors st) = (r1, h1)"
    using install_succeeds [of ?st0 mh ctx L label u s leaf key sh] assms(3,6,7) by auto
  let ?st1 = "?st0\<lparr>ff_cells := ff_cells st @ [?cell], ff_encryptors := r1, ff_dedup := (ff_dedup st)((sh, leaf) \<mapsto> ?x1)\<rparr>"
  {
    obtain r2 h2 where e2: "reg_insert ?x1 r1 = (r2, h2)" by force
    have "utf8_error_at 0 label = None" using assms(5) by (simp add: utf8_error_at_None)
    then have "encryptor_lookup sh leaf su label ?st1 = (?st1\<lparr>ff_encryptors := r2\<rparr>, Inl h2)"
      using assms(1,4) e2 by (auto simp: encryptor_lookup_def ffi_prims)
    then have "create_turns L mh sh leaf su label [0, 0, 1, 1] (st, [Called, Called])
        = Some (?st1\<lparr>ff_encryptors := r2\<rparr>, [Returned h1, Returned h2])"
      using miss i1 by (simp add: create_turn_def)
    then show "\<exists>st' h1 h2 x. create_turns L mh sh leaf su label [0, 0, 1, 1] (st, [Called, Called]) = Some (st', [Returned h1, Returned h2])
      \<and> h1 \<noteq> h2 \<and> reg_get (ff_encryptors st') h1 = Some x \<and> reg_get (ff_encryptors st') h2 = Some x"
      using reg.get_insert [OF e2] reg.get_after_insert [OF e1] reg_insert_next [OF e1 e2] by force
  }
  let ?x2 = "\<lparr>se_cell = Suc (length (ff_cells st)), se_kid = ?kid\<rparr>"
  obtain r2 h2 where i2: "encryptor_install L mh sh leaf u label ?st1 =
      Some (?st1\<lparr>ff_cells := (ff_cells st @ [?cell]) @ [?cell], ff_encryptors := r2, ff_dedup := (ff_dedup st)((sh, leaf) \<mapsto> ?x2)\<rparr>, h2)"
    and e2: "reg_insert ?x2 r1 = (r2, h2)"
    using install_succeeds [of ?st1 mh ctx L label u s leaf key sh] assms(3,6,7) by auto
  let ?st2 = "?st1\<lparr>ff_cells := (ff_cells st @ [?cell]) @ [?cell], ff_encryptors := r2, ff_dedup := (ff_dedup st)((sh, leaf) \<mapsto> ?x2)\<rparr>"
  have h: "h1 \<noteq> h2" "reg_get r2 h1 = Some ?x1" "reg_get r2 h2 = Some ?x2"
    using reg.get_insert [OF e2] reg.get_after_insert [OF e1] reg_insert_next [OF e1 e2] by simp_all
  have "create_turns L mh sh leaf su label [0, 1, 0, 1] (st, [Called, Called]) = Some (?st2, [Returned h1, Returned h2])"
    using miss i1 i2 by (simp add: create_turn_def)
  then show "\<exists>st' h1 h2 x1 x2. create_turns L mh sh leaf su label [0, 1, 0, 1] (st, [Called, Called]) = Some (st', [Returned h1, Returned h2])
      \<and> h1 \<noteq> h2 \<and> reg_get (ff_encryptors st') h1 = Some x1 \<and> reg_get (ff_encryptors st') h2 = Some x2
      \<and> se_cell x1 \<noteq> se_cell x2 \<and> se_kid x1 = se_kid x2
      \<and> ff_cells st' ! se_cell x1 = ?cell \<and> ff_cells st' ! se_cell x2 = ?cell"
    using h by (intro exI [of _ ?st2] exI [of _ h1] exI [of _ h2] exI [of _ ?x1] exI [of _ ?x2]) (simp add: nth_append)
qed

theorem encryptor_create_race_witness:
  "\<exists>st st' h1 h2 x1 x2.
      ffi_run toy_libs [toy_start, Sframe_Api (SframeSessionCreate 1 0 [])] ffi_init = Some (st, [VHandle 1, VHandle 1])
    \<and> create_turns toy_libs 1 1 3 0 [] [0, 1, 0, 1] (st, [Called, Called]) = Some (st', [Returned h1, Returned h2])
    \<and> reg_get (ff_encryptors st') h1 = Some x1 \<and> reg_get (ff_encryptors st') h2 = Some x2
    \<and> se_cell x1 \<noteq> se_cell x2 \<and> ff_cells st' ! se_cell x1 = ff_cells st' ! se_cell x2"
proof -
  obtain st0 ctx where st: "ffi_run toy_libs [toy_start] ffi_init = Some (st0, [VHandle 1])"
    "reg_get (ff_mls st0) 1 = Some ctx" "mls_group ctx = (0, [3])" "ff_dedup st0 = Map.empty" "ff_sessions st0 = reg_new"
    using toy_start_run by blast
  obtain key where s: "session_from_mls (lb_om toy_libs) ctx (bytes_str []) Aes128Gcm = Inr (session_new key 0 Aes128Gcm :: (u64, nat) sframe_session)"
    using toy_session [OF st(3)] by auto
  have key: "sl_enc_key (lb_sframe toy_libs) (to_sframe Aes128Gcm) kid bk = Some kid" for kid bk
    by (simp add: toy_sframe_def)
  have su: "suite_from_u8 0 = Some Aes128Gcm" by (simp add: suite_from_u8_def)
  obtain r where r: "reg_insert (session_decryptor (lb_sframe toy_libs) (session_new key 0 Aes128Gcm :: (u64, nat) sframe_session)) (ff_sessions st0) = (r, 1)"
    by (simp add: st(5) reg_insert_def reg_new_def)
  let ?st = "st0\<lparr>ff_error := [], ff_sessions := r\<rparr>"
  have "gbp_sframe_session_create toy_libs 1 0 [] st0 = (?st, 1)"
    by (rule session_create_succeeds [OF st(2) su _ s r]) simp
  then have run: "ffi_run toy_libs [toy_start, Sframe_Api (SframeSessionCreate 1 0 [])] ffi_init = Some (?st, [VHandle 1, VHandle 1])"
    using st(1) by (auto simp: with_value_def split: option.splits)
  from encryptor_create_race [where st = ?st and sh = 1 and leaf = 3 and mh = 1, OF _ _ _ su _ s key] run show ?thesis
    using st(2,4) reg.get_after_insert [OF r] by (simp; metis)
qed

end
