(* ===== verification/Ffi_Nonces.thy ===== *)
theory Ffi_Nonces
  imports Ffi_Sframe
begin

section \<open>Counters of the media frames of a C process\<close>

text \<open>
  What the cache of encryptors is for, from the caller's side: whatever handles are created for a leaf of a
  session, released and created again, no two frames that the caller gets for that leaf and session carry the
  same counter. The frames are the bytes in the buffers that are returned, and the counters those of their headers.
\<close>

subsection \<open>What the caller sees\<close>

text \<open>The caller knows for which session and leaf it asked for a handle, and finds the counter in the header of a frame.\<close>

fun asked_for :: "ffi_call \<Rightarrow> ffi_value \<Rightarrow> (i32 \<rightharpoonup> i32 \<times> u32) \<Rightarrow> i32 \<rightharpoonup> i32 \<times> u32" where
  "asked_for (Sframe_Api (SframeEncryptorCreate mh sh leaf su label)) (VHandle h) own = own(h \<mapsto> (sh, leaf))"
| "asked_for _ _ own = own"

fun frame_of where
  "frame_of L (Sframe_Api (SframeEncrypt h pt aad)) (VBuf b) own st =
     (if b = buffer_empty then []
      else [(own h, case read_buffer (ff_mem st) b of None \<Rightarrow> None
              | Some out \<Rightarrow> (case sl_parse (lb_sframe L) out aad of Inl _ \<Rightarrow> None | Inr (kid, ctr) \<Rightarrow> Some ctr))])"
| "frame_of L _ _ own st = []"

fun frames_sent where
  "frames_sent L [] own st = []"
| "frames_sent L (c # cs) own st =
     (case ffi_step L c st of None \<Rightarrow> []
      | Some (st1, v) \<Rightarrow> frame_of L c v own st1 @ frames_sent L cs (asked_for c v own) st1)"

subsection \<open>Which cell belongs to which leaf\<close>

text \<open>The cell of a session and leaf is the one of the first handle; it never changes, also after the session is freed.\<close>

fun cell_of where
  "cell_of (Sframe_Api (SframeEncryptorCreate mh sh leaf su label)) (VHandle h) st born =
     (case reg_get (ff_encryptors st) h of None \<Rightarrow> born | Some x \<Rightarrow> born((sh, leaf) \<mapsto> se_cell x))"
| "cell_of _ _ st born = born"

definition derived where
  "derived L st \<longleftrightarrow> (\<forall>c\<in>set (ff_cells st). \<exists>su kid b. sl_enc_key (lb_sframe L) su kid b = Some (es_key c))"

definition owned :: "(i32 \<rightharpoonup> i32 \<times> u32) \<Rightarrow> (i32 \<times> u32 \<rightharpoonup> nat) \<Rightarrow> ('g, 'sg, 'st, 'kp, 'k, 'd, 'c, 'r) ffi_state \<Rightarrow> bool" where
  "owned own born st \<longleftrightarrow>
     (\<forall>h x. reg_get (ff_encryptors st) h = Some x \<longrightarrow> (\<exists>k. own h = Some k \<and> born k = Some (se_cell x)))"

definition cached :: "(i32 \<times> u32 \<rightharpoonup> nat) \<Rightarrow> ('g, 'sg, 'st, 'kp, 'k, 'd, 'c, 'r) ffi_state \<Rightarrow> bool" where
  "cached born st \<longleftrightarrow>
     (\<forall>sh leaf i. born (sh, leaf) = Some i \<longrightarrow>
        i < length (ff_cells st) \<and> unat sh < unat (rg_next (ff_sessions st))
        \<and> (reg_get (ff_sessions st) sh \<noteq> None \<longrightarrow> (\<exists>x. ff_dedup st (sh, leaf) = Some x \<and> se_cell x = i)))"

lemma derived_same: "ff_cells st' = ff_cells st \<Longrightarrow> derived L st \<Longrightarrow> derived L st'"
  by (simp add: derived_def)

lemma reg_fits_next:
  assumes "reg_fits n r" "n < 2 ^ 31 - 1"
  shows "reg_get r h \<noteq> None \<Longrightarrow> h \<noteq> 0 \<and> unat h < unat (rg_next r)"
    and "reg_insert v r = (r', h) \<Longrightarrow> h = rg_next r \<and> unat (rg_next r') = Suc (unat (rg_next r))"
proof -
  obtain k where k: "k \<le> n" "reg_wf k r" using assms(1) by (auto simp: reg_fits_def)
  have "Suc k < 2 ^ 32" using k(1) assms(2) by simp
  then have nxt: "unat (rg_next r) = Suc k" using k(2) by (simp add: reg_wf_def del: of_nat_Suc)
  show "h \<noteq> 0 \<and> unat h < unat (rg_next r)" if "reg_get r h \<noteq> None"
    using that k(2) nxt unfolding reg_wf_def reg_get_def by (metis domIff less_Suc_eq_le less_numeral_extra(3) unat_0)
  show "h = rg_next r \<and> unat (rg_next r') = Suc (unat (rg_next r))" if "reg_insert v r = (r', h)"
  proof -
    have h: "h = rg_next r" "rg_next r' = rg_next r + 1" using that by (auto simp: reg_insert_def Let_def)
    have "unat (rg_next r) + 1 < 2 ^ 32" using nxt k(1) assms(2) by simp
    then show ?thesis using h by (simp add: unat_word_ariths)
  qed
qed

lemma owned_same:
  "reg_get (ff_encryptors st') = reg_get (ff_encryptors st) \<Longrightarrow> owned own born st \<Longrightarrow> owned own born st'"
  by (simp add: owned_def)

lemma cached_same:
  "ff_cells st' = ff_cells st \<Longrightarrow> ff_sessions st' = ff_sessions st \<Longrightarrow> ff_dedup st' = ff_dedup st \<Longrightarrow> cached born st \<Longrightarrow> cached born st'"
  by (simp add: cached_def)

text \<open>The creation of an encryptor: a session and leaf that has a cell keeps it.\<close>

lemma encryptor_create_tracked:
  assumes "gbp_sframe_encryptor_create L mh sh leaf su label st = Some (st', h)"
    and "ffi_inv n st" "n < 2 ^ 31 - 1" "owned own born st" "cached born st" "derived L st"
  defines "born' \<equiv> cell_of (Sframe_Api (SframeEncryptorCreate mh sh leaf su label)) (VHandle h) st' born"
  shows "owned (own(h \<mapsto> (sh, leaf))) born' st' \<and> cached born' st' \<and> derived L st'
    \<and> (\<forall>k i. born k = Some i \<longrightarrow> born' k = Some i)"
  using assms(1)
proof (cases rule: encryptor_create_cases)
  case (refused e)
  have "reg_fits n (ff_encryptors st)" using assms(2) by (simp add: ffi_inv_def)
  then have "reg_get (ff_encryptors st) 0 = None" using reg_fits_next(1) [of n _ 0] assms(3) by blast
  then show ?thesis using refused assms(4-6) by (auto simp: born'_def owned_def cached_def derived_def)
next
  case (reconnected x r)
  have b: "born' = born((sh, leaf) \<mapsto> se_cell x)"
    using reconnected(4) reg.get_after_insert [OF reconnected(3)] by (simp add: born'_def)
  have keep: "born (sh, leaf) = Some i \<Longrightarrow> i = se_cell x" for i
    using assms(5) reconnected(1,2) unfolding cached_def by fastforce
  have "se_cell x < length (ff_cells st)"
    using assms(2) reconnected(2) by (auto simp: ffi_inv_def cells_ok_def intro: ranI)
  moreover have "unat sh < unat (rg_next (ff_sessions st))"
    using reg_fits_next(1) [of n "ff_sessions st" sh] assms(2,3) reconnected(1) by (simp add: ffi_inv_def)
  ultimately have "cached born' st'" using assms(5) reconnected b by (auto simp: cached_def)
  moreover have kept: "born k = Some i \<Longrightarrow> born' k = Some i" for k i using keep by (cases k) (auto simp: b)
  moreover have "owned (own(h \<mapsto> (sh, leaf))) born' st'" unfolding owned_def
  proof (intro allI impI)
    fix ha xa assume a: "reg_get (ff_encryptors st') ha = Some xa"
    show "\<exists>k. (own(h \<mapsto> (sh, leaf))) ha = Some k \<and> born' k = Some (se_cell xa)"
    proof (cases "ha = h")
      case False
      then have "reg_get (ff_encryptors st) ha = Some xa" using a reconnected(4) reg.get_insert [OF reconnected(3)] by simp
      then obtain k where "own ha = Some k" "born k = Some (se_cell xa)" using assms(4) unfolding owned_def by blast
      then show ?thesis using kept False by auto
    qed (use a b reconnected(4) reg.get_insert [OF reconnected(3)] in auto)
  qed
  moreover have "derived L st'" using assms(6) reconnected(4) by (simp add: derived_def)
  ultimately show ?thesis by blast
next
  case (new u ctx s s' x r)
  have b: "born' = born((sh, leaf) \<mapsto> se_cell x)"
    using new(8) reg.get_after_insert [OF new(7)] by (simp add: born'_def)
  have none: "born (sh, leaf) = None" using assms(5) new(1,2) unfolding cached_def by (metis option.exhaust option.distinct(1))
  have cell: "length (ss_cells s') = Suc (length (ff_cells st))" "se_cell x = length (ff_cells st)"
    by (rule encryptor_create_new_cell [OF new(5,6)])+
  obtain key kid where key: "sl_enc_key (lb_sframe L) (to_sframe (ss_suite s)) kid (ss_base_key s) = Some key"
    "ss_cells s' = ff_cells st @ [\<lparr>es_key = key, es_counter = sl_counter (lb_sframe L)\<rparr>]"
    using new(6) session_from_mls_empty [OF new(5)]
    by (auto simp: session_encryptor_def encryptor_new_def Let_def split: option.splits)
  have "unat sh < unat (rg_next (ff_sessions st))"
    using reg_fits_next(1) [of n "ff_sessions st" sh] assms(2,3) new(1) by (simp add: ffi_inv_def)
  then have "cached born' st'" using assms(5) new(8) b cell by (auto simp: cached_def less_SucI)
  moreover have "owned (own(h \<mapsto> (sh, leaf))) born' st'"
    using assms(4) new(8) b none reg.get_insert [OF new(7)] by (fastforce simp: owned_def)
  moreover have "derived L st'" using assms(6) new(8) key by (auto simp: derived_def)
  ultimately show ?thesis using none b by auto
qed

lemma step_tracked:
  assumes "counter_ok (lb_sframe L) count" "ffi_step L c st = Some (st', v)"
    and "ffi_inv n st" "n < 2 ^ 31 - 1" "owned own born st" "cached born st" "derived L st"
  shows "owned (asked_for c v own) (cell_of c v st' born) st' \<and> cached (cell_of c v st' born) st' \<and> derived L st'
    \<and> (\<forall>k i. born k = Some i \<longrightarrow> cell_of c v st' born k = Some i)"
proof (cases "\<exists>d. c = Sframe_Api d")
  case False
  then have "same_encryptors st st'" by (rule non_sframe_step [OF assms(2)])
  moreover have "asked_for c v own = own" "cell_of c v st' born = born" using False by (cases c; simp)+
  ultimately show ?thesis using assms(5-7) by (simp add: same_encryptors_def owned_def cached_def derived_def)
next
  case True
  then obtain d where d: "c = Sframe_Api d" by blast
  then have step: "sframe_step L d st = Some (st', v)" using assms(2) by simp
  have fits: "reg_fits n (ff_sessions st)" using assms(3) by (simp add: ffi_inv_def)
  show ?thesis
  proof (cases d)
    case (SframeEncryptorCreate mh sh leaf su label)
    then obtain h where h: "gbp_sframe_encryptor_create L mh sh leaf su label st = Some (st', h)" "v = VHandle h"
      using step by auto
    from encryptor_create_tracked [OF h(1) assms(3-7)] show ?thesis using d SframeEncryptorCreate h(2) by simp
  next
    case (SframeSessionCreate mh su label)
    then have "ff_sessions st' = ff_sessions st \<or> (\<exists>w h. reg_insert w (ff_sessions st) = (ff_sessions st', h))"
      and same: "ff_encryptors st' = ff_encryptors st" "ff_cells st' = ff_cells st" "ff_dedup st' = ff_dedup st"
      using step by (auto simp: sframe_defs ffi_prims split: option.splits sum.splits prod.splits)
    then have "cached born st'"
    proof (elim disjE exE)
      assume "ff_sessions st' = ff_sessions st"
      then show ?thesis using cached_same same assms(6) by blast
    next
      fix w h assume i: "reg_insert w (ff_sessions st) = (ff_sessions st', h)"
      note nxt = reg_fits_next(2) [OF fits assms(4) i]
      show ?thesis using assms(6) same nxt reg.get_insert [OF i] unfolding cached_def
        by (auto intro: less_SucI)
    qed
    then show ?thesis using d SframeSessionCreate same owned_same [OF _ assms(5), of st'] derived_same [OF _ assms(7), of st'] by simp
  next
    case (SframeEncrypt h pt aad)
    then have same: "ff_encryptors st' = ff_encryptors st" "ff_sessions st' = ff_sessions st" "ff_dedup st' = ff_dedup st"
      using step by (auto simp: sframe_defs ffi_prims split: option.splits sum.splits prod.splits)
    have adv: "advances count st st'" by (rule ffi_step_advances [OF assms(1,2)])
    have len: "length (ff_cells st') = length (ff_cells st)"
      using step SframeEncrypt by (auto simp: sframe_defs ffi_prims dest: length_sframe_encrypt split: option.splits sum.splits prod.splits)
    have "derived L st'" unfolding derived_def
    proof
      fix cl assume "cl \<in> set (ff_cells st')"
      then obtain i where i: "i < length (ff_cells st)" "cl = ff_cells st' ! i" using len by (metis in_set_conv_nth)
      then show "\<exists>su kid b. sl_enc_key (lb_sframe L) su kid b = Some (es_key cl)"
        using adv assms(7) unfolding advances_def derived_def by (metis nth_mem)
    qed
    moreover have "cached born st'" using assms(6) same len by (simp add: cached_def)
    ultimately show ?thesis using d SframeEncrypt same owned_same [OF _ assms(5), of st'] by simp
  next
    case (SframeSessionFree h)
    then show ?thesis using step d assms(5-7)
      by (auto simp: sframe_defs ffi_prims owned_def cached_def derived_def reg_get_def reg_remove_def split: if_splits)
  next
    case (SframeEncryptorFree h)
    then show ?thesis using step d assms(5-7)
      by (auto simp: sframe_defs ffi_prims owned_def cached_def derived_def reg.get_remove split: if_splits)
  next
    case (SframeDecrypt sh payload aad)
    then have "rg_next (ff_sessions st') = rg_next (ff_sessions st)"
      "\<forall>h. (reg_get (ff_sessions st') h = None) = (reg_get (ff_sessions st) h = None)"
      and same: "ff_encryptors st' = ff_encryptors st" "ff_cells st' = ff_cells st" "ff_dedup st' = ff_dedup st"
      using step by (auto simp: sframe_defs ffi_prims reg_put_def reg_get_def split: if_splits option.splits sum.splits prod.splits)
    then have "cached born st'" using assms(6) by (simp add: cached_def)
    then show ?thesis using d SframeDecrypt same owned_same [OF _ assms(5), of st'] derived_same [OF _ assms(7), of st'] by simp
  qed
qed

subsection \<open>The counters of the frames\<close>

definition tracked where
  "tracked L n own born st \<longleftrightarrow> ffi_inv n st \<and> owned own born st \<and> cached born st \<and> derived L st"

text \<open>A frame carries the counter of the cell of its leaf, which has moved past it when the call returns.\<close>

lemma frame_of_step:
  assumes "counter_ok (lb_sframe L) count" "cipher_ok (lb_sframe L)" "ffi_step L c st = Some (st', v)"
    and "tracked L n own born st" "f \<in> set (frame_of L c v own st')"
  shows "\<exists>k i w. f = (Some k, Some w) \<and> born k = Some i \<and> i < length (ff_cells st)
    \<and> unat w = count (es_counter (ff_cells st ! i)) \<and> Suc (unat w) = count (es_counter (ff_cells st' ! i))"
proof -
  have inv: "owned own born st" "derived L st" "cells_ok st" using assms(4) by (simp_all add: tracked_def ffi_inv_def)
  obtain h pt aad b where c: "c = Sframe_Api (SframeEncrypt h pt aad)" "v = VBuf b" "b \<noteq> buffer_empty"
    using assms(5) by (cases "(L, c, v, own, st')" rule: frame_of.cases) (auto split: if_splits)
  have step: "gbp_sframe_encrypt L h pt aad st = (st', b)"
    using assms(3) c(1,2) by (cases "gbp_sframe_encrypt L h pt aad st") (simp add: with_value_def)
  obtain x where x: "reg_get (ff_encryptors st) h = Some x"
    using step c(3) by (auto simp: gbp_sframe_encrypt_def ffi_prims split: option.splits)
  then have cell: "se_cell x < length (ff_cells st)" using inv(3) by (auto simp: cells_ok_def reg_get_def intro: ranI)
  obtain k where k: "own h = Some k" "born k = Some (se_cell x)" using inv(1) x unfolding owned_def by blast
  let ?s = "ff_cells st ! se_cell x"
  have live: "\<not> sl_is_exhausted (lb_sframe L) (es_counter ?s)"
    using step x c(3) by (auto simp: gbp_sframe_encrypt_def sframe_encrypt_def ffi_prims)
  then have lt: "count (es_counter ?s) < 2 ^ 64" using assms(1) by (simp add: counter_ok_def)
  then obtain c' where c': "sl_next (lb_sframe L) (es_counter ?s) = (word_of_nat (count (es_counter ?s)), c')"
    "count c' = Suc (count (es_counter ?s))"
    using assms(1) unfolding counter_ok_def by blast
  let ?w = "word_of_nat (count (es_counter ?s)) :: u64"
  let ?cs = "(ff_cells st)[se_cell x := ?s\<lparr>es_counter := c'\<rparr>]"
  obtain out where out: "sl_encrypt (lb_sframe L) (es_key ?s) ?w pt aad = Some out"
    "ret_vec (drop (length aad) out) (st\<lparr>ff_error := [], ff_cells := ?cs\<rparr>) = (st', b)"
    using step x live c' c(3) by (auto simp: gbp_sframe_encrypt_def sframe_encrypt_def ffi_prims Let_def split: option.splits)
  obtain su kid bk where "sl_enc_key (lb_sframe L) su kid bk = Some (es_key ?s)"
    using inv(2) cell unfolding derived_def by (meson nth_mem)
  then have "sl_parse (lb_sframe L) (drop (length aad) out) aad = Inr (kid, ?w)"
    using assms(2) out(1) unfolding cipher_ok_def by (metis option.inject)
  then have "f = (Some k, Some ?w)" using assms(5) c k(1) read_ret_vec [OF out(2)] by simp
  moreover have "unat ?w = count (es_counter ?s)" using lt by (simp add: unat_of_nat take_bit_nat_eq_self)
  moreover have "ff_cells st' = ?cs" using out(2) by (auto simp: ret_vec_def split: prod.splits)
  ultimately show ?thesis using k(2) cell c'(2) by auto
qed

lemma tracked_step:
  assumes "counter_ok (lb_sframe L) count" "ffi_step L c st = Some (st', v)" "n < 2 ^ 31 - 1" "tracked L n own born st"
  obtains born' where "tracked L (Suc n) (asked_for c v own) born' st'" "\<And>k i. born k = Some i \<Longrightarrow> born' k = Some i"
  using that step_tracked [OF assms(1,2) _ assms(3), of own born] ffi_step_inv [OF assms(2) _ assms(3)] assms(4)
  unfolding tracked_def by blast

lemma frames_later:
  assumes "counter_ok (lb_sframe L) count" "cipher_ok (lb_sframe L)"
  shows "tracked L n own born st \<Longrightarrow> n + length cs < 2 ^ 31 \<Longrightarrow> (Some k, Some w) \<in> set (frames_sent L cs own st) \<Longrightarrow>
    born k = Some i \<Longrightarrow> count (es_counter (ff_cells st ! i)) \<le> unat w"
proof (induction cs arbitrary: n own born st)
  case (Cons c cs)
  then obtain st1 v where r: "ffi_step L c st = Some (st1, v)" by (cases "ffi_step L c st") auto
  have n: "n < 2 ^ 31 - 1" using Cons.prems(2) by simp
  obtain born' where b: "tracked L (Suc n) (asked_for c v own) born' st1" "born' k = Some i"
    using tracked_step [OF assms(1) r n Cons.prems(1)] Cons.prems(4) by metis
  show ?case
  proof (cases "(Some k, Some w) \<in> set (frame_of L c v own st1)")
    case True
    then show ?thesis using frame_of_step [OF assms r Cons.prems(1) True] Cons.prems(4) by auto
  next
    case False
    then have "(Some k, Some w) \<in> set (frames_sent L cs (asked_for c v own) st1)" using Cons.prems(3) r by simp
    then have "count (es_counter (ff_cells st1 ! i)) \<le> unat w" using Cons.IH [OF b(1) _ _ b(2)] Cons.prems(2) by simp
    moreover have "i < length (ff_cells st)"
      using Cons.prems(1,4) by (cases k) (auto simp: tracked_def cached_def)
    ultimately show ?thesis using ffi_step_advances [OF assms(1) r] unfolding advances_def by fastforce
  qed
qed simp

lemma distinct_frames:
  assumes "counter_ok (lb_sframe L) count" "cipher_ok (lb_sframe L)"
  shows "tracked L n own born st \<Longrightarrow> n + length cs < 2 ^ 31 \<Longrightarrow> distinct (frames_sent L cs own st)"
proof (induction cs arbitrary: n own born st)
  case (Cons c cs)
  show ?case
  proof (cases "ffi_step L c st")
    case (Some r)
    then obtain st1 v where r: "ffi_step L c st = Some (st1, v)" by (cases r) simp
    have n: "n < 2 ^ 31 - 1" using Cons.prems(2) by simp
    obtain born' where b: "tracked L (Suc n) (asked_for c v own) born' st1" "\<And>k i. born k = Some i \<Longrightarrow> born' k = Some i"
      using tracked_step [OF assms(1) r n Cons.prems(1)] by blast
    have "f \<notin> set (frames_sent L cs (asked_for c v own) st1)" if f: "f \<in> set (frame_of L c v own st1)" for f
    proof
      assume later: "f \<in> set (frames_sent L cs (asked_for c v own) st1)"
      obtain k i w where u: "f = (Some k, Some w)" "born k = Some i" "Suc (unat w) = count (es_counter (ff_cells st1 ! i))"
        using frame_of_step [OF assms r Cons.prems(1) f] by blast
      then show False using frames_later [OF assms b(1) _ later [unfolded u(1)] b(2)] Cons.prems(2) by fastforce
    qed
    moreover have "distinct (frame_of L c v own st1)"
      by (cases "(L, c, v, own, st1)" rule: frame_of.cases) auto
    ultimately show ?thesis using Cons.IH [OF b(1)] Cons.prems(2) r by auto
  qed simp
qed simp

text \<open>
  C14. No leaf of a session sends two frames with the same counter. Over every run of the interface from the start of
  the process, of fewer than \<open>2^31\<close> calls, whatever handles are created, released and created again, shared and used in
  whatever order, every non-empty buffer that \<^verbatim>\<open>gbp_sframe_encrypt\<close> returns is listed with the session handle and leaf
  its encryptor handle was created for and the counter parsed from its header, and these entries are
  pairwise different. Assumed of the SFrame library: the counter starts at zero, counts up and is exhausted at \<open>2^64\<close>,
  and an encrypted frame carries the counter it was encrypted with.
\<close>

theorem ffi_counters_unique:
  assumes "counter_ok (lb_sframe L) count" and "cipher_ok (lb_sframe L)" and "length cs < 2 ^ 31"
  shows "distinct (frames_sent L cs Map.empty ffi_init)"
proof (rule distinct_frames [OF assms(1,2), where n = 0 and born = Map.empty])
  show "tracked L 0 Map.empty Map.empty ffi_init"
    by (simp add: tracked_def ffi_inv_init) (simp add: owned_def cached_def derived_def ffi_init_def reg_new_def reg_get_def)
qed (use assms(3) in simp)

text \<open>Two frames of one leaf, with the encryptor released and created again between them.\<close>

definition toy_calls :: "ffi_call list" where
  "toy_calls = [toy_start, Sframe_Api (SframeSessionCreate 1 0 []), Sframe_Api (SframeEncryptorCreate 1 1 3 0 []),
     Sframe_Api (SframeEncrypt 1 [7] []), Sframe_Api (SframeEncryptorFree 1),
     Sframe_Api (SframeEncryptorCreate 1 1 3 0 []), Sframe_Api (SframeEncrypt 2 [7] [])]"

theorem ffi_counters_unique_witness:
  "distinct (frames_sent toy_libs toy_calls Map.empty ffi_init)"
  by (rule ffi_counters_unique [where count = id]) (simp_all add: toy_sframe_ok toy_calls_def)

end
