(* ===== verification/Utf8_Lossy.thy ===== *)
theory Utf8_Lossy
  imports Gbp_Ffi
begin

section \<open>Text that may not be UTF-8\<close>

text \<open>
  \<^verbatim>\<open>String::from_utf8_lossy\<close> of the standard library, with which the browser bindings show the content of a
  text message: the valid parts are kept and every offending sequence becomes one replacement character.
\<close>

subsection \<open>One step of the scan\<close>

text \<open>
  At a lead byte the scan either stops at its position, or skips a complete sequence, which by itself is
  valid and does not influence what follows.
\<close>

lemma lead_cases:
  fixes a :: u8
  obtains "a < 0x80" | "0xC2 \<le> a" "a \<le> 0xDF" "\<not> a < 0x80"
  | "0xE0 \<le> a" "a \<le> 0xEF" "\<not> a < 0x80" "\<not> a \<le> 0xDF"
  | "0xF0 \<le> a" "a \<le> 0xF4" "\<not> a < 0x80" "\<not> a \<le> 0xDF" "\<not> a \<le> 0xEF"
  | "\<not> a < 0x80" "\<not> (0xC2 \<le> a \<and> a \<le> 0xDF)" "\<not> (0xE0 \<le> a \<and> a \<le> 0xEF)" "\<not> (0xF0 \<le> a \<and> a \<le> 0xF4)"
proof -
  have "0xC2 \<le> a \<Longrightarrow> \<not> a < 0x80" "0xE0 \<le> a \<Longrightarrow> \<not> a < 0x80 \<and> \<not> a \<le> 0xDF"
    "0xF0 \<le> a \<Longrightarrow> \<not> a < 0x80 \<and> \<not> a \<le> 0xDF \<and> \<not> a \<le> 0xEF"
    by (simp_all add: word_le_nat_alt word_less_nat_alt)
  with that show thesis by blast
qed

definition skips :: "bytes \<Rightarrow> bytes \<Rightarrow> bool" where
  "skips p s \<longleftrightarrow> p \<noteq> [] \<and> (\<forall>i. utf8_error_at i (p @ s) = utf8_error_at (i + length p) s) \<and> (\<forall>q. utf8_valid (p @ q) = utf8_valid q)"

definition stops :: "bytes \<Rightarrow> nat option \<Rightarrow> bool" where
  "stops bs e \<longleftrightarrow> (\<forall>i. utf8_error_at i bs = Some (i, e)) \<and> (\<forall>n. e = Some n \<longrightarrow> 0 < n \<and> n \<le> length bs)"

lemma utf8_step: "(\<exists>e. stops (a # r) e) \<or> (\<exists>p s. a # r = p @ s \<and> skips p s)"
proof (cases a rule: lead_cases)
  case 1
  then have "skips [a] r" by (simp add: skips_def)
  then show ?thesis by (metis append_Cons append_Nil)
next
  case 2
  show ?thesis
  proof (cases r)
    case Nil
    then have "stops (a # r) None" using 2 by (simp add: stops_def)
    then show ?thesis by blast
  next
    case (Cons b r1)
    show ?thesis
    proof (cases "cont b")
      case True
      then have "skips [a, b] r1" using 2 by (simp add: skips_def)
      then show ?thesis using Cons by (metis append_Cons append_Nil)
    next
      case False
      then have "stops (a # r) (Some 1)" using 2 Cons by (simp add: stops_def)
      then show ?thesis by blast
    qed
  qed
next
  case 3
  show ?thesis
  proof (cases "\<exists>b c r2. r = b # c # r2 \<and> second3 a b \<and> cont c")
    case True
    then obtain b c r2 where r: "r = b # c # r2" "second3 a b" "cont c" by blast
    then have "skips [a, b, c] r2" using 3 by (simp add: skips_def eval_nat_numeral)
    then show ?thesis using r(1) by (metis append_Cons append_Nil)
  next
    case False
    then have "\<exists>e. stops (a # r) e" using 3 by (cases r; cases "tl r"; cases "second3 a (hd r)") (auto simp: stops_def)
    then show ?thesis by blast
  qed
next
  case 4
  show ?thesis
  proof (cases "\<exists>b c d r3. r = b # c # d # r3 \<and> second4 a b \<and> cont c \<and> cont d")
    case True
    then obtain b c d r3 where r: "r = b # c # d # r3" "second4 a b" "cont c" "cont d" by blast
    then have "skips [a, b, c, d] r3" using 4 by (simp add: skips_def eval_nat_numeral)
    then show ?thesis using r(1) by (metis append_Cons append_Nil)
  next
    case False
    then have "\<exists>e. stops (a # r) e" using 4
      by (cases r; cases "tl r"; cases "tl (tl r)"; cases "second4 a (hd r)"; cases "cont (hd (tl r))") (auto simp: stops_def)
    then show ?thesis by blast
  qed
next
  case 5
  then have "stops (a # r) (Some 1)" unfolding stops_def by (simp only: utf8_error_at.simps if_False) simp
  then show ?thesis by blast
qed

text \<open>What the scan finds: a valid prefix, and an offending sequence that is inside the input.\<close>

lemma utf8_error_found:
  "utf8_error_at i bs = Some (j, e) \<Longrightarrow>
     i \<le> j \<and> j - i < length bs \<and> utf8_valid (take (j - i) bs) \<and> (\<forall>n. e = Some n \<longrightarrow> 0 < n \<and> j - i + n \<le> length bs)"
proof (induction "length bs" arbitrary: i bs rule: less_induct)
  case less
  then obtain a r where bs: "bs = a # r" by (cases bs) auto
  from utf8_step [of a r] show ?case
  proof (elim disjE exE conjE)
    fix e' assume "stops (a # r) e'"
    then show ?thesis using less.prems bs by (auto simp: stops_def)
  next
    fix p s assume p: "a # r = p @ s" "skips p s"
    then have len: "length bs = length p + length s" "length s < length bs"
      using bs by (simp_all add: skips_def)
    have "utf8_error_at (i + length p) s = Some (j, e)" using less.prems p bs by (simp add: skips_def)
    from less.hyps [OF len(2) this]
    have j: "i + length p \<le> j" "j - (i + length p) < length s" "utf8_valid (take (j - (i + length p)) s)"
      "\<forall>n. e = Some n \<longrightarrow> 0 < n \<and> j - (i + length p) + n \<le> length s" by auto
    have "take (j - i) bs = p @ take (j - (i + length p)) s" using j(1) p(1) bs by simp
    then show ?thesis using j len p(2) by (auto simp: skips_def)
  qed
qed

subsection \<open>Replacement\<close>

definition replacement_char :: bytes where
  "replacement_char = [0xEF, 0xBF, 0xBD]"

function utf8_lossy :: "bytes \<Rightarrow> bytes" where
  "utf8_lossy bs =
     (case utf8_error_at 0 bs of None \<Rightarrow> bs
      | Some (i, e) \<Rightarrow>
        take i bs @ replacement_char @ (case e of None \<Rightarrow> [] | Some n \<Rightarrow> utf8_lossy (drop (i + n) bs)))"
  by pat_completeness auto
termination
proof (relation "measure length")
  fix bs p i e n assume "utf8_error_at 0 bs = Some p" "(i, e) = p" "e = Some n"
  then show "(drop (i + n) bs, bs) \<in> measure length" using utf8_error_found [of 0 bs i e] by auto
qed simp

declare utf8_lossy.simps [simp del]

lemma utf8_valid_append: "utf8_valid xs \<Longrightarrow> utf8_valid (xs @ ys) = utf8_valid ys"
proof (induction "length xs" arbitrary: xs rule: less_induct)
  case less
  show ?case
  proof (cases xs)
    case (Cons a r)
    from utf8_step [of a r] show ?thesis
    proof (elim disjE exE conjE)
      fix e assume "stops (a # r) e"
      then show ?thesis using less.prems Cons utf8_error_at_None [of 0 "a # r"] by (simp add: stops_def)
    next
      fix p s assume p: "a # r = p @ s" "skips p s"
      then have "utf8_valid s" "length s < length xs" using less.prems Cons by (auto simp: skips_def)
      then show ?thesis using less.hyps p Cons by (auto simp: skips_def)
    qed
  qed simp
qed

lemma replacement_char_valid: "utf8_valid replacement_char"
  by (simp add: replacement_char_def second3_def cont_def)

text \<open>
  Showing a message never fails. The replacement loop ends on every byte string, its result is valid UTF-8, a
  valid text comes out unchanged and nothing else does.
\<close>

theorem utf8_lossy_valid: "utf8_valid (utf8_lossy bs) \<and> (utf8_lossy bs = bs \<longleftrightarrow> utf8_valid bs)"
proof -
  have valid: "utf8_valid (utf8_lossy bs)"
  proof (induction bs rule: utf8_lossy.induct)
    case (1 bs)
    show ?case
    proof (cases "utf8_error_at 0 bs")
      case None
      then show ?thesis using utf8_error_at_None [of 0 bs] by (simp add: utf8_lossy.simps [of bs])
    next
      case (Some p)
      obtain i e where p: "p = (i, e)" by force
      then have "utf8_valid (take i bs)" using Some utf8_error_found [of 0 bs i e] by simp
      moreover have "utf8_valid (case e of None \<Rightarrow> [] | Some n \<Rightarrow> utf8_lossy (drop (i + n) bs))"
        using 1 [OF Some p [symmetric]] by (cases e) simp_all
      ultimately show ?thesis
        using Some p by (simp add: utf8_lossy.simps [of bs] utf8_valid_append replacement_char_valid)
    qed
  qed
  moreover have "utf8_valid bs \<Longrightarrow> utf8_lossy bs = bs"
    by (simp add: utf8_lossy.simps [of bs] utf8_error_at_None [THEN iffD2])
  ultimately show ?thesis by metis
qed

end
