(* ===== verification/Gbp_Wasm.thy ===== *)
theory Gbp_Wasm
  imports Utf8_Lossy
begin

section \<open>The browser bindings (\<^verbatim>\<open>gbp-wasm\<close>)\<close>

text \<open>
  The classes of \<^verbatim>\<open>crates/gbp/wasm/src/lib.rs\<close>. A JavaScript object of a class holds one Rust object in a
  \<^verbatim>\<open>RefCell\<close>; JavaScript is single-threaded, no method calls back, and the objects a method borrows are of
  different classes, so no borrow fails, and a method is a function from the objects it borrows to their
  new values and its result. A thrown value is the left side of a sum. The bytes of a
  \<^verbatim>\<open>Uint8Array\<close> are copied. The encryptors of SFrame share their counters, as in the C interface, through cells.
\<close>

subsection \<open>JavaScript values\<close>

text \<open>
  Numbers made from integers of at most 32 bits, which a double holds exactly. An object is the list of its
  properties in the order they are set; no property is set twice.
\<close>

datatype js =
    JNull
  | JBool bool
  | JNum nat
  | JBigInt u64
  | JStr string
  | JBytes bytes
  | JObj "(string \<times> js) list"

fun event_to_js :: "event \<Rightarrow> js" where
  "event_to_js (PayloadReceived p) = JObj
     [(''kind'', JStr ''payload_received''), (''streamType'', JNum (unat (stream_as_u8 (dp_stream_type p)))),
      (''plaintext'', JBytes (dp_plaintext p)), (''sequenceNo'', JNum (unat (dp_sequence_no p))),
      (''codec'', JNum (unat (codec_as_u8 (dp_codec p))))]"
| "event_to_js (StateChanged from to) = JObj
     [(''kind'', JStr ''state_changed''), (''from'', JStr (node_state_display from)), (''to'', JStr (node_state_display to))]"
| "event_to_js (EpochAdvanced epoch tid) = JObj
     [(''kind'', JStr ''epoch_advanced''), (''epoch'', JBigInt epoch), (''transitionId'', JNum (unat tid))]"
| "event_to_js (ErrorEv code cls retryable fatal reason) = JObj
     [(''kind'', JStr ''error''), (''code'', JNum (unat code)), (''reason'', JStr reason),
      (''fatal'', JBool fatal), (''retryable'', JBool retryable)]"
| "event_to_js (ControlEv from opcode tid request args) = JObj
     [(''kind'', JStr ''control''), (''from'', JNum (unat from)),
      (''opcode'', JNum (unat (ucast (opcode_as_u16 opcode) :: u8))), (''transitionId'', JNum (unat tid))]"
| "event_to_js _ = JObj [(''kind'', JStr ''other'')]"

definition codec_from :: "u8 option \<Rightarrow> payload_codec" where
  "codec_from c = opt_or (Option.bind c codec_from_u8) Cbor"

text \<open>The exported enumerations, by name and number.\<close>

definition js_payload_codec :: "(string \<times> nat) list" where
  "js_payload_codec = [(''Cbor'', 0), (''Protobuf'', 1), (''FlatBuffers'', 2)]"

definition js_signal_type :: "(string \<times> nat) list" where
  "js_signal_type =
     [(''Join'', 100), (''Leave'', 101), (''RoleChange'', 102), (''Mute'', 200), (''Unmute'', 201),
      (''StreamStart'', 300), (''StreamStop'', 301), (''CodecUpdate'', 400)]"

definition js_control_opcode :: "(string \<times> nat) list" where
  "js_control_opcode =
     [(''PrepareTransition'', 0x0001), (''ReadyForTransition'', 0x0002), (''ExecuteTransition'', 0x0003),
      (''AbortTransition'', 0x0004), (''GroupStateDigestRequest'', 0x0005), (''GroupStateDigestResponse'', 0x0006),
      (''ReportInvalidCommit'', 0x0007), (''CapabilitiesAdvertise'', 0x0008), (''Ack'', 0x0009), (''Nack'', 0x000A)]"

definition js_cipher_suite :: "(string \<times> nat) list" where
  "js_cipher_suite = [(''Aes128Gcm'', 0), (''Aes256Gcm'', 1)]"

subsection \<open>\<^verbatim>\<open>MlsContext\<close>\<close>

record ('g, 'sg, 'st) js_mls =
  jm_inner :: "('g, 'sg, 'st) mls_context"
  jm_kp_bytes :: bytes

definition js_mls_create where
  "js_mls_create L r1 r2 r3 user_id =
     (case new_member (lb_om L) r1 r2 r3 user_id of Inl e \<Rightarrow> Inl (mls_error_display e)
      | Inr (ctx, kp) \<Rightarrow>
        (case lb_kp_ser L kp of Inl e \<Rightarrow> Inl (''kp serialize: '' @ e)
         | Inr bs \<Rightarrow> Inr \<lparr>jm_inner = ctx, jm_kp_bytes = bs\<rparr>))"

definition js_mls_key_package where "js_mls_key_package j = jm_kp_bytes j"

definition js_mls_epoch where "js_mls_epoch L j = mls_epoch (lb_om L) (jm_inner j)"

definition js_mls_group_id where "js_mls_group_id L j = group_id_16 (lb_om L) (jm_inner j)"

definition js_key_package where
  "js_key_package L bs =
     (case lb_kp_de L bs of Inl e \<Rightarrow> Inl (''kp parse: '' @ e)
      | Inr kp_in \<Rightarrow>
        (case lb_kp_validate L kp_in of Inl e \<Rightarrow> Inl (''kp validate: '' @ e) | Inr kp \<Rightarrow> Inr kp))"

text \<open>The loop of \<^verbatim>\<open>inviteMany\<close>, which stops at the first package that does not parse or validate.\<close>

fun js_key_packages where
  "js_key_packages L [] = Inr []"
| "js_key_packages L (b # bs) =
     (case js_key_package L b of Inl e \<Rightarrow> Inl e
      | Inr kp \<Rightarrow> (case js_key_packages L bs of Inl e \<Rightarrow> Inl e | Inr kps \<Rightarrow> Inr (kp # kps)))"

definition js_mls_invite where
  "js_mls_invite L r kp_bytes j =
     (case js_key_package L kp_bytes of Inl e \<Rightarrow> (j, Inl e)
      | Inr kp \<Rightarrow>
        (case invite (lb_om L) r (jm_inner j) [kp] of
           (ctx, Inr welcome) \<Rightarrow> (j\<lparr>jm_inner := ctx\<rparr>, Inr welcome)
         | (ctx, Inl e) \<Rightarrow> (j\<lparr>jm_inner := ctx\<rparr>, Inl (mls_error_display e))))"

definition js_mls_invite_many where
  "js_mls_invite_many L r key_packages j =
     (case js_key_packages L key_packages of Inl e \<Rightarrow> (j, Inl e)
      | Inr kps \<Rightarrow>
        (if kps = [] then (j, Inl ''inviteMany: no key packages'')
         else case invite (lb_om L) r (jm_inner j) kps of
           (ctx, Inr welcome) \<Rightarrow> (j\<lparr>jm_inner := ctx\<rparr>, Inr welcome)
         | (ctx, Inl e) \<Rightarrow> (j\<lparr>jm_inner := ctx\<rparr>, Inl (mls_error_display e))))"

definition js_mls_accept_welcome where
  "js_mls_accept_welcome L welcome j =
     (case accept_welcome (lb_om L) (jm_inner j) welcome of
        (ctx, Inr _) \<Rightarrow> (j\<lparr>jm_inner := ctx\<rparr>, Inr ())
      | (ctx, Inl e) \<Rightarrow> (j\<lparr>jm_inner := ctx\<rparr>, Inl (mls_error_display e)))"

definition js_mls_invite_full where
  "js_mls_invite_full L r kp_bytes j =
     (case js_key_package L kp_bytes of Inl e \<Rightarrow> (j, Inl e)
      | Inr kp \<Rightarrow>
        (case invite_full (lb_om L) r (jm_inner j) [kp] of
           (ctx, Inr (commit, welcome)) \<Rightarrow>
             (j\<lparr>jm_inner := ctx\<rparr>, Inr (JObj [(''commit'', JBytes commit), (''welcome'', JBytes welcome)]))
         | (ctx, Inl e) \<Rightarrow> (j\<lparr>jm_inner := ctx\<rparr>, Inl (mls_error_display e))))"

definition js_mls_remove_member where
  "js_mls_remove_member L r leaf_index j =
     (case remove_members (lb_om L) r (jm_inner j) [leaf_index] of
        (ctx, Inr commit) \<Rightarrow> (j\<lparr>jm_inner := ctx\<rparr>, Inr commit)
      | (ctx, Inl e) \<Rightarrow> (j\<lparr>jm_inner := ctx\<rparr>, Inl (mls_error_display e)))"

fun processed_name :: "processed_kind \<Rightarrow> string" where
  "processed_name KCommit = ''commit''"
| "processed_name KApplication = ''application''"
| "processed_name KProposal = ''proposal''"
| "processed_name KExternal = ''external''"

definition js_mls_process_message where
  "js_mls_process_message L msg j =
     (case process_message (lb_om L) (jm_inner j) msg of
        (ctx, Inr kind) \<Rightarrow> (j\<lparr>jm_inner := ctx\<rparr>, Inr (processed_name kind))
      | (ctx, Inl e) \<Rightarrow> (j\<lparr>jm_inner := ctx\<rparr>, Inl (mls_error_display e)))"

definition js_mls_finalize_commit where
  "js_mls_finalize_commit L j =
     (case finalize_pending_commit (lb_om L) (jm_inner j) of
        (ctx, Inr _) \<Rightarrow> (j\<lparr>jm_inner := ctx\<rparr>, Inr ())
      | (ctx, Inl e) \<Rightarrow> (j\<lparr>jm_inner := ctx\<rparr>, Inl (mls_error_display e)))"

definition js_mls_clear_pending_commit where
  "js_mls_clear_pending_commit L j =
     (case clear_pending_commit (lb_om L) (jm_inner j) of
        (ctx, Inr _) \<Rightarrow> (j\<lparr>jm_inner := ctx\<rparr>, Inr ())
      | (ctx, Inl e) \<Rightarrow> (j\<lparr>jm_inner := ctx\<rparr>, Inl (mls_error_display e)))"

definition js_mls_export_state where
  "js_mls_export_state L es j =
     (case export_state (lb_om L) es (jm_inner j) of Inr bs \<Rightarrow> Inr bs | Inl e \<Rightarrow> Inl (mls_error_display e))"

definition js_mls_restore_state where
  "js_mls_restore_state L blob =
     (case restore_state (lb_om L) blob of Inr ctx \<Rightarrow> Inr \<lparr>jm_inner = ctx, jm_kp_bytes = []\<rparr>
      | Inl e \<Rightarrow> Inl (mls_error_display e))"

subsection \<open>\<^verbatim>\<open>GroupNode\<close>\<close>

text \<open>A group id that is not 16 bytes long becomes all zeros.\<close>

definition js_node_create :: "u32 \<Rightarrow> bytes \<Rightarrow> group_node" where
  "js_node_create leaf_index gid = node_new leaf_index (if length gid = 16 then gid else replicate 16 0)"

definition js_node_bootstrap_as_creator where
  "js_node_bootstrap_as_creator epoch n = bootstrap_as_creator epoch n"

definition js_node_bootstrap_as_joiner where
  "js_node_bootstrap_as_joiner epoch tid n = bootstrap_as_joiner epoch tid n"

definition js_node_export_out_seq where
  "js_node_export_out_seq es = export_out_seq es"

definition js_node_restore_out_seq where
  "js_node_restore_out_seq bs n = restore_out_seq bs n"

definition js_node_on_wire where
  "js_node_on_wire L now j wire n =
     (case on_wire (lb_frame L) (lb_control L) (ffi_sealer L (jm_inner j)) now wire n of
        (n', evs) \<Rightarrow> (n', map event_to_js evs))"

definition js_node_check_timeouts where
  "js_node_check_timeouts now n = (case check_timeouts now n of (n', evs) \<Rightarrow> (n', map event_to_js evs))"

definition js_node_last_transition_id where "js_node_last_transition_id n = last_transition_id n"

definition js_node_current_epoch where "js_node_current_epoch n = current_epoch n"

definition js_node_member_id where "js_node_member_id n = member_id n"

definition outbound_to_js :: "outbound_frame \<Rightarrow> js" where
  "outbound_to_js out = JObj [(''wire'', JBytes (of_wire out)), (''to'', JNum (unat (of_to out)))]"

definition js_node_send_control where
  "js_node_send_control L now j target opcode tid request_id args n =
     (case opcode_try_from opcode of Inl _ \<Rightarrow> (n, Inl (''bad opcode 0x'' @ hex4 opcode))
      | Inr op \<Rightarrow>
        (case send_control (lb_frame L) (lb_control L) (ffi_sealer L (jm_inner j)) now target op tid request_id args n of
           (n', Inr out) \<Rightarrow> (n', Inr (outbound_to_js out))
         | (n', Inl e) \<Rightarrow> (n', Inl (node_error_display e))))"

definition js_node_apply_transition where
  "js_node_apply_transition tid n = apply_transition tid n"

definition js_node_drain_events where
  "js_node_drain_events n = (case drain_events n of (n', evs) \<Rightarrow> (n', map event_to_js evs))"

subsection \<open>\<^verbatim>\<open>GtpClient\<close>\<close>

definition js_gtp_create :: gtp_client where "js_gtp_create = gtp_client_new"

definition js_gtp_send where
  "js_gtp_send L n j target message_id text codec c =
     (case gtp_send (lb_gtp L) (lb_frame L) (ffi_sealer L (jm_inner j)) target message_id text (codec_from codec) c n of
        (c', n', Inr out) \<Rightarrow> (c', n', outbound_to_js out)
      | (c', n', Inl _) \<Rightarrow> (c', n', JNull))"

definition gtp_message_to_js :: "string \<Rightarrow> gtp_message \<Rightarrow> js" where
  "gtp_message_to_js status m = JObj
     [(''text'', JStr (bytes_str (utf8_lossy (g_content m)))), (''messageId'', JBigInt (g_message_id m)),
      (''senderId'', JNum (unat (g_sender_id m))), (''status'', JStr status)]"

definition js_gtp_accept where
  "js_gtp_accept L plaintext epoch codec c =
     (case gtp_accept (lb_gtp L) plaintext epoch (codec_from codec) c of
        (c', Inr (GtpNew m)) \<Rightarrow> (c', gtp_message_to_js ''new'' m)
      | (c', Inr (GtpDuplicate m)) \<Rightarrow> (c', gtp_message_to_js ''duplicate'' m)
      | (c', Inl _) \<Rightarrow> (c', JNull))"

definition js_gtp_reset where "js_gtp_reset c = gtp_reset c"

subsection \<open>\<^verbatim>\<open>GapClient\<close>\<close>

definition gap_payload_to_js :: "string \<Rightarrow> gap_payload \<Rightarrow> js" where
  "gap_payload_to_js status p = JObj
     [(''status'', JStr status), (''source'', JNum (unat (a_media_source_id p))), (''seq'', JNum (unat (a_rtp_sequence p))),
      (''rtpTimestamp'', JBigInt (a_rtp_timestamp p)), (''opus'', JBytes (a_opus_frame p))]"

definition js_gap_create :: gap_client where "js_gap_create = gap_client_new"

definition js_gap_send where
  "js_gap_send L now n j target source timestamp opus codec c =
     (case gap_send (lb_gap L) (lb_frame L) (ffi_sealer L (jm_inner j)) now target source timestamp opus
             (codec_from codec) c n of
        (c', n', Inr out) \<Rightarrow> (c', n', outbound_to_js out)
      | (c', n', Inl _) \<Rightarrow> (c', n', JNull))"

definition js_gap_accept where
  "js_gap_accept L now plaintext epoch codec c =
     (case gap_accept (lb_gap L) now plaintext epoch (codec_from codec) c of
        (c', Inr (GapNew p)) \<Rightarrow> (c', gap_payload_to_js ''new'' p)
      | (c', Inr (GapLate p)) \<Rightarrow> (c', gap_payload_to_js ''late'' p)
      | (c', Inl _) \<Rightarrow> (c', JNull))"

definition js_gap_reset where "js_gap_reset c = gap_reset c"

subsection \<open>\<^verbatim>\<open>GspClient\<close>\<close>

definition js_gsp_create :: gsp_client where "js_gsp_create = gsp_client_new"

definition js_gsp_send where
  "js_gsp_send L n j target signal_type role_claim request_id codec c =
     (case signal_try_from signal_type of Inl _ \<Rightarrow> (c, n, Inl (''bad signal '' @ dec_word signal_type))
      | Inr sig \<Rightarrow>
        (case gsp_send (lb_gsp L) (lb_frame L) (ffi_sealer L (jm_inner j)) target sig role_claim request_id
                (codec_from codec) c n of
           (c', n', Inr out) \<Rightarrow> (c', n', Inr (outbound_to_js out))
         | (c', n', Inl e) \<Rightarrow> (c', n', Inl (gsp_error_display e))))"

definition js_gsp_send_with_args where
  "js_gsp_send_with_args L n j target signal_type role_claim request_id args codec c =
     (case signal_try_from signal_type of Inl _ \<Rightarrow> (c, n, Inl (''bad signal '' @ dec_word signal_type))
      | Inr sig \<Rightarrow>
        (case gsp_send_with_args (lb_gsp L) (lb_frame L) (ffi_sealer L (jm_inner j)) target sig role_claim request_id args
                (codec_from codec) c n of
           (c', n', Inr out) \<Rightarrow> (c', n', Inr (outbound_to_js out))
         | (c', n', Inl e) \<Rightarrow> (c', n', Inl (gsp_error_display e))))"

fun gsp_result_to_js :: "gsp_error + gsp_accept_result \<Rightarrow> string + js" where
  "gsp_result_to_js (Inr a) = Inr (JObj
     [(''status'', JStr ''new''), (''signal'', JStr (signal_name (acc_signal a))),
      (''signalCode'', JNum (unat (signal_as_u32 (acc_signal a)))), (''sender'', JNum (unat (acc_sender_id a))),
      (''roleClaim'', JNum (unat (acc_role_claim a))), (''requestId'', JNum (unat (acc_request_id a)))])"
| "gsp_result_to_js (Inl (DuplicateRequest rid)) = Inr (JObj
     [(''status'', JStr ''duplicate''), (''requestId'', JNum (unat rid))])"
| "gsp_result_to_js (Inl e) = Inl (gsp_error_display e)"

definition js_gsp_accept where
  "js_gsp_accept L plaintext epoch codec c =
     (case gsp_accept (lb_gsp L) (lb_value L) plaintext epoch (codec_from codec) c of
        (c', r) \<Rightarrow> (c', gsp_result_to_js r))"

definition js_gsp_reset where "js_gsp_reset c = gsp_reset c"

subsection \<open>\<^verbatim>\<open>SFrameSession\<close> and \<^verbatim>\<open>SFrameEncryptor\<close>\<close>

text \<open>
  A session object holds the decryptor and the cache of encryptors by leaf; an encryptor object holds a clone, which
  shares its cell with the cache. Operations that reach the panic of \<^verbatim>\<open>gbp-sframe\<close> return \<open>None\<close>.
\<close>

record ('d, 'r) js_session =
  jx_inner :: "('d, 'r) sframe_decryptor"
  jx_encryptors :: "u32 \<rightharpoonup> sframe_encryptor"

definition cipher_suite_from :: "u8 \<Rightarrow> string + cipher_suite" where
  "cipher_suite_from v =
     (case suite_from_u8 v of Some s \<Rightarrow> Inr s | None \<Rightarrow> Inl (''unknown ciphersuite '' @ dec_word v))"

definition js_session_create where
  "js_session_create L j label suite =
     (case cipher_suite_from suite of Inl e \<Rightarrow> Inl e
      | Inr su \<Rightarrow>
        (case session_from_mls (lb_om L) (jm_inner j) (bytes_str label) su of Inl e \<Rightarrow> Inl (sframe_error_display e)
         | Inr session \<Rightarrow>
           Inr \<lparr>jx_inner = session_decryptor (lb_sframe L) session, jx_encryptors = Map.empty\<rparr>))"

definition js_create_encryptor where
  "js_create_encryptor L j leaf label suite s cells =
     (case jx_encryptors s leaf of Some existing \<Rightarrow> Some (s, cells, Inr existing)
      | None \<Rightarrow>
        (case cipher_suite_from suite of Inl e \<Rightarrow> Some (s, cells, Inl e)
         | Inr su \<Rightarrow>
           (case session_from_mls (lb_om L) (jm_inner j) (bytes_str label) su of
              Inl e \<Rightarrow> Some (s, cells, Inl (sframe_error_display e))
            | Inr session \<Rightarrow>
              (case session_encryptor (lb_sframe L) leaf (session\<lparr>ss_cells := cells\<rparr>) of None \<Rightarrow> None
               | Some (session', encryptor) \<Rightarrow>
                 Some (s\<lparr>jx_encryptors := (jx_encryptors s)(leaf \<mapsto> encryptor)\<rparr>, ss_cells session', Inr encryptor)))))"

definition js_session_decrypt where
  "js_session_decrypt L payload aad s =
     (case sframe_decrypt (lb_sframe L) payload aad (jx_inner s) of None \<Rightarrow> None
      | Some (d, Inr (plaintext, leaf)) \<Rightarrow>
        Some (s\<lparr>jx_inner := d\<rparr>, Inr (JObj [(''plaintext'', JBytes plaintext), (''senderLeaf'', JNum (unat leaf))]))
      | Some (d, Inl e) \<Rightarrow> Some (s\<lparr>jx_inner := d\<rparr>, Inl (sframe_error_display e)))"

definition js_encryptor_encrypt where
  "js_encryptor_encrypt L plaintext aad enc cells =
     (case sframe_encrypt (lb_sframe L) enc plaintext aad cells of
        (cells', Inr payload) \<Rightarrow> (cells', Inr payload)
      | (cells', Inl e) \<Rightarrow> (cells', Inl (sframe_error_display e)))"

end
