(* ===== verification/Ffi_Props.thy ===== *)
theory Ffi_Props
  imports Ffi_Sframe
begin

section \<open>Properties of the C interface\<close>

text \<open>
  What a foreign caller can rely on: the state stays well-formed whatever is called, blocks are stable until
  released, failures are reported in the error slot, events lose nothing on the way to JSON, SFrame
  handles of a session share their counter, and a text message gets from the buffer of one process to
  the client of another.
\<close>

subsection \<open>Runs\<close>

text \<open>
  C17. The state behind the interface stays well-formed. Whatever functions are called, with whatever arguments
  and valid or invalid handles, after fewer than \<open>2 ^ 31\<close> calls every live handle of every registry is positive
  and no larger than the number of calls, so that 0 never names an object and no handle has been
  given out twice; every block has an address below the allocator's limit, and every encryptor that is
  registered or cached refers to a cell that exists.
\<close>

theorem ffi_state_well_formed:
  assumes "ffi_run L cs ffi_init = Some (st, vs)" and "length cs < 2 ^ 31"
  shows "ffi_inv (length cs) st"
  using ffi_run_inv [OF assms(1) ffi_inv_init [of 0]] assms(2) by simp

lemma ffi_run_exists:
  fixes st :: "('g, 'sg, 'st, 'kp, 'k, 'd, 'c, 'r) ffi_state"
  assumes "\<forall>c\<in>set cs. \<forall>st :: ('g, 'sg, 'st, 'kp, 'k, 'd, 'c, 'r) ffi_state. ffi_step L c st \<noteq> None"
  shows "\<exists>st' vs. ffi_run L cs st = Some (st', vs)"
  using assms
proof (induction cs arbitrary: st)
  case (Cons c cs)
  obtain st1 v where "ffi_step L c st = Some (st1, v)" using Cons.prems by fastforce
  then show ?case using Cons.IH [of st1] Cons.prems by auto
qed simp

theorem ffi_state_well_formed_witness:
  "\<exists>st vs. ffi_run toy_libs [Gtp_Api GtpCreate, Util Version, Gtp_Api (GtpDestroy 9), Mls_Api (MlsFinalizeCommit 5)] ffi_init
      = Some (st, vs) \<and> ffi_inv 4 st"
proof -
  obtain st vs where run:
    "ffi_run toy_libs [Gtp_Api GtpCreate, Util Version, Gtp_Api (GtpDestroy 9), Mls_Api (MlsFinalizeCommit 5)] ffi_init = Some (st, vs)"
    using ffi_run_exists [of "[Gtp_Api GtpCreate, Util Version, Gtp_Api (GtpDestroy 9), Mls_Api (MlsFinalizeCommit 5)]" toy_libs
      "ffi_init :: toy_state"]
    by (auto simp: with_value_def simp del: ffi_run.simps)
  have "ffi_inv (length [Gtp_Api GtpCreate, Util Version, Gtp_Api (GtpDestroy 9), Mls_Api (MlsFinalizeCommit 5)]) st"
    by (rule ffi_state_well_formed [OF run]) simp
  moreover have "length [Gtp_Api GtpCreate, Util Version, Gtp_Api (GtpDestroy 9), Mls_Api (MlsFinalizeCommit 5)] = 4" by simp
  ultimately show ?thesis using run by (simp only:) blast
qed

subsection \<open>Blocks\<close>

lemma mem_moves_keeps:
  assumes "mem_moves F m m'" "mem_wf m" "mm_blocks m p = Some b" "p \<notin> F"
  shows "mm_blocks m' p = Some b"
  using assms unfolding mem_moves_def mem_wf_def
  by (auto simp: mem_alloc_def mem_release_def dest: bspec [OF _ domI])

lemma ffi_step_mem:
  assumes "ffi_step L c st = Some (st', v)" "mem_wf (ff_mem st)"
  shows "mem_wf (ff_mem st')" and "mem_moves (frees c) (ff_mem st) (ff_mem st')"
  using ffi_step_moves [OF assms(1)] assms(2) mem_wf_moves unfolding ffi_moves_def by blast+

lemma ffi_run_mem_wf: "ffi_run L cs st = Some (st', vs) \<Longrightarrow> mem_wf (ff_mem st) \<Longrightarrow> mem_wf (ff_mem st')"
  by (rule ffi_run_invariant) (auto intro: ffi_step_mem(1))

lemma ffi_run_blocks:
  assumes "ffi_run L cs st = Some (st', vs)" "mem_wf (ff_mem st)" "mm_blocks (ff_mem st) p = Some b"
    and "\<forall>c\<in>set cs. p \<notin> frees c"
  shows "mm_blocks (ff_mem st') p = Some b"
proof -
  have "mem_wf (ff_mem st') \<and> mm_blocks (ff_mem st') p = Some b"
    by (rule ffi_run_invariant [OF assms(1)])
      (use assms(2-4) in \<open>auto intro: ffi_step_mem(1) mem_moves_keeps [OF ffi_step_mem(2)]\<close>)
  then show ?thesis by simp
qed

text \<open>
  C19. What the caller was handed stays readable until it is released. Take any state the interface can reach, a
  buffer or a C string that can be read there, and any further calls, none of which releases that block:
  afterwards the same bytes are read, whatever else was allocated or released meanwhile.
\<close>

theorem ffi_blocks_stable:
  assumes "ffi_run L cs ffi_init = Some (st, us)" and "ffi_run L ds st = Some (st', vs)"
    and "\<forall>d\<in>set ds. p \<notin> frees d"
  shows "(mm_blocks (ff_mem st) p \<noteq> None \<longrightarrow> mm_blocks (ff_mem st') p = mm_blocks (ff_mem st) p)
    \<and> (\<forall>b bs. gb_ptr b = p \<longrightarrow> read_buffer (ff_mem st) b = Some bs \<longrightarrow> read_buffer (ff_mem st') b = Some bs)
    \<and> (\<forall>s. read_cstring (ff_mem st) p = Some s \<longrightarrow> read_cstring (ff_mem st') p = Some s)"
proof -
  have "mem_wf (ff_mem st)" using ffi_run_mem_wf [OF assms(1)] by (simp add: ffi_init_def mem_wf_new)
  then have keep: "mm_blocks (ff_mem st) p = Some b \<Longrightarrow> mm_blocks (ff_mem st') p = Some b" for b
    using ffi_run_blocks [OF assms(2)] assms(3) by blast
  then show ?thesis
    by (auto simp: read_buffer_def read_cstring_def split: option.splits block.splits if_splits)
qed

theorem ffi_blocks_stable_witness:
  "\<exists>st us st' vs s. ffi_run toy_libs [Util Version] ffi_init = Some (st, us)
    \<and> ffi_run toy_libs [Util LastError, Gtp_Api GtpCreate, Util Version] st = Some (st', vs)
    \<and> read_cstring (ff_mem st) 2 = Some s \<and> read_cstring (ff_mem st') 2 = Some s"
proof -
  let ?v = "gbp_version (ffi_init :: toy_state)"
  have st: "ffi_run toy_libs [Util Version] ffi_init = Some (fst ?v, [VStr (snd ?v)])"
    by (simp add: with_value_def split: prod.split)
  have ptr: "snd ?v = 2"
    by (simp add: gbp_version_def ret_str_def alloc_cstring_def mem_alloc_def mem_new_def Let_def ffi_init_def)
  have "\<exists>s. read_cstring (ff_mem (fst ?v)) (snd ?v) = Some s"
    using read_alloc_cstring by (auto simp: gbp_version_def ret_str_def split: prod.split)
  then obtain s where s: "read_cstring (ff_mem (fst ?v)) 2 = Some s" using ptr by auto
  obtain st' vs where st': "ffi_run toy_libs [Util LastError, Gtp_Api GtpCreate, Util Version] (fst ?v) = Some (st', vs)"
    using ffi_run_exists [of "[Util LastError, Gtp_Api GtpCreate, Util Version]" toy_libs "fst ?v"]
    by (auto simp: with_value_def simp del: ffi_run.simps)
  have "\<forall>d\<in>set [Util LastError, Gtp_Api GtpCreate, Util Version]. 2 \<notin> frees d" by simp
  from ffi_blocks_stable [OF st st' this] st st' s show ?thesis by blast
qed

subsection \<open>Failures\<close>

fun failed :: "ffi_value \<Rightarrow> bool" where
  "failed (VBool b) = (\<not> b)"
| "failed (VHandle h) = (h = 0)"
| "failed (VU32 u) = (u = 0)"
| "failed (VBuf b) = (b = buffer_empty)"
| "failed (VBufLeaf b l) = (b = buffer_empty)"
| "failed (VGid g) = (g = None)"
| "failed _ = False"

text \<open>
  What each exported function does with the error slot. Most functions that can fail clear it first and
  answer a failure value (\<open>Reports\<close>). The lookup of an error code sets it without clearing it; the function
  that takes wire bytes answers JSON and reports bad handles only through the slot; the functions that
  accept a plaintext clear it and answer JSON; all others leave it alone.
\<close>

datatype slot_use = Reports | Lookup u16 | Wire i32 i32 | Clears | Keeps

fun slot :: "ffi_call \<Rightarrow> slot_use" where
  "slot (Util c) = (case c of FrameEncodeV _ _ _ _ _ _ _ _ _ \<Rightarrow> Reports | ErrorLookup code \<Rightarrow> Lookup code | _ \<Rightarrow> Keeps)"
| "slot (Mls_Api c) = (case c of MlsDestroy _ \<Rightarrow> Keeps | MlsEpoch _ \<Rightarrow> Keeps | _ \<Rightarrow> Reports)"
| "slot (Node_Api c) =
     (case c of NodeCreate _ _ \<Rightarrow> Reports | NodeSendControl _ _ _ _ _ _ _ _ \<Rightarrow> Reports | NodeOnWire _ nh mh _ \<Rightarrow> Wire nh mh
      | _ \<Rightarrow> Keeps)"
| "slot (Gtp_Api c) = (case c of GtpSend _ _ _ _ _ _ _ \<Rightarrow> Reports | GtpAccept _ _ _ _ \<Rightarrow> Clears | _ \<Rightarrow> Keeps)"
| "slot (Gap_Api c) = (case c of GapSend _ _ _ _ _ _ _ _ _ \<Rightarrow> Reports | GapAccept _ _ _ _ _ \<Rightarrow> Clears | _ \<Rightarrow> Keeps)"
| "slot (Gsp_Api c) =
     (case c of GspSend _ _ _ _ _ _ _ _ \<Rightarrow> Reports | GspSendWithArgs _ _ _ _ _ _ _ _ _ \<Rightarrow> Reports
      | GspAccept _ _ _ _ \<Rightarrow> Clears | _ \<Rightarrow> Keeps)"
| "slot (Sframe_Api c) = (case c of SframeSessionFree _ \<Rightarrow> Keeps | SframeEncryptorFree _ \<Rightarrow> Keeps | _ \<Rightarrow> Reports)"

definition slot_outcome where
  "slot_outcome u st st' v =
     (case u of Reports \<Rightarrow> (failed v \<longleftrightarrow> ff_error st' \<noteq> [])
      | Lookup code \<Rightarrow>
          (case lookup code of None \<Rightarrow> failed v \<and> ff_error st' = ''unknown error code 0x'' @ hex4 code
           | Some _ \<Rightarrow> \<not> failed v \<and> ff_error st' = ff_error st)
      | Wire nh mh \<Rightarrow> (ff_error st' \<noteq> [] \<longleftrightarrow> reg_get (ff_nodes st) nh = None \<or> reg_get (ff_mls st) mh = None)
      | Clears \<Rightarrow> ff_error st' = []
      | Keeps \<Rightarrow> ff_error st' = ff_error st)"

lemma snd_ret_vec: "mem_wf (ff_mem st) \<Longrightarrow> snd (ret_vec v st) \<noteq> buffer_empty"
  using buffer_from_vec_not_empty by (auto simp: ret_vec_def split: prod.splits)

lemma processed_code_not_0 [simp]: "processed_code k \<noteq> 0"
  by (cases k) simp_all

lemmas report_simps = ffi_prims snd_ret_vec buffer_empty_def [symmetric]

lemma mls_slot:
  assumes "mls_step L c st = Some (st', v)" "mem_wf (ff_mem st)"
    and "\<And>w r h. reg_insert w (ff_mls st) = (r, h) \<Longrightarrow> h \<noteq> 0"
  shows "slot_outcome (slot (Mls_Api c)) st st' v"
  using assms
  by (cases c) (auto simp: slot_outcome_def report_simps mls_defs split: option.splits sum.splits prod.splits)

lemma node_slot:
  assumes "node_step L c st = Some (st', v)" "mem_wf (ff_mem st)"
    and "\<And>w r h. reg_insert w (ff_nodes st) = (r, h) \<Longrightarrow> h \<noteq> 0"
  shows "slot_outcome (slot (Node_Api c)) st st' v"
  using assms
  by (cases c) (auto simp: slot_outcome_def report_simps node_defs split: option.splits sum.splits prod.splits)

lemma client_slot:
  assumes "mem_wf (ff_mem st)"
  shows "gtp_step L c st = Some (st', v) \<Longrightarrow> slot_outcome (slot (Gtp_Api c)) st st' v"
    and "gap_step L d st = Some (st', v) \<Longrightarrow> slot_outcome (slot (Gap_Api d)) st st' v"
    and "gsp_step L e st = Some (st', v) \<Longrightarrow> slot_outcome (slot (Gsp_Api e)) st st' v"
  subgoal using assms
    by (cases c) (auto simp: slot_outcome_def report_simps gtp_defs split: option.splits sum.splits prod.splits)
  subgoal using assms
    by (cases d) (auto simp: slot_outcome_def report_simps gap_defs split: option.splits sum.splits prod.splits)
  subgoal using assms
    by (cases e) (auto simp: slot_outcome_def report_simps gsp_defs split: option.splits sum.splits prod.splits)
  done

lemma util_slot:
  "util_step L c st = Some (st', v) \<Longrightarrow> mem_wf (ff_mem st) \<Longrightarrow> slot_outcome (slot (Util c)) st st' v"
  by (cases c)
    (auto simp: slot_outcome_def report_simps util_defs split: option.splits prod.splits)

lemma sframe_slot:
  assumes "sframe_step L c st = Some (st', v)" "mem_wf (ff_mem st)"
    and "\<And>w r h. reg_insert w (ff_sessions st) = (r, h) \<Longrightarrow> h \<noteq> 0"
    and "\<And>w r h. reg_insert w (ff_encryptors st) = (r, h) \<Longrightarrow> h \<noteq> 0"
  shows "slot_outcome (slot (Sframe_Api c)) st st' v"
  using assms
  by (cases c) (auto simp: slot_outcome_def report_simps sframe_defs split: option.splits sum.splits prod.splits if_splits)

text \<open>
  C18. What every exported function leaves in the error slot, in every state reached by fewer than \<open>2 ^ 31 - 1\<close> calls.
  A function that clears the slot and answers a failure value (0, \<^verbatim>\<open>false\<close> or the null buffer) does so exactly when it
  leaves a text there; a buffer that is returned for an empty result is not the null buffer.
  \<^verbatim>\<open>gbp_error_lookup\<close> answers the null buffer and sets the text exactly for an unknown code, and for a known
  one leaves the slot as it was, so that the text of an earlier failure may still be there. \<^verbatim>\<open>gbp_node_on_wire\<close>
  leaves a text exactly when a handle is unknown. The functions that accept a plaintext leave the slot empty, whatever
  they answer, and every other function leaves it as it was.
\<close>

theorem ffi_errors_reported:
  assumes "ffi_run L cs ffi_init = Some (st, vs)" and "length cs < 2 ^ 31 - 1"
    and "ffi_step L c st = Some (st', v)"
  shows "slot_outcome (slot c) st st' v"
proof -
  have inv: "ffi_inv (length cs) st" using ffi_run_inv [OF assms(1) ffi_inv_init [of 0]] assms(2) by simp
  then have m: "mem_wf (ff_mem st)" by (simp add: ffi_inv_def)
  have fits: "reg_fits (length cs) (ff_mls st)" "reg_fits (length cs) (ff_nodes st)"
    "reg_fits (length cs) (ff_sessions st)" "reg_fits (length cs) (ff_encryptors st)"
    using inv by (simp_all add: ffi_inv_def)
  have h: "reg_fits (length cs) r \<Longrightarrow> reg_insert w r = (r', h) \<Longrightarrow> h \<noteq> 0" for r r' :: "'z registry" and w h
    by (rule reg_fits_insert(1) [OF _ assms(2)])
  note slots = util_slot [OF _ m] mls_slot [OF _ m h [OF fits(1)]] node_slot [OF _ m h [OF fits(2)]]
    sframe_slot [OF _ m h [OF fits(3)] h [OF fits(4)]] client_slot [OF m]
  show ?thesis using assms(3) by (cases c) (simp_all only: ffi_step.simps slots)
qed

theorem ffi_errors_reported_witness:
  "\<exists>st v st' v'. ffi_run toy_libs [Mls_Api (MlsFinalizeCommit 5)] ffi_init = Some (st, [v]) \<and> failed v
    \<and> ffi_step toy_libs (Util (ErrorLookup UNSUPPORTED_VERSION)) st = Some (st', v') \<and> \<not> failed v' \<and> ff_error st' \<noteq> []"
proof -
  obtain st v where st: "ffi_run toy_libs [Mls_Api (MlsFinalizeCommit 5)] ffi_init = Some (st, [v])" "failed v" "ff_error st \<noteq> []"
    by (simp add: with_value_def gbp_mls_finalize_commit_def ffi_prims ffi_init_def reg_new_def reg_get_def)
  obtain st' v' where s: "ffi_step toy_libs (Util (ErrorLookup UNSUPPORTED_VERSION)) st = Some (st', v')"
    by (simp add: with_value_def)
  have "slot_outcome (slot (Util (ErrorLookup UNSUPPORTED_VERSION))) st st' v'" by (rule ffi_errors_reported [OF st(1) _ s]) simp
  then have "\<not> failed v' \<and> ff_error st' = ff_error st" by (simp add: slot_outcome_def lookup_def)
  then show ?thesis using st s by auto
qed

subsection \<open>Events\<close>

lemma node_state_display_inject [simp]: "node_state_display a = node_state_display b \<longleftrightarrow> a = b"
  by (cases a; cases b) simp_all

lemma stream_code_inject [simp]: "(ucast (stream_as_u8 a) :: u32) = ucast (stream_as_u8 b) \<longleftrightarrow> a = b"
  by (cases a; cases b) simp_all

text \<open>
  Events lose nothing on their way to the caller. Different events of a node give different records for
  the JSON encoder: states by their names, streams, opcodes, classes and codecs by their numbers, byte strings
  by their Base64 text.
\<close>

theorem events_lossless: "inj dto"
proof (rule injI)
  fix e e' assume "dto e = dto e'"
  then show "e = e'"
    by (cases e; cases e')
      (auto simp: codec_wire.enc_inj opcode_wire.enc_inj class_wire.enc_inj intro: delivered_payload.equality)
qed

subsection \<open>Text from process to process\<close>

text \<open>The texts of the JSON encoder hold no NUL character: JSON escapes the control characters.\<close>

definition json_ok where
  "json_ok L \<longleftrightarrow>
     (\<forall>ds t. lb_json_events L ds = Some t \<longrightarrow> CHR 0x00 \<notin> set t) \<and> (\<forall>r t. lb_json_gtp L r = Some t \<longrightarrow> CHR 0x00 \<notin> set t)"

lemma read_ret_str:
  "ret_str s st = (st', p) \<Longrightarrow> CHR 0x00 \<notin> set s \<Longrightarrow> read_cstring (ff_mem st') p = Some s"
  using read_alloc_cstring [of s "ff_mem st"]
  by (auto simp: ret_str_def split: prod.splits intro!: map_idI)

text \<open>
  C4. A text message gets from one process to another through the C interface. One process holds a client, an active
  node and an MLS context, the other a client, a node in step with it and a context that exports the
  same text key. The buffer returned by \<^verbatim>\<open>gtp_client_send\<close> is the target as four little-endian bytes and then the
  wire bytes; given these, \<^verbatim>\<open>gbp_node_on_wire\<close> of the other process returns the JSON text of exactly one payload
  event, and \<^verbatim>\<open>gtp_client_accept\<close>, given the plaintext that the event carries, returns the JSON text of
  a new message with the sender, the message id and the text that were sent.
\<close>

theorem text_through_c_abi:
  assumes "reads_back (lb_frame L)" and "gtp_codecs_ok (lb_gtp L)" and "aead_correct (lb_aead L)" and "json_ok L"
    and "reg_get (ff_gtps sa) ch = Some ca" and "reg_get (ff_nodes sa) nh = Some a" and "reg_get (ff_mls sa) mh = Some mla"
    and "reg_get (ff_gtps sb) ch' = Some cb" and "reg_get (ff_nodes sb) nh' = Some b" and "reg_get (ff_mls sb) mh' = Some mlb"
    and "aead_total (lb_aead L) (gtp_to_bytes (lb_gtp L) (gtp_plain (member_id a) mid msg) (codec_or_cbor codec))"
    and "same_stream_key (lb_om L) Text mla mlb"
    and "assert_can_send a = Inr ()" and "in_step a b" and "events b = []"
    and "window_open (Text, member_stream_id a 1) 1 a b" and "length msg < 2 ^ 32" and "utf8_valid msg"
    and "gtp_wf cb" and "(member_id a, mid) \<notin> bs_set (gtp_seen (gtp_sync_epoch (current_epoch b) cb))"
  shows "\<exists>sa' buf wire sb' ptr p sb'' ptr'.
      gtp_client_send L ch nh mh target mid msg codec sa = (sa', buf)
    \<and> read_buffer (ff_mem sa') buf = Some (le_bytes32 target @ wire)
    \<and> gbp_node_on_wire L now nh' mh' wire sb = (sb', ptr)
    \<and> read_cstring (ff_mem sb') ptr = Some (events_to_json L [PayloadReceived p])
    \<and> gtp_client_accept L ch' (current_epoch b) (dp_plaintext p) (codec_as_u8 (dp_codec p)) sb' = (sb'', ptr')
    \<and> read_cstring (ff_mem sb'') ptr'
        = Some (opt_or (lb_json_gtp L (gtp_outcome (Inr (GtpNew (gtp_plain (member_id a) mid msg))))) [])"
proof -
  obtain ca' a' out b' p where send:
      "gtp_send (lb_gtp L) (lb_frame L) (mls_sealer (lb_om L) (lb_aead L) mla) target mid msg (codec_or_cbor codec) ca a
        = (ca', a', Inr out)" "of_to out = target"
    and recv: "on_wire (lb_frame L) (lb_control L) (mls_sealer (lb_om L) (lb_aead L) mlb) now (of_wire out) b
        = (b', [PayloadReceived p])"
    and acc: "snd (gtp_accept (lb_gtp L) (dp_plaintext p) (current_epoch b) (dp_codec p) cb)
        = Inr (GtpNew (gtp_plain (member_id a) mid msg))"
    by (rule text_exchange [OF assms(1-3,11-17,19,20)])
  obtain sa' buf where ret0: "ret_vec (le_bytes32 target @ of_wire out)
      (put_node nh a' ((clear_last_error sa)\<lparr>ff_gtps := reg_put ch ca' (ff_gtps sa)\<rparr>)) = (sa', buf)" by force
  then have sa': "gtp_client_send L ch nh mh target mid msg codec sa = (sa', buf)"
    using assms(5-7,18) send by (simp add: gtp_client_send_def ffi_prims utf8_error_at_None [THEN iffD2] ffi_sealer_def)
  let ?s = "put_node nh' b' (clear_last_error sb)"
  obtain sb' ptr where ret: "ret_str (events_to_json L [PayloadReceived p]) ?s = (sb', ptr)" by force
  then have sb': "gbp_node_on_wire L now nh' mh' (of_wire out) sb = (sb', ptr)"
    using assms(9,10) recv by (simp add: gbp_node_on_wire_def ffi_prims ffi_sealer_def)
  have "CHR 0x00 \<notin> set (events_to_json L [PayloadReceived p])"
    using assms(4) by (auto simp: events_to_json_def json_ok_def opt_or_def split: option.splits)
  note ev = read_ret_str [OF ret this]
  have gtps: "ff_gtps sb' = ff_gtps sb"
    using ret_str_sel(6) [of "events_to_json L [PayloadReceived p]" ?s] unfolding ret by (simp add: ffi_prims)
  obtain cb' where acc': "gtp_accept (lb_gtp L) (dp_plaintext p) (current_epoch b) (dp_codec p) cb
      = (cb', Inr (GtpNew (gtp_plain (member_id a) mid msg)))" using acc by (metis surjective_pairing)
  let ?out = "opt_or (lb_json_gtp L (gtp_outcome (Inr (GtpNew (gtp_plain (member_id a) mid msg))))) []"
  let ?s2 = "(clear_last_error sb')\<lparr>ff_gtps := reg_put ch' cb' (ff_gtps sb')\<rparr>"
  obtain sb'' ptr' where ret2: "ret_str ?out ?s2 = (sb'', ptr')" by force
  have "codec_or_cbor (codec_as_u8 (dp_codec p)) = dp_codec p" by (simp add: codec_or_cbor_def opt_or_def codec_wire.dec_enc)
  then have "gtp_client_accept L ch' (current_epoch b) (dp_plaintext p) (codec_as_u8 (dp_codec p)) sb' = (sb'', ptr')"
    using assms(8) gtps acc' ret2 by (simp add: gtp_client_accept_def ffi_prims)
  moreover have "read_cstring (ff_mem sb'') ptr' = Some ?out"
    by (rule read_ret_str [OF ret2]) (use assms(4) in \<open>auto simp: json_ok_def opt_or_def split: option.splits\<close>)
  ultimately show ?thesis using sa' read_ret_vec [OF ret0] sb' ev by blast
qed

text \<open>A process with one client, one node and one MLS context, as the constructors would register them.\<close>

definition toy_process :: "group_node \<Rightarrow> toy_state" where
  "toy_process n = ffi_init\<lparr>ff_gtps := reg_put 1 gtp_client_new reg_new, ff_nodes := reg_put 1 n reg_new,
     ff_mls := reg_put 1 toy_context reg_new\<rparr>"

lemma toy_process_regs [simp]:
  "reg_get (ff_gtps (toy_process n)) 1 = Some gtp_client_new" "reg_get (ff_nodes (toy_process n)) 1 = Some n"
  "reg_get (ff_mls (toy_process n)) 1 = Some toy_context"
  by (simp_all add: toy_process_def reg_get_def reg_put_def)

lemma toy_json_ok: "json_ok toy_libs"
  by (auto simp: json_ok_def toy_libs_def)

lemma toy_json_new: "go_status r = ''new'' \<Longrightarrow> opt_or (lb_json_gtp toy_libs r) [] = ''new''"
  by (simp add: toy_libs_def opt_or_def)

theorem text_through_c_abi_witness:
  "\<exists>sa' buf wire sb' ptr p sb'' ptr' r.
      gtp_client_send toy_libs 1 1 1 2 9 [72, 105] 1 (toy_process (active_node 1)) = (sa', buf)
    \<and> read_buffer (ff_mem sa') buf = Some (le_bytes32 2 @ wire)
    \<and> gbp_node_on_wire toy_libs 0 1 1 wire (toy_process (active_node 2)) = (sb', ptr)
    \<and> read_cstring (ff_mem sb') ptr = Some (events_to_json toy_libs [PayloadReceived p])
    \<and> gtp_client_accept toy_libs 1 0 (dp_plaintext p) (codec_as_u8 (dp_codec p)) sb' = (sb'', ptr')
    \<and> read_cstring (ff_mem sb'') ptr' = Some r \<and> r = ''new''"
proof -
  have codec: "codec_or_cbor 1 = Protobuf" by (simp add: codec_or_cbor_def opt_or_def codec_from_u8_def)
  have "length (gtp_to_bytes toy_gtp_codecs (gtp_plain 1 9 [72, 105]) Protobuf) < 2 ^ 32 - 44"
    by (simp add: gtp_to_bytes_def toy_gtp_codecs_def toy_gtp_proto_def field_codec_def put_fields_def bits_of_def
        gtp_to_proto_def gtp_plain_def)
  note tot = toy_aead_total [OF this]
  have fresh: "(member_id (active_node 1), 9) \<notin> bs_set (gtp_seen (gtp_sync_epoch (current_epoch (active_node 2)) gtp_client_new))"
    by (simp add: gtp_sync_epoch_def gtp_client_new_def)
  have win: "window_open (Text, member_stream_id (active_node 1) 1) 1 (active_node 1) (active_node 2)"
    by (simp add: window_open_def)
  have send: "assert_can_send (active_node 1) = Inr ()" by (simp add: assert_can_send_def)
  from text_through_c_abi [where L = toy_libs and sa = "toy_process (active_node 1)" and sb = "toy_process (active_node 2)"
      and a = "active_node 1" and b = "active_node 2" and cb = gtp_client_new and ca = gtp_client_new
      and mla = toy_context and mlb = toy_context and ch = 1 and nh = 1 and mh = 1 and ch' = 1 and nh' = 1 and mh' = 1
      and target = 2 and now = 0 and msg = "[72, 105]" and mid = 9 and codec = 1]
  show ?thesis using codec tot fresh win send toy_frame_codec toy_gtp_codecs_ok toy_aead_correct toy_json_ok toy_same_key gtp_wf_new
    by (simp add: toy_json_new)
qed

end
