(* ===== verification/Wasm_Props.thy ===== *)
theory Wasm_Props
  imports Gbp_Wasm Ffi_Props
begin

section \<open>Properties of the browser bindings\<close>

text \<open>
  The bindings for browsers promise the surface of the C interface. What the two have in common is stated
  call by call: the same objects change in the same way and the same bytes leave.
\<close>

subsection \<open>Enumerations\<close>

text \<open>Every variant of the core enumerations is exported under its number.\<close>

lemma js_enums_complete:
  "(opcode_debug oc, unat (opcode_as_u16 oc)) \<in> set js_control_opcode"
  "unat (signal_as_u32 sig) \<in> snd ` set js_signal_type"
  "unat (codec_as_u8 cd) \<in> snd ` set js_payload_codec"
  "unat (suite_as_u8 su) \<in> snd ` set js_cipher_suite"
  by ((cases oc; simp add: js_control_opcode_def), (cases sig; simp add: js_signal_type_def),
      (cases cd; simp add: js_payload_codec_def), (cases su; simp add: js_cipher_suite_def))

lemma codec_from_Some [simp]: "codec_from (Some v) = codec_or_cbor v"
  by (simp add: codec_from_def codec_or_cbor_def)

subsection \<open>Invitations\<close>

lemma invite_many_single: "js_mls_invite_many L r [b] j = js_mls_invite L r b j"
  by (simp add: js_mls_invite_many_def js_mls_invite_def split: sum.split)

text \<open>One bad key package refuses the whole invitation, and the group stays as it was.\<close>

lemma invite_many_all_or_none:
  assumes "js_key_package L b = Inl e" "b \<in> set bs"
  shows "\<exists>e. js_mls_invite_many L r bs j = (j, Inl e)"
proof -
  have "\<exists>e. js_key_packages L bs = Inl e"
    using assms by (induction bs) (auto split: sum.splits)
  then show ?thesis by (auto simp: js_mls_invite_many_def)
qed

subsection \<open>Calls of the C interface and of the browser\<close>

text \<open>The frame a caller gets: of C in its buffer, of JavaScript in an object; in both the target comes with the bytes.\<close>

definition c_frame where
  "c_frame st b = (if b = buffer_empty then None else read_buffer (ff_mem st) b)"

fun js_frame :: "js \<Rightarrow> bytes option" where
  "js_frame (JObj [(_, JBytes wire), (_, JNum to)]) = Some (le_bytes32 (word_of_nat to) @ wire)"
| "js_frame _ = None"

definition thrown :: "string + js \<Rightarrow> string" where
  "thrown r = (case r of Inl e \<Rightarrow> e | Inr _ \<Rightarrow> [])"

definition returned :: "string + js \<Rightarrow> bytes option" where
  "returned r = (case r of Inl _ \<Rightarrow> None | Inr v \<Rightarrow> js_frame v)"

lemma outbound_not_null [simp]: "outbound_to_js out \<noteq> JNull"
  by (simp add: outbound_to_js_def)

lemma js_frame_outbound [simp]: "js_frame (outbound_to_js out) = Some (le_bytes32 (of_to out) @ of_wire out)"
  by (simp add: outbound_to_js_def)

lemma c_frame_ret_vec [simp]:
  "mem_wf (ff_mem st) \<Longrightarrow> c_frame (fst (ret_vec v st)) (snd (ret_vec v st)) = Some v"
  using snd_ret_vec [of st v] read_ret_vec [of v st "fst (ret_vec v st)" "snd (ret_vec v st)"] by (simp add: c_frame_def)

lemma c_frame_fail [simp]: "c_frame st buffer_empty = None"
  by (simp add: c_frame_def)

lemma reg_get_put [simp]: "reg_get (reg_put h v r) h' = (if h' = h then Some v else reg_get r h')"
  by (simp add: reg_get_def reg_put_def)

lemmas mirror_simps = ffi_prims utf8_error_at_None [THEN iffD2] thrown_def returned_def

lemma mirror_text:
  assumes "mem_wf (ff_mem st)" "reg_get (ff_nodes st) nh = Some n" "reg_get (ff_mls st) mh = Some (jm_inner j)"
    "reg_get (ff_gtps st) h = Some c" "utf8_valid msg"
    "gtp_client_send L h nh mh target mid msg codec st = (st', b)" "js_gtp_send L n j target mid msg (Some codec) c = (c', n', v)"
  shows "reg_get (ff_gtps st') h = Some c' \<and> reg_get (ff_nodes st') nh = Some n' \<and> c_frame st' b = js_frame v
    \<and> (v = JNull \<longleftrightarrow> ff_error st' \<noteq> [])"
proof -
  have "st' = fst (gtp_client_send L h nh mh target mid msg codec st)" "b = snd (gtp_client_send L h nh mh target mid msg codec st)"
    using assms(6) by simp_all
  then show ?thesis using assms(1-5,7)
    by (auto simp: gtp_client_send_def js_gtp_send_def mirror_simps split: prod.splits sum.splits)
qed

lemma mirror_audio:
  assumes "mem_wf (ff_mem st)" "reg_get (ff_nodes st) nh = Some n" "reg_get (ff_mls st) mh = Some (jm_inner j)"
    "reg_get (ff_gaps st) h = Some c"
    "gap_client_send L now h nh mh target src ts opus codec st = (st', b)"
    "js_gap_send L now n j target src ts opus (Some codec) c = (c', n', v)"
  shows "reg_get (ff_gaps st') h = Some c' \<and> reg_get (ff_nodes st') nh = Some n' \<and> c_frame st' b = js_frame v
    \<and> (v = JNull \<longleftrightarrow> ff_error st' \<noteq> [])"
proof -
  have "st' = fst (gap_client_send L now h nh mh target src ts opus codec st)"
    "b = snd (gap_client_send L now h nh mh target src ts opus codec st)"
    using assms(5) by simp_all
  then show ?thesis using assms(1-4,6)
    by (auto simp: gap_client_send_def js_gap_send_def mirror_simps split: prod.splits sum.splits)
qed

lemma mirror_signal:
  assumes "mem_wf (ff_mem st)" "reg_get (ff_nodes st) nh = Some n" "reg_get (ff_mls st) mh = Some (jm_inner j)"
    "reg_get (ff_gsps st) h = Some c"
    "gsp_client_send_with_args L h nh mh target sig role rid args codec st = (st', b)"
    "js_gsp_send_with_args L n j target sig role rid args (Some codec) c = (c', n', v)"
  shows "reg_get (ff_gsps st') h = Some c' \<and> reg_get (ff_nodes st') nh = Some n' \<and> c_frame st' b = returned v
    \<and> ff_error st' = thrown v"
proof -
  have "st' = fst (gsp_client_send_with_args L h nh mh target sig role rid args codec st)"
    "b = snd (gsp_client_send_with_args L h nh mh target sig role rid args codec st)"
    using assms(5) by simp_all
  then show ?thesis using assms(1-4,6)
    by (auto simp: gsp_client_send_with_args_def js_gsp_send_with_args_def mirror_simps split: prod.splits sum.splits)
qed

lemma mirror_control:
  assumes "mem_wf (ff_mem st)" "reg_get (ff_nodes st) nh = Some n" "reg_get (ff_mls st) mh = Some (jm_inner j)"
    "gbp_node_send_control L now nh mh target opc tid rid args st = (st', b)"
    "js_node_send_control L now j target opc tid rid args n = (n', v)"
  shows "reg_get (ff_nodes st') nh = Some n' \<and> c_frame st' b = returned v \<and> ff_error st' = thrown v"
proof -
  have "st' = fst (gbp_node_send_control L now nh mh target opc tid rid args st)"
    "b = snd (gbp_node_send_control L now nh mh target opc tid rid args st)"
    using assms(4) by simp_all
  then show ?thesis using assms(1-3,5)
    by (auto simp: gbp_node_send_control_def js_node_send_control_def mirror_simps split: prod.splits sum.splits)
qed

lemma mirror_wire:
  assumes "json_ok L" "reg_get (ff_nodes st) nh = Some n" "reg_get (ff_mls st) mh = Some (jm_inner j)"
    "gbp_node_on_wire L now nh mh wire st = (st', p)" "js_node_on_wire L now j wire n = (n', vs)"
  shows "\<exists>evs. vs = map event_to_js evs \<and> read_cstring (ff_mem st') p = Some (events_to_json L evs)
    \<and> reg_get (ff_nodes st') nh = Some n'"
proof -
  obtain evs where evs: "on_wire (lb_frame L) (lb_control L) (ffi_sealer L (jm_inner j)) now wire n = (n', evs)"
    "vs = map event_to_js evs"
    using assms(5) by (auto simp: js_node_on_wire_def split: prod.splits)
  have ret: "ret_str (events_to_json L evs) (put_node nh n' (clear_last_error st)) = (st', p)"
    using assms(2-4) evs(1) by (simp add: gbp_node_on_wire_def ffi_prims)
  have "CHR 0x00 \<notin> set (events_to_json L evs)"
    using assms(1) by (auto simp: events_to_json_def json_ok_def opt_or_def split: option.splits)
  then have "read_cstring (ff_mem st') p = Some (events_to_json L evs)" by (rule read_ret_str [OF ret])
  moreover have "reg_get (ff_nodes st') nh = Some n'"
    using ret_str_sel(5) [of "events_to_json L evs" "put_node nh n' (clear_last_error st)"] unfolding ret
    by (simp add: ffi_prims)
  ultimately show ?thesis using evs(2) by blast
qed

text \<open>
  C5. The browser bindings mirror the C interface. Let a C process hold, behind its handles, the objects that a browser
  holds directly. Then sending a text, an audio frame, a signal with arguments and a control message
  through either of them leaves the same client and the same node, and yields the same frame bytes for the same target
  or fails in both. A failing signal or control message throws the very text that C leaves in its error
  slot. A failing text or audio frame does not: the browser returns null, exactly when C leaves a text, and the
  text is lost. The same wire bytes give the same node and the same sequence of events, as JavaScript objects
  in the browser and as JSON text in C.
\<close>

theorem browser_mirrors_c_abi:
  assumes "mem_wf (ff_mem st)" and "json_ok L" and "utf8_valid msg"
    and "reg_get (ff_nodes st) nh = Some n" and "reg_get (ff_mls st) mh = Some (jm_inner j)"
    and "reg_get (ff_gtps st) th = Some tc" and "reg_get (ff_gaps st) ah = Some ac" and "reg_get (ff_gsps st) sh = Some sc"
  shows "(\<forall>st' b c n' v. gtp_client_send L th nh mh target mid msg codec st = (st', b) \<longrightarrow>
        js_gtp_send L n j target mid msg (Some codec) tc = (c, n', v) \<longrightarrow>
        reg_get (ff_gtps st') th = Some c \<and> reg_get (ff_nodes st') nh = Some n' \<and> c_frame st' b = js_frame v
        \<and> (v = JNull \<longleftrightarrow> ff_error st' \<noteq> []))
    \<and> (\<forall>st' b c n' v. gap_client_send L now ah nh mh target src ts opus codec st = (st', b) \<longrightarrow>
        js_gap_send L now n j target src ts opus (Some codec) ac = (c, n', v) \<longrightarrow>
        reg_get (ff_gaps st') ah = Some c \<and> reg_get (ff_nodes st') nh = Some n' \<and> c_frame st' b = js_frame v
        \<and> (v = JNull \<longleftrightarrow> ff_error st' \<noteq> []))
    \<and> (\<forall>st' b c n' v. gsp_client_send_with_args L sh nh mh target sig role rid args codec st = (st', b) \<longrightarrow>
        js_gsp_send_with_args L n j target sig role rid args (Some codec) sc = (c, n', v) \<longrightarrow>
        reg_get (ff_gsps st') sh = Some c \<and> reg_get (ff_nodes st') nh = Some n' \<and> c_frame st' b = returned v
        \<and> ff_error st' = thrown v)
    \<and> (\<forall>st' b n' v. gbp_node_send_control L now nh mh target opc tid rid args st = (st', b) \<longrightarrow>
        js_node_send_control L now j target opc tid rid args n = (n', v) \<longrightarrow>
        reg_get (ff_nodes st') nh = Some n' \<and> c_frame st' b = returned v \<and> ff_error st' = thrown v)
    \<and> (\<forall>st' p n' vs. gbp_node_on_wire L now nh mh wire st = (st', p) \<longrightarrow> js_node_on_wire L now j wire n = (n', vs) \<longrightarrow>
        (\<exists>evs. vs = map event_to_js evs \<and> read_cstring (ff_mem st') p = Some (events_to_json L evs)
          \<and> reg_get (ff_nodes st') nh = Some n'))"
  by (intro conjI)
    ((meson mirror_text [OF assms(1,4,5,6,3)]), (meson mirror_audio [OF assms(1,4,5,7)]),
      (meson mirror_signal [OF assms(1,4,5,8)]), (meson mirror_control [OF assms(1,4,5)]), (meson mirror_wire [OF assms(2,4,5)]))

definition toy_full_process :: "group_node \<Rightarrow> toy_state" where
  "toy_full_process n = (toy_process n)\<lparr>ff_gaps := reg_put 1 gap_client_new reg_new, ff_gsps := reg_put 1 gsp_client_new reg_new\<rparr>"

theorem browser_mirrors_c_abi_witness:
  "\<exists>st' b n' v.
      gbp_node_send_control toy_libs 0 1 1 2 9 5 6 [1] (toy_full_process (active_node 1)) = (st', b)
    \<and> js_node_send_control toy_libs 0 \<lparr>jm_inner = toy_context, jm_kp_bytes = []\<rparr> 2 9 5 6 [1] (active_node 1) = (n', v)
    \<and> reg_get (ff_nodes st') 1 = Some n' \<and> c_frame st' b = returned v \<and> ff_error st' = thrown v"
proof -
  let ?st = "toy_full_process (active_node 1)" and ?j = "\<lparr>jm_inner = toy_context, jm_kp_bytes = []\<rparr>"
  have st: "mem_wf (ff_mem ?st)" "reg_get (ff_nodes ?st) 1 = Some (active_node 1)" "reg_get (ff_mls ?st) 1 = Some (jm_inner ?j)"
    "reg_get (ff_gtps ?st) 1 = Some gtp_client_new" "reg_get (ff_gaps ?st) 1 = Some gap_client_new"
    "reg_get (ff_gsps ?st) 1 = Some gsp_client_new"
    by (simp_all add: toy_full_process_def toy_process_def ffi_init_def mem_wf_new)
  have "utf8_valid []" by simp
  note mirror = browser_mirrors_c_abi [OF st(1) toy_json_ok this st(2-6), THEN conjunct2, THEN conjunct2, THEN conjunct2,
      THEN conjunct1, rule_format]
  obtain st' b n' v where "gbp_node_send_control toy_libs 0 1 1 2 9 5 6 [1] ?st = (st', b)"
    "js_node_send_control toy_libs 0 ?j 2 9 5 6 [1] (active_node 1) = (n', v)" by (metis surj_pair)
  with mirror [OF this] show ?thesis by blast
qed

end
