(* ===== verification/Gbp_Cli.thy ===== *)
theory Gbp_Cli
  imports Gbp_Stack Gbp_Transport Ffi_Handles
begin

section \<open>The command line (\<^verbatim>\<open>gbp-cli\<close>)\<close>

text \<open>
  The smoke runner of \<^verbatim>\<open>crates/gbp/cli/src/main.rs\<close>: a listener and a connector on the two ends of a TCP connection,
  which perform an MLS handshake and carry one text message. Each end is cut into its atomic parts, which end
  where the code awaits the socket; the two ends interleave freely. The connection is a queue of
  bytes in each direction. A read waits until it has its bytes or the peer is gone; a write is taken in full
  while the peer is there, and after that the socket may take any part of it. What was written before an end
  terminated stays readable. The libraries are parameters, and so are the random bytes they draw.
\<close>

subsection \<open>Arguments\<close>

datatype cli_command = Listen string | Connect string

definition cli_args :: "string list \<Rightarrow> string + cli_command" where
  "cli_args args =
     (let mode = (if 1 < length args then args ! 1 else ''listen'');
          addr = (if 2 < length args then args ! 2 else ''127.0.0.1:7878'')
      in if mode = ''listen'' then Inr (Listen addr)
         else if mode = ''connect'' then Inr (Connect addr)
         else Inl (''unknown mode '' @ mode @ ''; use listen|connect''))"

subsection \<open>The two ends\<close>

record ('g, 'sg, 'st, 'kp, 'm, 'w, 'ki) cli_libs =
  cl_om :: "('g, 'sg, 'st, 'kp, 'm, 'w) openmls"
  cl_aead :: aead
  cl_frame :: "gbp_frame serialiser"
  cl_gtp :: "gtp_message serialiser"
  cl_kp_ser :: "'kp \<Rightarrow> string + bytes"
  cl_kp_de :: "bytes \<Rightarrow> string + 'ki"
  cl_kp_validate :: "'ki \<Rightarrow> string + 'kp"

datatype 'c listener = LStart | LJoin 'c | LFrame 'c | LDone gtp_message | LFail string

datatype 'c connector = CStart | CInvite 'c | CSend 'c | CDone | CFail string

definition socket :: "nat \<Rightarrow> sink" where
  "socket room = \<lparr>sk_taken = [], sk_room = room, sk_error = ''broken pipe''\<rparr>"

definition listener_start where
  "listener_start L r1 r2 r3 room =
     (case new_member (cl_om L) r1 r2 r3 (str_bytes ''bob'') of
        Inl e \<Rightarrow> ([], LFail (''mls init: '' @ mls_error_display e))
      | Inr (bob, kp) \<Rightarrow>
        (case cl_kp_ser L kp of Inl e \<Rightarrow> ([], LFail e)
         | Inr kp_bytes \<Rightarrow>
           (case write_blob kp_bytes (socket room) of
              (s, Inl e) \<Rightarrow> (sk_taken s, LFail (wire_error_display e))
            | (s, Inr _) \<Rightarrow> (sk_taken s, LJoin bob))))"

definition listener_join where
  "listener_join L bob src =
     (case read_blob src of (rest, Inl e) \<Rightarrow> (rest, LFail (wire_error_display e))
      | (rest, Inr welcome) \<Rightarrow>
        (case accept_welcome (cl_om L) bob welcome of
           (bob', Inl e) \<Rightarrow> (rest, LFail (''accept welcome: '' @ mls_error_display e))
         | (bob', Inr _) \<Rightarrow> (rest, LFrame bob')))"

definition listener_frame where
  "listener_frame L bob src =
     (case read_frame (cl_frame L) src of (rest, Inl e) \<Rightarrow> (rest, LFail (wire_error_display e))
      | (rest, Inr frame) \<Rightarrow>
        (case stream_type_typed frame of Inl e \<Rightarrow> (rest, LFail (codec_error_display e))
         | Inr st \<Rightarrow>
           (case mls_open (cl_om L) (cl_aead L) bob (label_for st) (f_sequence_no frame) (f_encrypted_payload frame) of
              Inl e \<Rightarrow> (rest, LFail (''aead open: '' @ mls_error_display e))
            | Inr pt \<Rightarrow>
              (case gtp_from_cbor (cl_gtp L) pt of Inl e \<Rightarrow> (rest, LFail (codec_error_display e))
               | Inr msg \<Rightarrow> (rest, LDone msg)))))"

definition connector_start where
  "connector_start L r1 r2 r3 =
     (case new_member (cl_om L) r1 r2 r3 (str_bytes ''alice'') of
        Inl e \<Rightarrow> CFail (''mls init: '' @ mls_error_display e)
      | Inr (alice, _) \<Rightarrow> CInvite alice)"

definition connector_invite where
  "connector_invite L r room alice src =
     (case read_blob src of (rest, Inl e) \<Rightarrow> (rest, [], CFail (wire_error_display e))
      | (rest, Inr kp_bytes) \<Rightarrow>
        (case cl_kp_de L kp_bytes of Inl e \<Rightarrow> (rest, [], CFail e)
         | Inr kp_in \<Rightarrow>
           (case cl_kp_validate L kp_in of Inl e \<Rightarrow> (rest, [], CFail (''bob kp validate: '' @ e))
            | Inr bob_kp \<Rightarrow>
              (case invite_full (cl_om L) r alice [bob_kp] of
                 (alice1, Inl e) \<Rightarrow> (rest, [], CFail (''invite: '' @ mls_error_display e))
               | (alice1, Inr (commit, welcome)) \<Rightarrow>
                 (case finalize_pending_commit (cl_om L) alice1 of
                    (alice2, Inl e) \<Rightarrow> (rest, [], CFail (''finalize: '' @ mls_error_display e))
                  | (alice2, Inr _) \<Rightarrow>
                    (case write_blob welcome (socket room) of
                       (s, Inl e) \<Rightarrow> (rest, sk_taken s, CFail (wire_error_display e))
                     | (s, Inr _) \<Rightarrow> (rest, sk_taken s, CSend alice2)))))))"

definition hello :: gtp_message where
  "hello = gtp_plain 1 0xCAFEF00D (str_bytes ''hello over real MLS'')"

definition hello_frame where
  "hello_frame L alice ct =
     frame_new (group_id_16 (cl_om L) alice) (mls_epoch (cl_om L) alice) 0 Text 201 ordered_reliable_ack 1 ct 0"

definition connector_send where
  "connector_send L room alice =
     (case mls_seal (cl_om L) (cl_aead L) alice LText 1 (gtp_to_cbor (cl_gtp L) hello) of
        Inl e \<Rightarrow> ([], CFail (''aead seal: '' @ mls_error_display e))
      | Inr ct \<Rightarrow>
        (case write_frame (cl_frame L) (hello_frame L alice ct) (socket room) of
           (s, Inl e) \<Rightarrow> (sk_taken s, CFail (wire_error_display e))
         | (s, Inr _) \<Rightarrow> (sk_taken s, CDone)))"

subsection \<open>The two ends together\<close>

record 'c cli =
  cf_l :: "'c listener"
  cf_c :: "'c connector"
  cf_lc :: bytes
  cf_cl :: bytes

definition cli_init :: "'c cli" where
  "cli_init = \<lparr>cf_l = LStart, cf_c = CStart, cf_lc = [], cf_cl = []\<rparr>"

fun l_ended :: "'c listener \<Rightarrow> bool" where
  "l_ended (LDone _) = True"
| "l_ended (LFail _) = True"
| "l_ended _ = False"

fun c_ended :: "'c connector \<Rightarrow> bool" where
  "c_ended CDone = True"
| "c_ended (CFail _) = True"
| "c_ended _ = False"

definition readable :: "bytes \<Rightarrow> bool \<Rightarrow> bool" where
  "readable src gone \<longleftrightarrow> gone \<or> snd (read_blob src) \<noteq> Inl (Io ''early eof'')"

definition takes :: "nat \<Rightarrow> bool \<Rightarrow> bool" where
  "takes room gone \<longleftrightarrow> gone \<or> MAX_FRAME + 4 \<le> room"

inductive cli_step for L where
  l_start: "cf_l s = LStart \<Longrightarrow> takes room (c_ended (cf_c s)) \<Longrightarrow> listener_start L r1 r2 r3 room = (out, l) \<Longrightarrow>
    cli_step L s (s\<lparr>cf_l := l, cf_lc := cf_lc s @ out\<rparr>)"
| l_join: "cf_l s = LJoin bob \<Longrightarrow> readable (cf_cl s) (c_ended (cf_c s)) \<Longrightarrow> listener_join L bob (cf_cl s) = (rest, l) \<Longrightarrow>
    cli_step L s (s\<lparr>cf_l := l, cf_cl := rest\<rparr>)"
| l_frame: "cf_l s = LFrame bob \<Longrightarrow> readable (cf_cl s) (c_ended (cf_c s)) \<Longrightarrow> listener_frame L bob (cf_cl s) = (rest, l) \<Longrightarrow>
    cli_step L s (s\<lparr>cf_l := l, cf_cl := rest\<rparr>)"
| c_start: "cf_c s = CStart \<Longrightarrow> connector_start L r1 r2 r3 = c \<Longrightarrow> cli_step L s (s\<lparr>cf_c := c\<rparr>)"
| c_invite: "cf_c s = CInvite alice \<Longrightarrow> readable (cf_lc s) (l_ended (cf_l s)) \<Longrightarrow> takes room (l_ended (cf_l s)) \<Longrightarrow>
    connector_invite L r room alice (cf_lc s) = (rest, out, c) \<Longrightarrow>
    cli_step L s (s\<lparr>cf_c := c, cf_lc := rest, cf_cl := cf_cl s @ out\<rparr>)"
| c_send: "cf_c s = CSend alice \<Longrightarrow> takes room (l_ended (cf_l s)) \<Longrightarrow> connector_send L room alice = (out, c) \<Longrightarrow>
    cli_step L s (s\<lparr>cf_c := c, cf_cl := cf_cl s @ out\<rparr>)"

inductive cli_reach for L where
  init: "cli_reach L 0 cli_init"
| step: "cli_reach L n s \<Longrightarrow> cli_step L s s' \<Longrightarrow> cli_reach L (Suc n) s'"

subsection \<open>No deadlock, and an end\<close>

fun l_rank :: "'c listener \<Rightarrow> nat" where
  "l_rank LStart = 3" | "l_rank (LJoin _) = 2" | "l_rank (LFrame _) = 1" | "l_rank _ = 0"

fun c_rank :: "'c connector \<Rightarrow> nat" where
  "c_rank CStart = 3" | "c_rank (CInvite _) = 2" | "c_rank (CSend _) = 1" | "c_rank _ = 0"

lemma l_rank_moves:
  "listener_start L r1 r2 r3 room = (out, l) \<Longrightarrow> l_rank l < 3"
  "listener_join L bob src = (rest, l) \<Longrightarrow> l_rank l < 2"
  "listener_frame L bob src = (rest, l) \<Longrightarrow> l_rank l < 1"
  by (auto simp: listener_start_def listener_join_def listener_frame_def split: sum.splits prod.splits)

lemma c_rank_moves:
  "c_rank (connector_start L r1 r2 r3) < 3"
  "connector_invite L r room alice src = (rest, out, c) \<Longrightarrow> c_rank c < 2"
  "connector_send L room alice = (out, c) \<Longrightarrow> c_rank c < 1"
  by (auto simp: connector_start_def connector_invite_def connector_send_def split: sum.splits prod.splits)

lemma cli_step_rank: "cli_step L s s' \<Longrightarrow> l_rank (cf_l s') + c_rank (cf_c s') < l_rank (cf_l s) + c_rank (cf_c s)"
  by (induction rule: cli_step.induct) (use l_rank_moves c_rank_moves in \<open>fastforce+\<close>)

lemma cli_reach_bound: "cli_reach L n s \<Longrightarrow> n + l_rank (cf_l s) + c_rank (cf_c s) \<le> 6"
  by (induction rule: cli_reach.induct) (auto simp: cli_init_def dest!: cli_step_rank)

text \<open>
  What is in flight: before the connector has answered nothing has come from it, and the listener is waiting for
  it with its key package written in full; after that a listener still waiting for the Welcome finds it complete.
\<close>

definition cli_inv :: "'c cli \<Rightarrow> bool" where
  "cli_inv s \<longleftrightarrow>
     (2 \<le> c_rank (cf_c s) \<longrightarrow>
        cf_cl s = [] \<and> l_rank (cf_l s) \<noteq> 1 \<and> (cf_l s = LStart \<longrightarrow> cf_lc s = [])
        \<and> (l_rank (cf_l s) = 2 \<longrightarrow> (\<exists>p. blob_fits p \<and> cf_lc s = put_section p)))"

lemma read_blob_put: "blob_fits p \<Longrightarrow> read_blob (put_section p @ r) = (r, Inr p)"
  using tcp_framing.get_put [of p r] by (auto simp: blob_reader_def split: prod.splits sum.splits)

lemma readable_put: "blob_fits p \<Longrightarrow> readable (put_section p @ r) gone"
  by (simp add: readable_def read_blob_put)

lemma read_blob_nil: "read_blob [] = ([], Inl (Io ''early eof''))"
  by (simp add: read_blob_def read_exact_def)

lemma write_blob_socket:
  assumes "write_blob p (socket room) = (s, Inr ())"
  shows "blob_fits p" "sk_taken s = put_section p"
  using assms
  by (auto simp: write_blob_def write_all_def socket_def blob_fits_def put_section_def Let_def split: if_splits)

lemma listener_start_writes:
  assumes "listener_start L r1 r2 r3 room = (out, l)"
  shows "l_ended l \<or> (\<exists>bob p. l = LJoin bob \<and> blob_fits p \<and> out = put_section p)"
  using assms write_blob_socket
  by (fastforce simp: listener_start_def split: sum.splits prod.splits)

lemma cli_inv_step: "cli_step L s s' \<Longrightarrow> cli_inv s \<Longrightarrow> cli_inv s'"
proof (induction rule: cli_step.induct)
  case (l_start s room r1 r2 r3 out l)
  then show ?case using listener_start_writes [OF l_start(3)] by (auto simp: cli_inv_def elim: l_ended.elims)
next
  case (l_join s bob rest l)
  then have "c_rank (cf_c s) < 2 \<or> c_ended (cf_c s)"
    by (auto simp: cli_inv_def readable_def read_blob_nil not_less)
  then show ?case by (cases "cf_c s") (simp_all add: cli_inv_def)
next
  case (l_frame s bob rest l)
  then have "c_rank (cf_c s) < 2" by (auto simp: cli_inv_def not_less)
  then show ?case by (simp add: cli_inv_def)
next
  case (c_start s r1 r2 r3 c)
  then show ?case by (auto simp: cli_inv_def)
next
  case (c_invite s alice room r rest out c)
  then show ?case using c_rank_moves(2) [OF c_invite(4)] by (simp add: cli_inv_def)
next
  case (c_send s alice room out c)
  then show ?case using c_rank_moves(3) [OF c_send(3)] by (simp add: cli_inv_def)
qed

lemma cli_reach_inv: "cli_reach L n s \<Longrightarrow> cli_inv s"
proof (induction rule: cli_reach.induct)
  case init
  show ?case by (simp add: cli_inv_def cli_init_def)
next
  case (step n s s')
  then show ?case by (blast intro: cli_inv_step)
qed

lemma cli_not_stuck:
  assumes "cli_inv s" "\<not> (l_ended (cf_l s) \<and> c_ended (cf_c s))"
  shows "\<exists>s'. cli_step L s s'"
proof -
  have room: "takes (MAX_FRAME + 4) gone" for gone by (simp add: takes_def)
  have invite: "readable (cf_lc s) (l_ended (cf_l s)) \<Longrightarrow> cf_c s = CInvite alice \<Longrightarrow> ?thesis" for alice
    using cli_step.c_invite [OF _ _ room] by (metis surj_pair)
  have read: "readable (cf_cl s) (c_ended (cf_c s)) \<Longrightarrow> l_rank (cf_l s) = 1 \<or> l_rank (cf_l s) = 2 \<Longrightarrow> ?thesis"
    by (cases "cf_l s") (auto, (metis cli_step.l_join cli_step.l_frame surj_pair)+)
  have start: "cf_l s = LStart \<Longrightarrow> ?thesis" using cli_step.l_start [OF _ room] by (metis surj_pair)
  have gone: "c_ended (cf_c s) \<Longrightarrow> ?thesis"
    using assms(2) read start by (cases "cf_l s") (simp_all add: readable_def)
  show ?thesis
  proof (cases "cf_c s")
    case CStart
    then show ?thesis using cli_step.c_start by blast
  next
    case (CInvite alice)
    show ?thesis
    proof (cases "cf_l s")
      case (LJoin bob)
      then obtain p where "blob_fits p" "cf_lc s = put_section p" using assms(1) CInvite by (auto simp: cli_inv_def)
      then have "readable (cf_lc s) (l_ended (cf_l s))" using readable_put [of p "[]"] by simp
      then show ?thesis using invite CInvite by blast
    next
      case (LFrame bob)
      then show ?thesis using assms(1) CInvite by (simp add: cli_inv_def)
    qed (use invite start CInvite in \<open>auto simp: readable_def\<close>)
  next
    case (CSend alice)
    then show ?thesis using cli_step.c_send [OF _ room] by (metis surj_pair)
  qed (use gone in simp_all)
qed

text \<open>
  C8. The smoke runner always comes to an end. Whatever the libraries do, however the two ends interleave and however
  much of a write to a dead peer is taken, no run takes more than six steps, and a run can only stop when both ends have
  terminated: there is no state in which both wait for each other.
\<close>

theorem cli_terminates:
  assumes "cli_reach L n s"
  shows "n \<le> 6 \<and> ((\<forall>s'. \<not> cli_step L s s') \<longrightarrow> l_ended (cf_l s) \<and> c_ended (cf_c s))"
  using cli_reach_bound [OF assms] cli_not_stuck [OF cli_reach_inv [OF assms]] by (meson add_leE)

subsection \<open>The message arrives\<close>

text \<open>
  What is expected of the libraries: members can be created, key packages survive their encoding, and MLS does what
  it is for: an invitation with a member's key package gives a Welcome with which that member derives the text key
  of the inviter's next epoch. The blobs fit the transport.
\<close>

definition handshake_ok where
  "handshake_ok L \<longleftrightarrow>
     (\<forall>r1 r2 r3 who. \<exists>ctx kp. new_member (cl_om L) r1 r2 r3 who = Inr (ctx, kp))
   \<and> (\<forall>r1 r2 r3 who ctx kp. new_member (cl_om L) r1 r2 r3 who = Inr (ctx, kp) \<longrightarrow>
        (\<exists>bs ki. cl_kp_ser L kp = Inr bs \<and> blob_fits bs \<and> cl_kp_de L bs = Inr ki \<and> cl_kp_validate L ki = Inr kp))
   \<and> (\<forall>r1 r2 r3 q1 q2 q3 r alice akp bob kp.
        new_member (cl_om L) r1 r2 r3 (str_bytes ''alice'') = Inr (alice, akp) \<longrightarrow>
        new_member (cl_om L) q1 q2 q3 (str_bytes ''bob'') = Inr (bob, kp) \<longrightarrow>
        (\<exists>alice1 alice2 commit welcome bob'.
           invite_full (cl_om L) r alice [kp] = (alice1, Inr (commit, welcome)) \<and> blob_fits welcome
         \<and> finalize_pending_commit (cl_om L) alice1 = (alice2, Inr ())
         \<and> accept_welcome (cl_om L) bob welcome = (bob', Inr ())
         \<and> same_stream_key (cl_om L) Text alice2 bob'))
   \<and> (\<forall>ctx ct. mls_seal (cl_om L) (cl_aead L) ctx LText 1 (gtp_to_cbor (cl_gtp L) hello) = Inr ct \<longrightarrow>
        blob_fits (frame_to_cbor (cl_frame L) (hello_frame L ctx ct)))"

text \<open>The configurations of a run in which nothing fails, with what is in flight.\<close>

definition offers where
  "offers L bob lc \<longleftrightarrow> (\<exists>r1 r2 r3 kp bs. new_member (cl_om L) r1 r2 r3 (str_bytes ''bob'') = Inr (bob, kp)
     \<and> cl_kp_ser L kp = Inr bs \<and> blob_fits bs \<and> lc = put_section bs)"

definition invites where
  "invites L alice \<longleftrightarrow> (\<exists>r1 r2 r3 kp. new_member (cl_om L) r1 r2 r3 (str_bytes ''alice'') = Inr (alice, kp))"

definition welcomes where
  "welcomes L alice bob w \<longleftrightarrow> blob_fits w
     \<and> (\<exists>bob'. accept_welcome (cl_om L) bob w = (bob', Inr ()) \<and> same_stream_key (cl_om L) Text alice bob')"

definition sends where
  "sends L alice cl \<longleftrightarrow> (\<exists>ct. mls_seal (cl_om L) (cl_aead L) alice LText 1 (gtp_to_cbor (cl_gtp L) hello) = Inr ct
     \<and> blob_fits (frame_to_cbor (cl_frame L) (hello_frame L alice ct))
     \<and> cl = put_section (frame_to_cbor (cl_frame L) (hello_frame L alice ct)))"

fun good where
  "good L LStart CStart lc cl \<longleftrightarrow> lc = [] \<and> cl = []"
| "good L (LJoin bob) CStart lc cl \<longleftrightarrow> offers L bob lc \<and> cl = []"
| "good L LStart (CInvite alice) lc cl \<longleftrightarrow> invites L alice \<and> lc = [] \<and> cl = []"
| "good L (LJoin bob) (CInvite alice) lc cl \<longleftrightarrow> offers L bob lc \<and> invites L alice \<and> cl = []"
| "good L (LJoin bob) (CSend alice) lc cl \<longleftrightarrow> (\<exists>w. cl = put_section w \<and> welcomes L alice bob w)"
| "good L (LFrame bob) (CSend alice) lc cl \<longleftrightarrow> cl = [] \<and> same_stream_key (cl_om L) Text alice bob"
| "good L (LJoin bob) CDone lc cl \<longleftrightarrow> (\<exists>w alice f. cl = put_section w @ f \<and> welcomes L alice bob w \<and> sends L alice f)"
| "good L (LFrame bob) CDone lc cl \<longleftrightarrow> (\<exists>alice. same_stream_key (cl_om L) Text alice bob \<and> sends L alice cl)"
| "good L (LDone m) CDone lc cl \<longleftrightarrow> m = hello"
| "good L _ _ _ _ \<longleftrightarrow> False"

lemma write_blob_taken:
  "blob_fits p \<Longrightarrow> takes room False \<Longrightarrow> \<exists>s. write_blob p (socket room) = (s, Inr ()) \<and> sk_taken s = put_section p"
  by (simp add: write_blob_room takes_def blob_fits_def socket_def)

lemma listener_start_good:
  assumes "handshake_ok L" "takes room False" "listener_start L r1 r2 r3 room = (out, l)"
  shows "\<exists>bob. l = LJoin bob \<and> offers L bob out"
proof -
  obtain bob kp bs where b: "new_member (cl_om L) r1 r2 r3 (str_bytes ''bob'') = Inr (bob, kp)" "cl_kp_ser L kp = Inr bs" "blob_fits bs"
    using assms(1) unfolding handshake_ok_def by meson
  from write_blob_taken [OF b(3) assms(2)] obtain s where "write_blob bs (socket room) = (s, Inr ())" "sk_taken s = put_section bs"
    by blast
  then have "l = LJoin bob" "out = put_section bs" using b assms(3) by (simp_all add: listener_start_def)
  then show ?thesis using b unfolding offers_def by blast
qed

lemma listener_join_good:
  assumes "welcomes L alice bob w" "listener_join L bob (put_section w @ f) = (rest, l)"
  shows "\<exists>bob'. l = LFrame bob' \<and> rest = f \<and> same_stream_key (cl_om L) Text alice bob'"
  using assms by (auto simp: listener_join_def welcomes_def read_blob_put)

lemma connector_start_good: "handshake_ok L \<Longrightarrow> \<exists>alice. connector_start L r1 r2 r3 = CInvite alice \<and> invites L alice"
proof -
  assume "handshake_ok L"
  then have "\<exists>alice kp. new_member (cl_om L) r1 r2 r3 (str_bytes ''alice'') = Inr (alice, kp)"
    by (simp add: handshake_ok_def)
  then obtain alice kp where "new_member (cl_om L) r1 r2 r3 (str_bytes ''alice'') = Inr (alice, kp)" by blast
  then show ?thesis unfolding invites_def by (auto simp: connector_start_def)
qed

lemma connector_invite_good:
  assumes "handshake_ok L" "takes room False" "offers L bob lc" "invites L alice"
    "connector_invite L r room alice lc = (rest, out, c)"
  shows "\<exists>alice' w. c = CSend alice' \<and> out = put_section w \<and> welcomes L alice' bob w"
proof -
  obtain kp bs ki q1 q2 q3 where kp: "new_member (cl_om L) q1 q2 q3 (str_bytes ''bob'') = Inr (bob, kp)"
    "lc = put_section bs" "blob_fits bs" "cl_kp_de L bs = Inr ki" "cl_kp_validate L ki = Inr kp"
    using assms(1,3) unfolding handshake_ok_def offers_def by (metis sum.inject(2))
  obtain alice1 alice2 commit w bob' where inv: "invite_full (cl_om L) r alice [kp] = (alice1, Inr (commit, w))" "blob_fits w"
    "finalize_pending_commit (cl_om L) alice1 = (alice2, Inr ())"
    "accept_welcome (cl_om L) bob w = (bob', Inr ())" "same_stream_key (cl_om L) Text alice2 bob'"
    using assms(1,4) kp(1) unfolding handshake_ok_def invites_def by meson
  obtain s where "write_blob w (socket room) = (s, Inr ())" "sk_taken s = put_section w"
    using write_blob_taken [OF inv(2) assms(2)] by blast
  then have "c = CSend alice2" "out = put_section w"
    using assms(5) kp inv(1-3) read_blob_put [OF kp(3), of "[]"] by (simp_all add: connector_invite_def)
  then show ?thesis using inv(2,4,5) unfolding welcomes_def by blast
qed

lemma seal_hello:
  assumes "aead_total (cl_aead L) (gtp_to_cbor (cl_gtp L) hello)" "same_stream_key (cl_om L) Text alice bob"
  obtains ct where "mls_seal (cl_om L) (cl_aead L) alice LText 1 (gtp_to_cbor (cl_gtp L) hello) = Inr ct"
    and "length ct < 2 ^ 32"
proof -
  obtain key where "export_stream_key (cl_om L) alice LText = Inr key" "length key = 32"
    using assms(2) unfolding same_stream_key_def by (metis label_for.simps(3))
  moreover have "length (mls_nonce 1) = 12" by (simp add: mls_nonce_def)
  ultimately obtain ct where "ae_encrypt (cl_aead L) key (mls_nonce 1) (gtp_to_cbor (cl_gtp L) hello) = Inr ct" "length ct < 2 ^ 32"
    using assms(1) unfolding aead_total_def by blast
  then show thesis using that \<open>export_stream_key (cl_om L) alice LText = Inr key\<close> by (simp add: mls_seal_def aead_err_def)
qed

lemma connector_send_good:
  assumes "handshake_ok L" "aead_total (cl_aead L) (gtp_to_cbor (cl_gtp L) hello)" "same_stream_key (cl_om L) Text alice bob"
    "takes room False" "connector_send L room alice = (out, c)"
  shows "c = CDone \<and> sends L alice out"
proof -
  obtain ct where ct: "mls_seal (cl_om L) (cl_aead L) alice LText 1 (gtp_to_cbor (cl_gtp L) hello) = Inr ct"
    by (rule seal_hello [OF assms(2,3)])
  then have fits: "blob_fits (frame_to_cbor (cl_frame L) (hello_frame L alice ct))"
    using assms(1) unfolding handshake_ok_def by blast
  from write_blob_taken [OF this assms(4)] show ?thesis
    using assms(5) ct fits by (auto simp: connector_send_def write_frame_def sends_def)
qed

lemma listener_frame_good:
  assumes "reads_back (cl_frame L)" "reads_back (cl_gtp L)" "aead_correct (cl_aead L)"
    "aead_total (cl_aead L) (gtp_to_cbor (cl_gtp L) hello)" "same_stream_key (cl_om L) Text alice bob" "sends L alice cl"
    "listener_frame L bob cl = (rest, l)"
  shows "l = LDone hello"
proof -
  obtain ct where ct: "mls_seal (cl_om L) (cl_aead L) alice LText 1 (gtp_to_cbor (cl_gtp L) hello) = Inr ct"
    "blob_fits (frame_to_cbor (cl_frame L) (hello_frame L alice ct))"
    "cl = put_section (frame_to_cbor (cl_frame L) (hello_frame L alice ct))"
    using assms(6) by (auto simp: sends_def)
  have len: "length ct < 2 ^ 32" using seal_hello [OF assms(4,5)] ct(1) by (metis sum.inject(2))
  let ?f = "hello_frame L alice ct"
  have "unat (f_payload_size ?f) = length (f_encrypted_payload ?f)"
    using len by (simp add: hello_frame_def frame_new_def unat_word_of_nat32)
  then have read: "read_frame (cl_frame L) cl = ([], Inr ?f)"
    using read_blob_put [OF ct(2), of "[]"] ct(3) by (simp add: read_frame_def frame_len.round_trip [OF assms(1)])
  have st: "stream_type_typed ?f = Inr Text"
    by (simp add: stream_type_typed_def hello_frame_def frame_new_def stream_try_from_u32_def)
  have opened: "mls_open (cl_om L) (cl_aead L) bob LText 1 ct = Inr (gtp_to_cbor (cl_gtp L) hello)"
    using ct(1) assms(3,5)
    by (auto simp: mls_open_def mls_seal_def same_stream_key_def aead_err_def aead_correct_def split: sum.splits)
  have "gtp_from_cbor (cl_gtp L) (gtp_to_cbor (cl_gtp L) hello) = Inr hello"
    by (rule gtp_len.round_trip [OF assms(2)]) (simp add: hello_def gtp_plain_def str_bytes_def)
  then show ?thesis using assms(7) read st opened by (simp add: listener_frame_def hello_frame_def frame_new_def)
qed

lemma good_cases:
  assumes "good L l c lc cl"
  shows "(c_ended c \<longrightarrow> l \<noteq> LStart) \<and> (\<not> c_ended c \<longrightarrow> \<not> l_ended l)"
  using assms by (cases "(L, l, c, lc, cl)" rule: good.cases) simp_all

lemma good_step:
  assumes "cli_step L s s'" "handshake_ok L" "reads_back (cl_frame L)" "reads_back (cl_gtp L)" "aead_correct (cl_aead L)"
    "aead_total (cl_aead L) (gtp_to_cbor (cl_gtp L) hello)" "good L (cf_l s) (cf_c s) (cf_lc s) (cf_cl s)"
  shows "good L (cf_l s') (cf_c s') (cf_lc s') (cf_cl s')"
  using assms(1,7)
proof (induction rule: cli_step.induct)
  case (l_start s room r1 r2 r3 out l)
  then have "takes room False" using good_cases [OF l_start(4)] by simp
  from listener_start_good [OF assms(2) this l_start(3)] show ?case
    using l_start(1,4) by (cases "cf_c s") auto
next
  case (l_join s bob rest l)
  show ?case
  proof (cases "cf_c s")
    case (CSend alice)
    then obtain w where w: "cf_cl s = put_section w @ []" "welcomes L alice bob w" using l_join by auto
    show ?thesis using listener_join_good [OF w(2), of "[]"] l_join(3) w(1) CSend by auto
  next
    case CDone
    then obtain w alice f where w: "cf_cl s = put_section w @ f" "welcomes L alice bob w" "sends L alice f" using l_join by auto
    show ?thesis using listener_join_good [OF w(2), of f] l_join(3) w(1,3) CDone by auto
  qed (use l_join in \<open>auto simp: readable_def read_blob_nil\<close>)
next
  case (l_frame s bob rest l)
  show ?case
  proof (cases "cf_c s")
    case CDone
    then obtain alice where a: "same_stream_key (cl_om L) Text alice bob" "sends L alice (cf_cl s)" using l_frame by auto
    from listener_frame_good [OF assms(3-6) a l_frame(3)] show ?thesis using CDone by simp
  qed (use l_frame in \<open>auto simp: readable_def read_blob_nil\<close>)
next
  case (c_start s r1 r2 r3 c)
  then show ?case using connector_start_good [OF assms(2), of r1 r2 r3] by (cases "cf_l s") auto
next
  case (c_invite s alice room r rest out c)
  then have room: "takes room False" using good_cases [OF c_invite(5)] by simp
  show ?case
  proof (cases "cf_l s")
    case (LJoin bob)
    then have g: "offers L bob (cf_lc s)" "invites L alice" "cf_cl s = []" using c_invite by auto
    from connector_invite_good [OF assms(2) room g(1,2) c_invite(4)] show ?thesis using LJoin g(3) by auto
  qed (use c_invite in \<open>auto simp: readable_def read_blob_nil\<close>)
next
  case (c_send s alice room out c)
  then have room: "takes room False" using good_cases [OF c_send(4)] by simp
  show ?case
  proof (cases "cf_l s")
    case (LJoin bob)
    then obtain w bob' where w: "cf_cl s = put_section w" "welcomes L alice bob w" "same_stream_key (cl_om L) Text alice bob'"
      using c_send by (auto simp: welcomes_def)
    from connector_send_good [OF assms(2,6) w(3) room c_send(3)] show ?thesis using w(1,2) LJoin by auto
  next
    case (LFrame bob)
    then have k: "same_stream_key (cl_om L) Text alice bob" "cf_cl s = []" using c_send by auto
    from connector_send_good [OF assms(2,6) k(1) room c_send(3)] show ?thesis using k LFrame by auto
  qed (use c_send in auto)
qed

text \<open>
  C7. The message arrives. When the libraries do what is expected of them, every run of the two ends,
  in whatever order they proceed, that cannot go on has ended with the connector done and the listener
  holding exactly the message that was sent; with the bound on the steps, every run ends so.
\<close>

theorem cli_delivers:
  assumes "handshake_ok L" and "reads_back (cl_frame L)" and "reads_back (cl_gtp L)" and "aead_correct (cl_aead L)"
    and "aead_total (cl_aead L) (gtp_to_cbor (cl_gtp L) hello)"
    and "cli_reach L n s" and "\<forall>s'. \<not> cli_step L s s'"
  shows "cf_l s = LDone hello \<and> cf_c s = CDone"
proof -
  have "good L (cf_l s) (cf_c s) (cf_lc s) (cf_cl s)"
    using assms(6)
  proof (induction rule: cli_reach.induct)
    case init
    show ?case by (simp add: cli_init_def)
  next
    case (step n s s')
    then show ?case using good_step [OF _ assms(1-5)] by blast
  qed
  moreover have "l_ended (cf_l s)" "c_ended (cf_c s)"
    using cli_not_stuck [OF cli_reach_inv [OF assms(6)]] assms(7) by blast+
  ultimately show ?thesis by (cases "cf_l s"; cases "cf_c s") auto
qed

lemma cli_run_ends: "\<exists>n s. cli_reach L n s \<and> (\<forall>s'. \<not> cli_step L s s')"
proof (rule ccontr)
  assume "\<not> ?thesis"
  then have go: "\<exists>s'. cli_step L s s'" if "cli_reach L n s" for n s using that by blast
  have "\<exists>s. cli_reach L n s" for n
    by (induction n) (meson cli_reach.init, meson cli_reach.step go)
  then obtain s where "cli_reach L 7 s" by blast
  from cli_reach_bound [OF this] show False by simp
qed

subsection \<open>Concrete runs\<close>

definition toy_cli :: "(nat \<times> bytes, bytes, nat, bytes, bytes, bytes, bytes) cli_libs" where
  "toy_cli =
     \<lparr>cl_om = toy_openmls\<lparr>om_kp_build := (\<lambda>r p sg c. (p, Inr [7])), om_msg_de := (\<lambda>bs. Inr (WelcomeMessage bs))\<rparr>,
      cl_aead = toy_aead, cl_frame = toy_frame_codec, cl_gtp = toy_gtp_cbor,
      cl_kp_ser = Inr, cl_kp_de = Inr, cl_kp_validate = Inr\<rparr>"

lemma toy_hello_length: "length (gtp_to_cbor toy_gtp_cbor hello) < 1000"
  by (simp add: gtp_to_cbor_def toy_gtp_cbor_def field_codec_def length_put_fields hello_def gtp_plain_def str_bytes_def)

lemma toy_seal_length:
  "mls_seal (cl_om toy_cli) toy_aead ctx LText 1 pt = Inr ct \<Longrightarrow> length ct = length pt + 44"
  by (auto simp: mls_seal_def export_stream_key_def toy_aead_def aead_err_def toy_cli_def toy_openmls_def om_err_def mls_nonce_def)

lemma toy_new_member:
  "new_member (cl_om toy_cli) r1 r2 r3 who = Inr (ctx, kp) \<Longrightarrow>
     kp = [7] \<and> mls_group ctx = (0, r3) \<and> pending_staged ctx = None"
  by (auto simp: new_member_def toy_cli_def toy_openmls_def om_err_def Let_def)

lemma toy_handshake_ok: "handshake_ok toy_cli"
  unfolding handshake_ok_def
proof (intro conjI allI impI)
  fix r1 r2 r3 who
  show "\<exists>ctx kp. new_member (cl_om toy_cli) r1 r2 r3 who = Inr (ctx, kp)"
    by (simp add: new_member_def toy_cli_def toy_openmls_def om_err_def Let_def)
next
  fix r1 r2 r3 who ctx kp assume "new_member (cl_om toy_cli) r1 r2 r3 who = Inr (ctx, kp)"
  from toy_new_member [OF this]
  show "\<exists>bs ki. cl_kp_ser toy_cli kp = Inr bs \<and> blob_fits bs \<and> cl_kp_de toy_cli bs = Inr ki \<and> cl_kp_validate toy_cli ki = Inr kp"
    by (simp add: toy_cli_def blob_fits_def MAX_FRAME_def)
next
  fix r1 r2 r3 q1 q2 q3 r alice akp bob kp
  assume "new_member (cl_om toy_cli) r1 r2 r3 (str_bytes ''alice'') = Inr (alice, akp)"
    "new_member (cl_om toy_cli) q1 q2 q3 (str_bytes ''bob'') = Inr (bob, kp)"
  then have "mls_group alice = (0, r3)" "pending_staged alice = None" by (blast dest: toy_new_member)+
  then show "\<exists>alice1 alice2 commit welcome bob'.
       invite_full (cl_om toy_cli) r alice [kp] = (alice1, Inr (commit, welcome)) \<and> blob_fits welcome
     \<and> finalize_pending_commit (cl_om toy_cli) alice1 = (alice2, Inr ())
     \<and> accept_welcome (cl_om toy_cli) bob welcome = (bob', Inr ())
     \<and> same_stream_key (cl_om toy_cli) Text alice2 bob'"
    by (simp add: invite_full_def finalize_pending_commit_def accept_welcome_def same_stream_key_def export_stream_key_def
        toy_cli_def toy_openmls_def om_err_def blob_fits_def MAX_FRAME_def)
next
  fix ctx ct assume "mls_seal (cl_om toy_cli) (cl_aead toy_cli) ctx LText 1 (gtp_to_cbor (cl_gtp toy_cli) hello) = Inr ct"
  then have "length ct < 2000"
    using toy_seal_length [of ctx "gtp_to_cbor toy_gtp_cbor hello" ct] toy_hello_length by (simp add: toy_cli_def)
  then show "blob_fits (frame_to_cbor (cl_frame toy_cli) (hello_frame toy_cli ctx ct))"
    by (simp add: frame_to_cbor_def toy_cli_def toy_frame_codec_def field_codec_def length_put_fields hello_frame_def frame_new_def
        group_id_16_def Let_def blob_fits_def MAX_FRAME_def)
qed

theorem cli_terminates_witness:
  "\<exists>n s. cli_reach toy_cli n s \<and> (\<forall>s'. \<not> cli_step toy_cli s s') \<and> n \<le> 6 \<and> l_ended (cf_l s) \<and> c_ended (cf_c s)"
proof -
  obtain n s where s: "cli_reach toy_cli n s" "\<forall>s'. \<not> cli_step toy_cli s s'" using cli_run_ends by blast
  then show ?thesis using cli_terminates [OF s(1)] by blast
qed

theorem cli_delivers_witness:
  "\<exists>n s. cli_reach toy_cli n s \<and> (\<forall>s'. \<not> cli_step toy_cli s s') \<and> cf_l s = LDone hello \<and> cf_c s = CDone"
proof -
  obtain n s where s: "cli_reach toy_cli n s" "\<forall>s'. \<not> cli_step toy_cli s s'" using cli_run_ends by blast
  have "aead_total toy_aead (gtp_to_cbor toy_gtp_cbor hello)"
    by (rule toy_aead_total) (use toy_hello_length in simp)
  then show ?thesis using cli_delivers [OF toy_handshake_ok _ _ _ _ s] s by (auto simp: toy_cli_def)
qed

end
