(* ===== verification/Spec2Isabelle.thy ===== *)
theory Spec2Isabelle
  imports Gbp_Stack Gtp_Attachment Gap_Jitter Gsp_Roles Gsp_Capabilities Gbp_Sframe Gbp_Quic Ffi_Locks Ffi_Nonces Wasm_Props Gbp_Cli
begin

text \<open>
  Verification of the Group Protocol Stack.

  \<^bold>\<open>The program.\<close> The stack carries text, audio and signalling of a group over one encrypted frame format.
  \<^verbatim>\<open>gbp-core\<close> is the shared vocabulary, \<^verbatim>\<open>gbp-protocol\<close> the frame, \<^verbatim>\<open>gbp-mls\<close> a wrapper around an OpenMLS group that
  derives the stream keys, \<^verbatim>\<open>gbp-node\<close> the base layer of one member (framing, replay windows, the state
  machine and the control plane that moves the group from epoch to epoch). On top of the node stand three
  clients: \<^verbatim>\<open>gtp\<close> (text, history, attachments), \<^verbatim>\<open>gap\<close> (audio, jitter buffer) and \<^verbatim>\<open>gsp\<close> (signals, roles,
  capabilities). A client encodes its payload and hands it to \<^verbatim>\<open>GroupNode::send_payload\<close>, which seals it
  through the MLS context and returns a frame; the application sends the frame through \<^verbatim>\<open>gbp-transport\<close>; the
  peer's \<^verbatim>\<open>on_wire\<close> checks and opens it and yields events, whose plaintext goes to the peer's client.
  \<^verbatim>\<open>gbp-sframe\<close> encrypts media frames with keys exported from the MLS group. \<^verbatim>\<open>gbp-stack-ffi\<close> makes all of this
  available to C callers through integer handles, buffers, C strings and a last-error slot; \<^verbatim>\<open>gbp-wasm\<close> does the same for
  browsers with JavaScript objects, and \<^verbatim>\<open>gbp-cli\<close> runs one handshake and one message over TCP.

  \<^bold>\<open>Theories and sources\<close> (paths under \<^verbatim>\<open>src/crates\<close>).
  \<^item> \<open>Gbp_Prelude\<close>: integers, byte strings, number formatting, UTF-8, and two interfaces: \<open>wire_enum\<close> (an enumeration
    with its numbers) and \<open>blob_framing\<close> (a writer and a reader of delimited blobs).
  \<^item> \<open>Gbp_Core\<close>: \<^verbatim>\<open>gbp/core/src\<close>, enumerations, flags, state machines, error registry, conformance classes.
    \<open>Gbp_Bounded\<close>: \<^verbatim>\<open>bounded.rs\<close> behind the interface \<open>dedup\<close>, which the text history implements too.
  \<^item> \<open>Gbp_Frame\<close>: \<^verbatim>\<open>gbp/base/src\<close>, frame, control message and error object, with the interfaces \<open>length_checked\<close>
    (a declared length must match) and \<open>payload_format\<close> (three codecs, one round trip).
  \<^item> \<open>Gbp_Mls\<close>: \<^verbatim>\<open>gbp/mls/src/lib.rs\<close>, \<^verbatim>\<open>MlsContext\<close> with membership changes, staged commits, seal and open, export and
    restore of the state.
  \<^item> \<open>Gbp_Node\<close>: \<^verbatim>\<open>gbp/node/src/node.rs\<close>, the record \<open>group_node\<close> and one definition per method. \<open>Gbp_Node_Runs\<close>: the public
    methods as calls, runs, logs, and the interface \<open>monitor\<close> for properties of logs. \<open>Gbp_Node_Props\<close>,
    \<open>Gbp_Node_Exchange\<close>, \<open>Gbp_Node_Control\<close>: properties of one node, of two nodes joined by a channel, and of the
    control plane under contention and time. \<open>Gbp_Instances\<close>: concrete serialisers for the witnesses.
  \<^item> \<open>Gtp_Message\<close>, \<open>Gtp_Client\<close>, \<open>Gtp_Attachment\<close>: \<^verbatim>\<open>gtp/src\<close>. \<open>Gap_Payload\<close>, \<open>Gap_Client\<close>, \<open>Gap_Jitter\<close>: \<^verbatim>\<open>gap/src\<close>.
    \<open>Gsp_Signal\<close>, \<open>Gsp_Client\<close>, \<open>Gsp_Roles\<close>, \<open>Gsp_Capabilities\<close>: \<^verbatim>\<open>gsp/src\<close>. The Protobuf structs are those of
    \<^verbatim>\<open>gbp-proto/src/lib.rs\<close>.
  \<^item> \<open>Gbp_Transport\<close>: \<^verbatim>\<open>gbp/transport/src\<close>, framing over TCP and QUIC. \<open>Gbp_Quic\<close>: the rest of \<^verbatim>\<open>quic.rs\<close>, endpoints,
    TLS configuration, opening and finishing of streams. \<open>Gbp_Sframe\<close>: \<^verbatim>\<open>gbp-sframe/src\<close>.
    \<open>Gbp_Stack\<close>: client, node, MLS context and peer composed.
  \<^item> \<open>Ffi_Handles\<close> (registries behind the interface \<open>handle_table\<close>, memory blocks), \<open>Ffi_Base64\<close>, \<open>Gbp_Ffi\<close> (every exported
    function), \<open>Ffi_Runs\<close> (sequences of calls and their invariant), \<open>Ffi_Sframe\<close>, \<open>Ffi_Nonces\<close> (the counters a caller sees), \<open>Ffi_Props\<close>:
    \<^verbatim>\<open>gbp/stack-ffi/src/lib.rs\<close>. \<open>Lock_Order\<close>: threads that take mutexes, as a step relation, with the interface
    \<open>ordered_scripts\<close> (locks are taken in increasing rank and given back). \<open>Ffi_Locks\<close>: what each exported function locks, as an
    instance of that interface, and the creation of an encryptor in the two parts that other threads can come between.
  \<^item> \<open>Gbp_Wasm\<close> (the classes for browsers), \<open>Utf8_Lossy\<close> (how they show text), \<open>Wasm_Props\<close>: \<^verbatim>\<open>gbp/wasm/src/lib.rs\<close>.
    \<open>Gbp_Cli\<close>: \<^verbatim>\<open>gbp/cli/src/main.rs\<close>, listener and connector as an inductive step relation over two byte queues.

  \<^bold>\<open>How the code is modelled.\<close> Definitions keep the names of the source, with a prefix where two crates share one. A
  struct is a record, a method with \<^verbatim>\<open>&mut self\<close> returns the updated record, \<^verbatim>\<open>Result\<close> is a sum with the error on the
  left, and a panic is \<open>None\<close>. Integers are words of their width and wrap as in the release profile;
  \<^verbatim>\<open>usize\<close> is a natural number. The clock is read once per call and is an argument. A \<^verbatim>\<open>HashMap\<close> is a partial
  function; where the code iterates over one, the order is an argument of which only
  \<open>hash_iter\<close> is assumed, so the results hold for every order. A \<^verbatim>\<open>BTreeSet\<close> is a finite set read in sorted order.
  SFrame encryptors share their counter through a reference; they are indices into an explicit list of
  cells. The state of a C process is one record: registries from handles to objects, blocks in a memory
  whose allocator never reuses an address (0 is null, 1 the dangling pointer of an empty vector), the cache of
  encryptors and the error slot; a pointer with a length is the byte string it covers, and a call with
  undefined behaviour or an abort ends the run.

  \<^bold>\<open>Parameters.\<close> The third-party crates are arguments: ciborium with serde, prost, planus, OpenMLS, ChaCha20-Poly1305,
  SHA-2, the sframe crate, serde_json, the TLS codec of key packages, quinn and rustls. What the code relies on is stated by named
  predicates (\<open>reads_back\<close>, \<open>gtp_codecs_ok\<close>, \<open>gap_codecs_ok\<close>, \<open>gsp_codecs_ok\<close>, \<open>aead_correct\<close>, \<open>aead_total\<close>, \<open>kid_ok\<close>,
  \<open>counter_ok\<close>, \<open>cipher_ok\<close>, \<open>store_ok\<close>, \<open>json_ok\<close>, \<open>handshake_ok\<close>, \<open>finish_ok\<close>), each met by a concrete instance that the witnesses use.

  \<^bold>\<open>What is shown.\<close> For a node: no frame is delivered twice in an epoch, a payload is delivered exactly when it passes the
  checks and opens, a refused frame changes nothing but the state (to which state is part of the statement), the state changes follow the
  state machine, transition ids only grow, and a failed node stays failed, over every run of its
  methods. For two nodes: a burst arrives completely and in order, and the three-step transition completes. For the
  clients: exactly-once delivery of texts, the roster as a replay of the accepted signals, history resynchronisation,
  attachments (with every outcome of the assembly), a voice stream from client to client across the wrap, the jitter buffer, roles and capability negotiation as the
  relations they stand for. For MLS and SFrame: restored states, staged commits, unique counters, replay
  protection that forgeries cannot disturb. For the transport: TCP and QUIC are interchangeable and read
  exactly what was written with the frame writers of both, also from a stream that breaks or is finished. For the C interface: the state stays well-formed whatever is called, blocks are stable until
  released, what each function leaves in the error slot, events lose nothing, handles reconnect to their counter and no leaf
  of a session sends two frames with the same counter, a text gets from one
  process to another, and any number of threads that call it never deadlock. The browser bindings do call by call what the C interface does. The two ends of the command line
  never deadlock, end after at most six steps whatever the libraries do, and deliver the message when these do
  what is expected of them. Some theorems state weaknesses of the code: nonces shared between members and between
  sessions, two counters for one sender when two threads create its encryptor at the same time, a replay window moved
  by frames that do not open, and a jitter buffer that stalls when the sequence number wraps. Where the documents of the
  protocol ask for something else than the code does (the order in which commits win, the effects of timeouts and of
  a wrong transition id, request ids per sender, the target of a mute), the theorem states what the code does and its text
  names the difference.

  \<^bold>\<open>Bounds.\<close> Nothing runs on fuel: every loop of the source is a structural recursion or has a termination proof. Sizes
  below \<open>2 ^ 32\<close> are assumed where the wire format has a 32-bit length, and fewer than \<open>2 ^ 31\<close> calls where handles are
  32-bit integers.

  \<^bold>\<open>Not modelled.\<close> The FlatBuffers crate (generated at build time); binding, accepting and connecting of sockets and logging in the
  command line; poisoning of a mutex by a panic; failures of the allocator, but for
  the size a peer declares for an attachment, which is reserved before anything else is known of it; the unused \<^verbatim>\<open>gbp\<close> and attachment structs of \<^verbatim>\<open>gbp-proto\<close>; bindings for other languages, examples and
  tests.
\<close>

end
